theory Spec2Isabelle
  imports Main "HOL-Library.AList"
begin

section \<open>Strings\<close>

text \<open>
  A JavaScript string is modelled as a \<^typ>\<open>string\<close>: one \<^typ>\<open>char\<close> per code unit, for
  the code units below 256. In that range the white space removed by \<open>String.prototype.trim\<close>
  is TAB, LF, VT, FF, CR, SPACE and NBSP, and \<open>toLowerCase\<close> maps \<open>A..Z\<close> and the accented
  capitals \<open>U+00C0..U+00DE\<close> (without the multiplication sign) 32 places up.
\<close>

definition is_space :: "char \<Rightarrow> bool" where
  "is_space c = (of_char c \<in> {9, 10, 11, 12, 13, 32, 160 :: nat})"

definition trim :: "string \<Rightarrow> string" where
  "trim s = rev (dropWhile is_space (rev (dropWhile is_space s)))"

definition lower_char :: "char \<Rightarrow> char" where
  "lower_char c =
     (let n = of_char c :: nat
      in if (65 \<le> n \<and> n \<le> 90) \<or> (192 \<le> n \<and> n \<le> 222 \<and> n \<noteq> 215)
         then char_of (n + 32) else c)"

definition toLowerCase :: "string \<Rightarrow> string" where
  "toLowerCase s = map lower_char s"

definition startsWith :: "string \<Rightarrow> string \<Rightarrow> bool" where
  "startsWith s p = (take (length p) s = p)"

definition is_digit :: "char \<Rightarrow> bool" where
  "is_digit c = (48 \<le> (of_char c :: nat) \<and> (of_char c :: nat) \<le> 57)"

definition digits_value :: "string \<Rightarrow> int" where
  "digits_value ds = foldl (\<lambda>a c. 10 * a + (int (of_char c) - 48)) 0 ds"

text \<open>
  \<open>parseInt(s, 10)\<close>: leading white space, an optional sign, then the longest run of decimal
  digits; \<open>NaN\<close> (here \<open>None\<close>) when there is no digit. The value is the exact integer; the
  program only compares it with small constants.
\<close>

definition parseInt :: "string \<Rightarrow> int option" where
  "parseInt s =
     (let s1 = dropWhile is_space s;
          neg = (s1 \<noteq> [] \<and> hd s1 = CHR ''-'');
          s2 = (if s1 \<noteq> [] \<and> (hd s1 = CHR ''-'' \<or> hd s1 = CHR ''+'') then tl s1 else s1);
          ds = takeWhile is_digit s2
      in if ds = [] then None
         else Some (if neg then - digits_value ds else digits_value ds))"

fun decimal :: "nat \<Rightarrow> string" where
  "decimal n =
     (if n < 10 then [char_of (48 + n)]
      else decimal (n div 10) @ [char_of (48 + n mod 10)])"

declare decimal.simps [simp del]

definition decimal_int :: "int \<Rightarrow> string" where
  "decimal_int i = (if i < 0 then CHR ''-'' # decimal (nat (- i)) else decimal (nat i))"

fun intercalate :: "string \<Rightarrow> string list \<Rightarrow> string" where
  "intercalate sep [] = []"
| "intercalate sep [x] = x"
| "intercalate sep (x # y # ys) = x @ sep @ intercalate sep (y # ys)"

section \<open>JSON values\<close>

text \<open>
  What \<open>JSON.parse\<close> returns. An object is an association list in the order in which
  JavaScript enumerates its keys; numbers are the integers. A value of type
  \<open>json option\<close> is a JavaScript value, \<open>None\<close> being \<open>undefined\<close>.
\<close>

datatype json =
    JNull
  | JBool bool
  | JNum int
  | JStr string
  | JArr "json list"
  | JObj "(string \<times> json) list"

datatype exn =
    FileAlreadyExists "string list"
  | OllamaError string
  | FetchFailed
  | ExecFailed
  | SyntaxError
  | TypeError
  | ErrnoException

text \<open>Reading a property: \<open>v.k\<close>.\<close>

fun js_get :: "json option \<Rightarrow> string \<Rightarrow> exn + json option" where
  "js_get None k = Inl TypeError"
| "js_get (Some JNull) k = Inl TypeError"
| "js_get (Some (JObj kvs)) k = Inr (map_of kvs k)"
| "js_get (Some v) k = Inr None"

text \<open>
  Writing a property, \<open>v.k = x\<close>, in strict mode; the result is the value \<open>v\<close> then denotes.
  A property set on an array is not an element and does not reach \<open>JSON.stringify\<close>.
\<close>

fun js_set :: "json option \<Rightarrow> string \<Rightarrow> json \<Rightarrow> exn + json" where
  "js_set (Some (JObj kvs)) k x = Inr (JObj (AList.update k x kvs))"
| "js_set (Some (JArr xs)) k x = Inr (JArr xs)"
| "js_set v k x = Inl TypeError"

fun truthy :: "json option \<Rightarrow> bool" where
  "truthy None = False"
| "truthy (Some JNull) = False"
| "truthy (Some (JBool b)) = b"
| "truthy (Some (JNum n)) = (n \<noteq> 0)"
| "truthy (Some (JStr s)) = (s \<noteq> [])"
| "truthy (Some v) = True"

text \<open>String conversion, as a template literal applies it to an interpolated value.\<close>

fun js_String_json :: "json \<Rightarrow> string" where
  "js_String_json JNull = ''null''"
| "js_String_json (JBool b) = (if b then ''true'' else ''false'')"
| "js_String_json (JNum n) = decimal_int n"
| "js_String_json (JStr s) = s"
| "js_String_json (JArr xs) =
     intercalate '','' (map (\<lambda>x. if x = JNull then [] else js_String_json x) xs)"
| "js_String_json (JObj kvs) = ''[object Object]''"

definition js_String :: "json option \<Rightarrow> string" where
  "js_String v = (case v of None \<Rightarrow> ''undefined'' | Some j \<Rightarrow> js_String_json j)"

text \<open>The text \<open>JSON.stringify(v, null, 2)\<close> writes.\<close>

definition hex_digit :: "nat \<Rightarrow> char" where
  "hex_digit n = (if n < 10 then char_of (48 + n) else char_of (87 + n))"

definition quote_char :: "char \<Rightarrow> string" where
  "quote_char c =
     (let n = of_char c :: nat
      in if n = 34 then [CHR 0x5C, CHR 0x22]
         else if n = 92 then [CHR 0x5C, CHR 0x5C]
         else if n = 8 then [CHR 0x5C, CHR ''b'']
         else if n = 9 then [CHR 0x5C, CHR ''t'']
         else if n = 10 then [CHR 0x5C, CHR ''n'']
         else if n = 12 then [CHR 0x5C, CHR ''f'']
         else if n = 13 then [CHR 0x5C, CHR ''r'']
         else if n < 32 then [CHR 0x5C, CHR ''u'', CHR ''0'', CHR ''0'',
                              hex_digit (n div 16), hex_digit (n mod 16)]
         else [c])"

definition quote :: "string \<Rightarrow> string" where
  "quote s = CHR 0x22 # concat (map quote_char s) @ [CHR 0x22]"

fun stringify_at :: "nat \<Rightarrow> json \<Rightarrow> string" where
  "stringify_at ind JNull = ''null''"
| "stringify_at ind (JBool b) = (if b then ''true'' else ''false'')"
| "stringify_at ind (JNum n) = decimal_int n"
| "stringify_at ind (JStr s) = quote s"
| "stringify_at ind (JArr xs) =
     (if xs = [] then ''[]''
      else ''['' @ [CHR 0x0A] @
           intercalate ('','' @ [CHR 0x0A])
             (map (\<lambda>x. replicate (ind + 2) CHR '' '' @ stringify_at (ind + 2) x) xs) @
           [CHR 0x0A] @ replicate ind CHR '' '' @ '']'')"
| "stringify_at ind (JObj kvs) =
     (if kvs = [] then ''{}''
      else ''{'' @ [CHR 0x0A] @
           intercalate ('','' @ [CHR 0x0A])
             (map (\<lambda>kv. replicate (ind + 2) CHR '' '' @ quote (fst kv) @ '': '' @
                        stringify_at (ind + 2) (snd kv)) kvs) @
           [CHR 0x0A] @ replicate ind CHR '' '' @ ''}'')"

section \<open>The file system\<close>

text \<open>
  A path is the list of its components below the root. A file holds plain text or a JSON
  document; a JSON document is kept as the value it denotes (\<open>JSON.parse\<close> after
  \<open>JSON.stringify\<close> returns the value that was written), and a text where a JSON document is
  read stands for a file that does not parse.
\<close>

type_synonym path = "string list"

datatype content = Text string | Json json

datatype node = Dir | File content

type_synonym filesystem = "path \<Rightarrow> node option"

definition utf8 :: "content \<Rightarrow> string" where
  "utf8 c = (case c of Text s \<Rightarrow> s | Json j \<Rightarrow> stringify_at 0 j)"

definition JSON_parse :: "content \<Rightarrow> exn + json" where
  "JSON_parse c = (case c of Text s \<Rightarrow> Inl SyntaxError | Json j \<Rightarrow> Inr j)"

definition JSON_stringify :: "json \<Rightarrow> content" where
  "JSON_stringify j = Json j"

definition existsSync :: "filesystem \<Rightarrow> path \<Rightarrow> bool" where
  "existsSync f p = (f p \<noteq> None)"

definition is_file :: "filesystem \<Rightarrow> path \<Rightarrow> bool" where
  "is_file f p = (case f p of Some (File c) \<Rightarrow> True | _ \<Rightarrow> False)"

definition ancestors :: "path \<Rightarrow> path list" where
  "ancestors p = map (\<lambda>n. take n p) [0..<Suc (length p)]"

text \<open>\<open>fs.mkdirSync(p, { recursive: true })\<close>: the directory and every missing ancestor.\<close>

definition mkdirSync :: "filesystem \<Rightarrow> path \<Rightarrow> exn + filesystem" where
  "mkdirSync f p =
     (if \<exists>q \<in> set (ancestors p). is_file f q then Inl ErrnoException
      else Inr (\<lambda>q. if q \<in> set (ancestors p) then Some Dir else f q))"

text \<open>\<open>fs.writeFileSync\<close> needs the parent directory and refuses to replace a directory.\<close>

definition writeFileSync :: "filesystem \<Rightarrow> path \<Rightarrow> content \<Rightarrow> exn + filesystem" where
  "writeFileSync f p c =
     (if p = [] \<or> f (butlast p) \<noteq> Some Dir \<or> f p = Some Dir then Inl ErrnoException
      else Inr (f(p \<mapsto> File c)))"

definition readFileSync :: "filesystem \<Rightarrow> path \<Rightarrow> exn + content" where
  "readFileSync f p = (case f p of Some (File c) \<Rightarrow> Inr c | _ \<Rightarrow> Inl ErrnoException)"

text \<open>POSIX \<open>path.resolve(cwd, arg)\<close>, \<open>path.join\<close> and \<open>path.basename\<close>.\<close>

fun split_slash :: "string \<Rightarrow> string list" where
  "split_slash [] = [[]]"
| "split_slash (c # cs) =
     (if c = CHR ''/'' then [] # split_slash cs
      else (case split_slash cs of [] \<Rightarrow> [[c]] | seg # segs \<Rightarrow> (c # seg) # segs))"

definition resolve_step :: "path \<Rightarrow> string \<Rightarrow> path" where
  "resolve_step acc seg =
     (if seg = [] \<or> seg = ''.'' then acc
      else if seg = ''..'' then butlast acc
      else acc @ [seg])"

definition path_resolve :: "path \<Rightarrow> string \<Rightarrow> path" where
  "path_resolve base arg =
     foldl resolve_step (if startsWith arg ''/'' then [] else base) (split_slash arg)"

definition path_join :: "path \<Rightarrow> string list \<Rightarrow> path" where
  "path_join p segs = p @ segs"

definition path_basename :: "path \<Rightarrow> string" where
  "path_basename p = (if p = [] then [] else last p)"

section \<open>The process and its environment\<close>

text \<open>
  A command runs against the file system, the working directory, the lines the operator will
  type, the console, and the text-generation service (its reply to the n-th request of the
  run, and the prompts sent so far). Console lines are recorded without the pictograph the
  source puts in front of some of them, and the dash of the header line is written as a
  hyphen (both are code units above 255). A run ends by returning, by \<open>process.exit\<close>, by
  an exception nobody catches, or at a question that never gets an answer because the input
  has ended.
\<close>

datatype out = Log string | Err string | Warn string | Ask string

datatype reply = Unreachable | Response bool content

datatype ending = Exit nat | Uncaught exn | InputClosed

record world =
  fs :: filesystem
  cwd :: path
  stdin :: "string list"
  console :: "out list"
  service :: "nat \<Rightarrow> reply"
  requests :: "string list"
  git_ok :: bool

type_synonym 'a prog = "world \<Rightarrow> (ending + 'a) \<times> world"

text \<open>Node ends the process with code 1 on an uncaught exception or rejection.\<close>

fun exit_code :: "ending \<Rightarrow> nat" where
  "exit_code (Exit n) = n"
| "exit_code (Uncaught e) = 1"
| "exit_code InputClosed = 0"

definition ret :: "'a \<Rightarrow> 'a prog" where
  "ret a w = (Inr a, w)"

definition bnd :: "'a prog \<Rightarrow> ('a \<Rightarrow> 'b prog) \<Rightarrow> 'b prog" where
  "bnd m k w = (case m w of (Inl e, w') \<Rightarrow> (Inl e, w') | (Inr a, w') \<Rightarrow> k a w')"

definition thn :: "'a prog \<Rightarrow> 'b prog \<Rightarrow> 'b prog" where
  "thn m k = bnd m (\<lambda>_. k)"

definition throw :: "exn \<Rightarrow> 'a prog" where
  "throw e w = (Inl (Uncaught e), w)"

definition process_exit :: "nat \<Rightarrow> 'a prog" where
  "process_exit n w = (Inl (Exit n), w)"

definition lift :: "exn + 'a \<Rightarrow> 'a prog" where
  "lift r = (case r of Inl e \<Rightarrow> throw e | Inr a \<Rightarrow> ret a)"

definition emit :: "out list \<Rightarrow> unit prog" where
  "emit ls w = (Inr (), w\<lparr>console := console w @ ls\<rparr>)"

definition console_log :: "string \<Rightarrow> unit prog" where
  "console_log s = emit [Log s]"

definition console_error :: "string \<Rightarrow> unit prog" where
  "console_error s = emit [Err s]"

definition console_warn :: "string \<Rightarrow> unit prog" where
  "console_warn s = emit [Warn s]"

definition fs_read :: "(filesystem \<Rightarrow> exn + 'a) \<Rightarrow> 'a prog" where
  "fs_read g w = lift (g (fs w)) w"

definition fs_write :: "(filesystem \<Rightarrow> exn + filesystem) \<Rightarrow> unit prog" where
  "fs_write g w =
     (case g (fs w) of Inl e \<Rightarrow> throw e w | Inr f' \<Rightarrow> (Inr (), w\<lparr>fs := f'\<rparr>))"

section \<open>The command-line tool\<close>

subsection \<open>Helpers\<close>

definition printHeader :: "unit prog" where
  "printHeader = console_log ''SpecAI - Spec-Driven AI Development Framework''"

definition help_text :: string where
  "help_text =
     ''\<newline>Usage:\<newline>  specai init [path] [options]\<newline>  specai status\<newline>\<newline>'' @
     ''Options:\<newline>  --here        Initialize in current directory\<newline>'' @
     ''  --force       Overwrite existing SpecAI setup\<newline>'' @
     ''  --no-git      Skip git initialization\<newline>''"

definition printHelp :: "unit prog" where
  "printHelp = console_log help_text"

definition statePath :: "path \<Rightarrow> path" where
  "statePath projectDir = path_join projectDir [''specai'', ''state.json'']"

definition loadState :: "path \<Rightarrow> json prog" where
  "loadState projectDir =
     fs_read (\<lambda>f. case readFileSync f (statePath projectDir) of
                     Inl e \<Rightarrow> Inl e | Inr c \<Rightarrow> JSON_parse c)"

definition saveState :: "path \<Rightarrow> json \<Rightarrow> unit prog" where
  "saveState projectDir state =
     fs_write (\<lambda>f. writeFileSync f (statePath projectDir) (JSON_stringify state))"

text \<open>
  \<open>callQwen\<close>: one request; a rejected \<open>fetch\<close> and a response that is not \<open>ok\<close> throw, and so
  does a body that is not JSON or has no string \<open>response\<close>.
\<close>

definition response_text :: "content \<Rightarrow> exn + string" where
  "response_text body =
     (case JSON_parse body of
        Inl e \<Rightarrow> Inl e
      | Inr data \<Rightarrow>
          (case js_get (Some data) ''response'' of
             Inl e \<Rightarrow> Inl e
           | Inr (Some (JStr s)) \<Rightarrow> Inr (trim s)
           | Inr _ \<Rightarrow> Inl TypeError))"

definition callQwen :: "string \<Rightarrow> string prog" where
  "callQwen prompt w =
     (let w' = w\<lparr>requests := requests w @ [prompt]\<rparr>
      in case service w (length (requests w)) of
           Unreachable \<Rightarrow> throw FetchFailed w'
         | Response ok body \<Rightarrow>
             if \<not> ok then throw (OllamaError (utf8 body)) w'
             else lift (response_text body) w')"

definition configPath :: "path \<Rightarrow> path" where
  "configPath projectDir = path_join projectDir [''.specai'', ''config.json'']"

definition loadConfig :: "path \<Rightarrow> json prog" where
  "loadConfig projectDir =
     fs_read (\<lambda>f. case readFileSync f (configPath projectDir) of
                     Inl e \<Rightarrow> Inl e | Inr c \<Rightarrow> JSON_parse c)"

text \<open>\<open>ask\<close> prints the question and resolves with the next line, trimmed.\<close>

definition question :: "string \<Rightarrow> string prog" where
  "question q w =
     (let w' = w\<lparr>console := console w @ [Ask q]\<rparr>
      in case stdin w of
           [] \<Rightarrow> (Inl InputClosed, w')
         | l # ls \<Rightarrow> (Inr l, w'\<lparr>stdin := ls\<rparr>))"

definition ask :: "string \<Rightarrow> string prog" where
  "ask q = bnd (question q) (\<lambda>answer. ret (trim answer))"

text \<open>\<open>choose\<close> of the source (the name is taken by the binomial coefficient).\<close>

definition choose_menu :: "string \<Rightarrow> string list \<Rightarrow> int prog" where
  "choose_menu prompt options =
     thn (console_log prompt)
    (thn (emit (map (\<lambda>i. Log (decimal (i + 1) @ '') '' @ options ! i)) [0..<length options]))
    (bnd (ask ''> '') (\<lambda>answer.
       ret (case parseInt answer of None \<Rightarrow> - 1 | Some idx \<Rightarrow> idx - 1))))"

definition find_pathArg :: "string list \<Rightarrow> string option" where
  "find_pathArg args = find (\<lambda>a. \<not> startsWith a ''--'') args"

definition resolveProjectDir :: "path \<Rightarrow> string list \<Rightarrow> path" where
  "resolveProjectDir here args =
     (case find_pathArg args of
        None \<Rightarrow> here
      | Some pathArg \<Rightarrow> if pathArg = [] then here else path_resolve here pathArg)"

definition ensureDir :: "path \<Rightarrow> unit prog" where
  "ensureDir dirPath w =
     (if \<not> existsSync (fs w) dirPath then fs_write (\<lambda>f. mkdirSync f dirPath) w
      else ret () w)"

definition writeFileSafe :: "path \<Rightarrow> content \<Rightarrow> bool \<Rightarrow> unit prog" where
  "writeFileSafe filePath c force w =
     (if existsSync (fs w) filePath \<and> \<not> force then throw (FileAlreadyExists filePath) w
      else fs_write (\<lambda>f. writeFileSync f filePath c) w)"

subsection \<open>\<open>init\<close> and \<open>status\<close>\<close>

definition default_config :: "string \<Rightarrow> string \<Rightarrow> json" where
  "default_config projectName projectDescription =
     JObj [(''project'', JObj [(''name'', JStr projectName),
                              (''description'', JStr projectDescription)]),
           (''models'', JObj [(''planner'', JStr ''qwen2.5:7b''),
                             (''coder'', JStr ''deepseek-coder:6.7b'')])]"

definition scaffold :: string where
  "scaffold =
     ''# Constitution\<newline>\<newline>'' @
     ''This document defines the governing assumptions, constraints, and worldview\<newline>'' @
     ''for the project.\<newline>\<newline>'' @
     ''It is expected to evolve before being approved and locked.\<newline>''"

definition default_state :: json where
  "default_state =
     JObj [(''phase'', JStr ''constitution''),
           (''approved'', JObj [(''constitution'', JBool False),
                               (''spec'', JBool False),
                               (''plan'', JBool False),
                               (''tasks'', JBool False)])]"

definition constitutionPath :: "path \<Rightarrow> path" where
  "constitutionPath projectDir = path_join projectDir [''specai'', ''constitution.md'']"

text \<open>
  \<open>git init\<close> in the target directory either leaves a \<open>.git\<close> directory there or fails, and
  the failure is caught.
\<close>

definition git_init :: "path \<Rightarrow> unit prog" where
  "git_init targetDir w =
     (if git_ok w
      then (Inr (), w\<lparr>fs := (fs w)(path_join targetDir [''.git''] \<mapsto> Dir),
                      console := console w @ [Log ''Git repository initialized.'']\<rparr>)
      else console_warn ''Git initialization failed.'' w)"

definition no_target :: "unit prog" where
  "no_target =
     thn (console_error (''Please specify a target directory or use '' @ [CHR 0x27, CHR ''.'', CHR 0x27]))
         (process_exit 1)"

text \<open>
  \<open>handleInit\<close> in three parts: the target directory, the check against an existing
  project, and the steps after the check (the two questions, the directories, the three
  files, git).
\<close>

definition init_steps :: "path \<Rightarrow> bool \<Rightarrow> bool \<Rightarrow> bool \<Rightarrow> unit prog" where
  "init_steps targetDir exists force noGit =
     bnd (if exists then ask ''Project name: ''
          else ret (path_basename targetDir)) (\<lambda>projectName.
     bnd (ask ''Brief project description (used as global context): '')
       (\<lambda>projectDescription.
     thn (emit [Log ''\<newline>Models configured:'',
                Log ''- Qwen (planner / reasoning)'',
                Log ''- DeepSeek Coder (code generation)\<newline>''])
    (thn (ensureDir (path_join targetDir [''specai'']))
    (thn (ensureDir (path_join targetDir [''.specai'']))
    (thn (writeFileSafe (path_join (path_join targetDir [''.specai'']) [''config.json''])
            (JSON_stringify (default_config projectName projectDescription)) force)
    (thn (writeFileSafe (path_join (path_join targetDir [''specai'']) [''constitution.md''])
            (Text scaffold) force)
    (thn (writeFileSafe (path_join (path_join targetDir [''specai'']) [''state.json''])
            (JSON_stringify default_state) force)
    (thn (\<lambda>w. if \<not> noGit \<and> \<not> existsSync (fs w) (path_join targetDir [''.git''])
              then git_init targetDir w else ret () w)
         (console_log ''\<newline>SpecAI project initialized.'')))))))))"

definition init_gate :: "path \<Rightarrow> bool \<Rightarrow> bool \<Rightarrow> bool \<Rightarrow> unit prog" where
  "init_gate targetDir exists force noGit w =
     (if (existsSync (fs w) (path_join targetDir [''specai'']) \<or>
          existsSync (fs w) (path_join targetDir [''.specai''])) \<and> \<not> force
      then thn (console_error ''SpecAI already initialized here.'')
          (thn (console_error ''Use --force to overwrite.'')
               (process_exit 1)) w
      else init_steps targetDir exists force noGit w)"

definition handleInit :: "string list \<Rightarrow> unit prog" where
  "handleInit args =
     thn printHeader (\<lambda>w.
       let flags = filter (\<lambda>a. startsWith a ''--'') args;
           force = (''--force'' \<in> set flags);
           noGit = (''--no-git'' \<in> set flags)
       in case find_pathArg args of
            None \<Rightarrow> no_target w
          | Some pathArg \<Rightarrow>
              if pathArg = [] then no_target w
              else
                let targetDir = path_resolve (cwd w) pathArg;
                    exists = existsSync (fs w) targetDir
                in thn (if \<not> exists
                        then thn (fs_write (\<lambda>f. mkdirSync f targetDir))
                                 (console_log (''Created project folder: '' @
                                               path_basename targetDir))
                        else ret ())
                       (init_gate targetDir exists force noGit) w)"

definition handleStatus :: "unit prog" where
  "handleStatus =
     thn printHeader (\<lambda>w.
       if existsSync (fs w) (path_join (cwd w) [''specai'']) \<and>
          existsSync (fs w) (path_join (cwd w) [''.specai''])
       then console_log ''SpecAI is initialized in this directory.'' w
       else console_log ''SpecAI not initialized in this directory.'' w)"

subsection \<open>\<open>constitution\<close>\<close>

definition approved_constitution :: "json \<Rightarrow> exn + json option" where
  "approved_constitution state =
     (case js_get (Some state) ''approved'' of
        Inl e \<Rightarrow> Inl e
      | Inr approved \<Rightarrow> js_get approved ''constitution'')"

definition project_fields :: "json \<Rightarrow> exn + string \<times> string" where
  "project_fields config =
     (case js_get (Some config) ''project'' of
        Inl e \<Rightarrow> Inl e
      | Inr project \<Rightarrow>
          (case js_get project ''name'' of
             Inl e \<Rightarrow> Inl e
           | Inr name \<Rightarrow>
               (case js_get project ''description'' of
                  Inl e \<Rightarrow> Inl e
                | Inr description \<Rightarrow> Inr (js_String name, js_String description))))"

definition summaryPrompt :: "string \<times> string \<Rightarrow> string \<Rightarrow> string" where
  "summaryPrompt project currentText =
     ''\<newline>Project: '' @ fst project @ ''\<newline>Description: '' @ snd project @
     ''\<newline>\<newline>Constitution:\<newline>---\<newline>'' @ currentText @ ''\<newline>---\<newline>\<newline>'' @
     ''Summarize the constitution at a high level in 5 bullet points.\<newline>'' @
     ''If information is missing, say what is missing.\<newline>''"

definition proposalPrompt :: "string \<Rightarrow> string" where
  "proposalPrompt input =
     ''\<newline>Convert the following into a clear '' @ [CHR 0x27] @ ''System Overview'' @ [CHR 0x27] @
     '' section for a constitution.\<newline>Write concise markdown.\<newline>\<newline>Input:\<newline>'' @
     input @ ''\<newline>''"

definition questionsPrompt :: "string \<times> string \<Rightarrow> string \<Rightarrow> string" where
  "questionsPrompt project currentText =
     ''\<newline>Project: '' @ fst project @ ''\<newline>Description: '' @ snd project @
     ''\<newline>\<newline>Constitution:\<newline>---\<newline>'' @ currentText @ ''\<newline>---\<newline>\<newline>'' @
     ''Ask up to 5 clarifying questions needed to better understand the system.\<newline>'' @
     ''Questions only.\<newline>''"

definition appended :: "string \<Rightarrow> string \<Rightarrow> string" where
  "appended currentText s = trim currentText @ ''\<newline>\<newline>'' @ s @ ''\<newline>''"

text \<open>The three blocks \<open>if (choice === 0)\<close>, \<open>if (choice === 1)\<close> and \<open>if (choice === 2)\<close>.\<close>

definition overview_action :: "path \<Rightarrow> string \<Rightarrow> unit prog" where
  "overview_action docPath currentText =
     bnd (ask ''\<newline>Describe the system at a high level:\<newline>'') (\<lambda>input.
     bnd (callQwen (proposalPrompt input)) (\<lambda>section.
     thn (emit [Log ''\<newline>--- Proposed Section ---\<newline>'', Log section,
                Log ''\<newline>------------------------\<newline>''])
    (bnd (ask ''Apply this section? (y/n): '') (\<lambda>answer.
       if toLowerCase answer = ''y''
       then thn (fs_write (\<lambda>f. writeFileSync f docPath (Text (appended currentText section))))
                (console_log ''Applied.'')
       else console_log ''Discarded.''))))"

definition questions_action :: "string \<times> string \<Rightarrow> string \<Rightarrow> unit prog" where
  "questions_action project currentText =
     bnd (callQwen (questionsPrompt project currentText)) (\<lambda>questions.
     emit [Log ''\<newline>--- Clarifying Questions ---\<newline>'', Log questions,
           Log ''\<newline>----------------------------\<newline>'',
           Log ''Answer these by re-running `specai constitution` and choosing option 1 or 3.''])"

definition notes_action :: "path \<Rightarrow> string \<Rightarrow> unit prog" where
  "notes_action docPath currentText =
     bnd (ask ''\<newline>Enter notes/constraints to append:\<newline>'') (\<lambda>notes.
     bnd (ask ''Append these notes? (y/n): '') (\<lambda>answer.
       if toLowerCase answer = ''y''
       then thn (fs_write (\<lambda>f. writeFileSync f docPath (Text (appended currentText notes))))
                (console_log ''Notes appended.'')
       else console_log ''Discarded.''))"

definition menu :: "string list" where
  "menu = [''Add or clarify high-level system overview (I explain)'',
           ''Let AI ask me clarifying questions'',
           ''Append notes or constraints directly'',
           ''Exit'']"

definition edit_menu :: "path \<Rightarrow> string \<times> string \<Rightarrow> string \<Rightarrow> unit prog" where
  "edit_menu docPath project currentText =
     bnd (callQwen (summaryPrompt project currentText)) (\<lambda>summary.
     thn (emit [Log ''\<newline>=== Current Constitution Summary ===\<newline>'', Log summary,
                Log ''\<newline>===================================\<newline>''])
    (bnd (choose_menu ''What do you want to do next?'' menu) (\<lambda>choice.
     thn (if choice = 0 then overview_action docPath currentText else ret ())
    (thn (if choice = 1 then questions_action project currentText else ret ())
    (thn (if choice = 2 then notes_action docPath currentText else ret ())
         (if choice = 3 then console_log ''Exiting without changes.'' else ret ()))))))"

definition handleConstitution :: "string list \<Rightarrow> unit prog" where
  "handleConstitution args =
     thn printHeader (\<lambda>w.
       let projectDir = resolveProjectDir (cwd w) args
       in if \<not> existsSync (fs w) (statePath projectDir)
          then thn (console_error ''No SpecAI project found in target directory.'')
                   (process_exit 1) w
          else
            bnd (loadState projectDir) (\<lambda>state.
            bnd (lift (approved_constitution state)) (\<lambda>locked.
              if truthy locked
              then thn (console_error ''Constitution is locked.'')
                  (thn (console_error ''Use `specai unlock constitution <path>` to modify it.'')
                       (process_exit 1))
              else
                bnd (loadConfig projectDir) (\<lambda>config.
                bnd (fs_read (\<lambda>f. readFileSync f (constitutionPath projectDir))) (\<lambda>c.
                bnd (lift (project_fields config)) (\<lambda>project.
                  edit_menu (constitutionPath projectDir) project (utf8 c)))))) w)"

subsection \<open>\<open>approve\<close> and \<open>unlock\<close>\<close>

text \<open>\<open>state.approved.constitution = v\<close>, as the value \<open>state\<close> holds afterwards.\<close>

definition set_approved_constitution :: "json \<Rightarrow> bool \<Rightarrow> exn + json" where
  "set_approved_constitution state v =
     (case js_get (Some state) ''approved'' of
        Inl e \<Rightarrow> Inl e
      | Inr approved \<Rightarrow>
          (case js_set approved ''constitution'' (JBool v) of
             Inl e \<Rightarrow> Inl e
           | Inr approved' \<Rightarrow>
               (case state of
                  JObj kvs \<Rightarrow> Inr (JObj (AList.update ''approved'' approved' kvs))
                | _ \<Rightarrow> Inr state)))"

definition no_project :: "unit prog" where
  "no_project =
     thn (console_error ''No SpecAI project found in target directory.'')
    (thn (console_error ''Run `specai init` first.'')
         (process_exit 1))"

definition handleApproveConstitution :: "string list \<Rightarrow> unit prog" where
  "handleApproveConstitution args =
     thn printHeader (\<lambda>w.
       let projectDir = resolveProjectDir (cwd w) args
       in if \<not> existsSync (fs w) (statePath projectDir) then no_project w
          else
            bnd (loadState projectDir) (\<lambda>state.
            bnd (lift (set_approved_constitution state True)) (\<lambda>state'.
            thn (saveState projectDir state')
                (console_log ''Constitution approved and locked.''))) w)"

definition handleUnlockConstitution :: "string list \<Rightarrow> unit prog" where
  "handleUnlockConstitution args =
     thn printHeader (\<lambda>w.
       let projectDir = resolveProjectDir (cwd w) args
       in if \<not> existsSync (fs w) (statePath projectDir) then no_project w
          else
            bnd (loadState projectDir) (\<lambda>state.
            bnd (lift (set_approved_constitution state False)) (\<lambda>state'.
            thn (saveState projectDir state')
                (console_log ''Constitution unlocked.''))) w)"

subsection \<open>\<open>main\<close>\<close>

definition main :: "string list \<Rightarrow> unit prog" where
  "main args =
     (case args of
        [] \<Rightarrow> thn printHeader printHelp
      | command # rest \<Rightarrow>
          if command = [] \<or> command = ''help'' \<or> command = ''--help''
          then thn printHeader printHelp
          else if command = ''init'' then handleInit rest
          else if command = ''status'' then handleStatus
          else if command = ''constitution'' then handleConstitution rest
          else if command = ''approve''
          then (if rest \<noteq> [] \<and> hd rest = ''constitution''
                then handleApproveConstitution (tl rest)
                else console_error ''Unknown approve target.'')
          else if command = ''unlock''
          then (if rest \<noteq> [] \<and> hd rest = ''constitution''
                then handleUnlockConstitution (tl rest)
                else console_error ''Unknown unlock target.'')
          else thn printHeader
              (thn (console_error (''Unknown command: '' @ command))
              (thn printHelp (process_exit 1))))"

subsection \<open>The earlier draft of \<open>constitution\<close>\<close>

text \<open>
  The second copy of the program in \<open>index.ts\<close> differs in \<open>callQwen\<close> and
  \<open>handleConstitution\<close>. Its \<open>callQwen\<close> builds one command line, \<open>curl -s\<close> with the request
  body between single quotes, and hands it to \<open>/bin/sh\<close> through \<open>execSync\<close>; the output
  is parsed whatever it is, and the HTTP status is not looked at. \<open>JSON.stringify\<close> leaves
  a single quote of the prompt as it is, so the text of the prompt, and with it the text of
  the constitution, stands in the command line unprotected after its first single quote.
  What the shell makes of a command line is no part of this program: \<open>execSync\<close> is a
  parameter of the draft, a command that may fail, print anything and change anything.
\<close>

definition request_body :: "string \<Rightarrow> string" where
  "request_body prompt =
     ''{'' @ quote ''model'' @ '':'' @ quote ''qwen2.5:7b'' @ '','' @
     quote ''prompt'' @ '':'' @ quote prompt @ '','' @ quote ''stream'' @ '':false}''"

definition curl_command :: "string \<Rightarrow> string" where
  "curl_command prompt =
     ''curl -s http://127.0.0.1:11434/api/generate       -H '' @
     [CHR 0x22] @ ''Content-Type: application/json'' @ [CHR 0x22] @
     ''       -d '' @ [CHR 0x27] @ request_body prompt @ [CHR 0x27]"

definition callQwen2 :: "(string \<Rightarrow> content prog) \<Rightarrow> string \<Rightarrow> string prog" where
  "callQwen2 execSync prompt =
     bnd (execSync (curl_command prompt)) (\<lambda>response. lift (response_text response))"

definition improvePrompt :: "string \<Rightarrow> string" where
  "improvePrompt currentText =
     ''\<newline>You are helping refine a project constitution.\<newline>\<newline>'' @
     ''Current constitution:\<newline>---\<newline>'' @ currentText @ ''\<newline>---\<newline>\<newline>'' @
     ''Propose ONE small improvement or missing rule.\<newline>'' @
     ''Return only the proposed markdown section.\<newline>Do not explain.\<newline>''"

text \<open>
  The confirmation prompt of the draft, \<open>rl.question\<close> with its callback: the answer is
  read as typed, without \<open>trim\<close>.
\<close>

definition draft_confirm :: "path \<Rightarrow> string \<Rightarrow> string \<Rightarrow> unit prog" where
  "draft_confirm docPath currentText proposal =
     bnd (question ''Apply this change? (y/n): '') (\<lambda>answer.
       if toLowerCase answer = ''y''
       then thn (fs_write (\<lambda>f. writeFileSync f docPath (Text (appended currentText proposal))))
                (console_log ''Change applied.'')
       else console_log ''Change discarded.'')"

definition handleConstitution2 :: "(string \<Rightarrow> content prog) \<Rightarrow> string list \<Rightarrow> unit prog" where
  "handleConstitution2 execSync args =
     thn printHeader (\<lambda>w.
       let projectDir = resolveProjectDir (cwd w) args
       in if \<not> existsSync (fs w) (statePath projectDir) then no_project w
          else
            bnd (loadState projectDir) (\<lambda>state.
            bnd (lift (approved_constitution state)) (\<lambda>locked.
              if truthy locked
              then thn (console_error ''Constitution is locked.'')
                  (thn (console_error ''Use `specai unlock constitution` to modify it.'')
                       (process_exit 1))
              else
                bnd (fs_read (\<lambda>f. readFileSync f (constitutionPath projectDir))) (\<lambda>c.
                bnd (callQwen2 execSync (improvePrompt (utf8 c))) (\<lambda>proposal.
                thn (emit [Log ''\<newline>--- Proposed Change ---\<newline>'', Log proposal,
                           Log ''\<newline>-----------------------\<newline>''])
                    (draft_confirm (constitutionPath projectDir) (utf8 c) proposal))))) w)"

section \<open>Reading the project back\<close>

text \<open>The state record a project directory holds, and one flag of its \<open>approved\<close> map.\<close>

definition stored_state :: "filesystem \<Rightarrow> path \<Rightarrow> json option" where
  "stored_state f projectDir =
     (case f (statePath projectDir) of Some (File (Json state)) \<Rightarrow> Some state | _ \<Rightarrow> None)"

definition approved_flag :: "json \<Rightarrow> string \<Rightarrow> json option" where
  "approved_flag state phase =
     (case js_get (Some state) ''approved'' of
        Inl e \<Rightarrow> None
      | Inr approved \<Rightarrow> (case js_get approved phase of Inl e \<Rightarrow> None | Inr v \<Rightarrow> v))"

definition stored_flag :: "filesystem \<Rightarrow> path \<Rightarrow> string \<Rightarrow> json option" where
  "stored_flag f projectDir phase =
     (case stored_state f projectDir of None \<Rightarrow> None | Some state \<Rightarrow> approved_flag state phase)"

text \<open>
  The lifecycle of \<open>README.md\<close>, Constitution, Spec, Plan, Tasks, Implement, Review, in the
  spelling of the keys of the state record.
\<close>

definition lifecycle :: "string list" where
  "lifecycle = [''constitution'', ''spec'', ''plan'', ''tasks'', ''implement'', ''review'']"

text \<open>
  A project as the tool leaves it: the directory \<open>specai\<close> with a state record that is an
  object whose \<open>approved\<close> member is an object.
\<close>

definition state_record_ok :: "filesystem \<Rightarrow> path \<Rightarrow> bool" where
  "state_record_ok f projectDir =
     (f (path_join projectDir [''specai'']) = Some Dir \<and>
      (case stored_state f projectDir of
         Some (JObj kvs) \<Rightarrow> (case map_of kvs ''approved'' of Some (JObj a) \<Rightarrow> True | _ \<Rightarrow> False)
       | _ \<Rightarrow> False))"

section \<open>An example project\<close>

definition project_fs :: "json \<Rightarrow> string \<Rightarrow> filesystem" where
  "project_fs state doc =
     [[] \<mapsto> Dir, [''work''] \<mapsto> Dir,
      [''work'', ''specai''] \<mapsto> Dir, [''work'', ''.specai''] \<mapsto> Dir,
      [''work'', ''specai'', ''state.json''] \<mapsto> File (Json state),
      [''work'', ''.specai'', ''config.json''] \<mapsto> File (Json (default_config ''demo'' ''a demo'')),
      [''work'', ''specai'', ''constitution.md''] \<mapsto> File (Text doc)]"

definition project_world :: "json \<Rightarrow> string \<Rightarrow> string list \<Rightarrow> (nat \<Rightarrow> reply) \<Rightarrow> world" where
  "project_world state doc lines svc =
     \<lparr>fs = project_fs state doc, cwd = [''work''], stdin = lines, console = [],
      service = svc, requests = [], git_ok = True\<rparr>"

definition completion :: "string \<Rightarrow> reply" where
  "completion s = Response True (Json (JObj [(''response'', JStr s)]))"

definition locked_state :: json where
  "locked_state =
     JObj [(''phase'', JStr ''constitution''),
           (''approved'', JObj [(''constitution'', JBool True),
                               (''spec'', JBool False),
                               (''plan'', JBool False),
                               (''tasks'', JBool False)])]"


section \<open>Devices of the proofs\<close>

text \<open>A file that was there before a run is still there, with the same content.\<close>

definition untouched :: "path \<Rightarrow> world \<Rightarrow> world \<Rightarrow> bool" where
  "untouched q w w' = (is_file (fs w) q \<longrightarrow> fs w' q = fs w q)"

text \<open>\<open>handleApproveConstitution\<close> and \<open>handleUnlockConstitution\<close> are one program, up to the
  flag they set and the line they print.\<close>

definition set_flag_cmd :: "bool \<Rightarrow> string \<Rightarrow> string list \<Rightarrow> unit prog" where
  "set_flag_cmd v msg args =
     thn printHeader (\<lambda>w.
       let projectDir = resolveProjectDir (cwd w) args
       in if \<not> existsSync (fs w) (statePath projectDir) then no_project w
          else
            bnd (loadState projectDir) (\<lambda>state.
            bnd (lift (set_approved_constitution state v)) (\<lambda>state'.
            thn (saveState projectDir state')
                (console_log msg))) w)"

definition menu_tail :: "int \<Rightarrow> path \<Rightarrow> string \<times> string \<Rightarrow> string \<Rightarrow> unit prog" where
  "menu_tail choice docPath project currentText =
     thn (if choice = 0 then overview_action docPath currentText else ret ())
    (thn (if choice = 1 then questions_action project currentText else ret ())
    (thn (if choice = 2 then notes_action docPath currentText else ret ())
         (if choice = 3 then console_log ''Exiting without changes.'' else ret ())))"

text \<open>\<open>String.prototype.trimEnd\<close>, the trailing-whitespace normalisation the specification speaks of.\<close>

definition trimEnd :: "string \<Rightarrow> string" where
  "trimEnd s = rev (dropWhile is_space (rev s))"

text \<open>
  A project whose constitution can be edited: the directory \<open>specai\<close>, a state record whose
  \<open>approved.constitution\<close> reads as a falsy value, and a configuration with a \<open>project\<close>.
\<close>

definition editable :: "filesystem \<Rightarrow> path \<Rightarrow> bool" where
  "editable f projectDir =
     (f (path_join projectDir [''specai'']) = Some Dir \<and>
      (case stored_state f projectDir of
         None \<Rightarrow> False
       | Some state \<Rightarrow>
           (case approved_constitution state of Inl e \<Rightarrow> False | Inr v \<Rightarrow> \<not> truthy v)))"

definition config_ok :: "filesystem \<Rightarrow> path \<Rightarrow> bool" where
  "config_ok f projectDir =
     (case f (configPath projectDir) of
        Some (File (Json config)) \<Rightarrow>
          (case project_fields config of Inl e \<Rightarrow> False | Inr project \<Rightarrow> True)
      | _ \<Rightarrow> False)"

text \<open>The service answers a request with a completion that \<open>callQwen\<close> returns as \<open>s\<close>.\<close>

definition answers :: "reply \<Rightarrow> string \<Rightarrow> bool" where
  "answers r s =
     (case r of Unreachable \<Rightarrow> False | Response ok body \<Rightarrow> ok \<and> response_text body = Inr s)"

text \<open>
  The append of the specification's words: trailing white space trimmed from the existing
  content, one blank line, the new text, a final newline.
\<close>

definition spec_append :: "string \<Rightarrow> string \<Rightarrow> string" where
  "spec_append t s = trimEnd t @ ''\<newline>\<newline>'' @ s @ ''\<newline>''"

text \<open>
  What \<open>callQwen\<close> throws on a reply: the rejection of \<open>fetch\<close> when the service cannot be
  reached, the \<open>Ollama error\<close> with the text of the body when the response is not \<open>ok\<close>.
\<close>

definition generation_failure :: "reply \<Rightarrow> exn option" where
  "generation_failure r =
     (case r of
        Unreachable \<Rightarrow> Some FetchFailed
      | Response ok body \<Rightarrow> if ok then None else Some (OllamaError (utf8 body)))"

text \<open>A step that sends no request, and a step that leaves the file system alone.\<close>

definition quiet :: "'a prog \<Rightarrow> bool" where
  "quiet m = (\<forall>w. requests (snd (m w)) = requests w \<and> service (snd (m w)) = service w)"

definition keeps_fs :: "'a prog \<Rightarrow> bool" where
  "keeps_fs m = (\<forall>w. fs (snd (m w)) = fs w)"

text \<open>
  A program in which a failed request is fatal: the request that got the failing reply is
  the last one sent, the run ends with the exception of that failure, and the file system
  is as it was.
\<close>

definition fatal_on_failure :: "'a prog \<Rightarrow> bool" where
  "fatal_on_failure m =
     (\<forall>w. service (snd (m w)) = service w \<and>
          length (requests w) \<le> length (requests (snd (m w))) \<and>
          (\<forall>i e. length (requests w) \<le> i \<and> i < length (requests (snd (m w))) \<and>
                 generation_failure (service w i) = Some e \<longrightarrow>
                 fst (m w) = Inl (Uncaught e) \<and>
                 length (requests (snd (m w))) = Suc i \<and>
                 fs (snd (m w)) = fs w))"

section \<open>Properties\<close>

subsection \<open>Running a program\<close>

lemmas prog_defs = ret_def bnd_def thn_def throw_def process_exit_def lift_def emit_def
  console_log_def console_error_def console_warn_def fs_read_def fs_write_def

lemmas cmd_defs = printHeader_def printHelp_def loadState_def saveState_def callQwen_def
  callQwen2_def loadConfig_def question_def ask_def choose_menu_def no_project_def
  no_target_def ensureDir_def writeFileSafe_def git_init_def

lemmas fs_defs = existsSync_def is_file_def mkdirSync_def writeFileSync_def readFileSync_def
  path_join_def path_basename_def path_resolve_def resolve_step_def startsWith_def
  statePath_def configPath_def constitutionPath_def find_pathArg_def resolveProjectDir_def
  JSON_parse_def JSON_stringify_def utf8_def

lemmas example_defs = project_world_def project_fs_def completion_def locked_state_def
  default_state_def default_config_def

lemmas string_defs = trim_def is_space_def parseInt_def is_digit_def digits_value_def

lemma ancestors_simps:
  "ancestors [] = [[]]"
  "ancestors (x # xs) = [] # map ((#) x) (ancestors xs)"
  unfolding ancestors_def
  by (simp_all add: upt_rec [of 0] map_Suc_upt [symmetric] del: upt_Suc)

lemma bnd_Inr_iff:
  "bnd m k w = (Inr b, w') \<longleftrightarrow> (\<exists>a w1. m w = (Inr a, w1) \<and> k a w1 = (Inr b, w'))"
  by (auto simp: bnd_def split: prod.splits sum.splits)

lemma thn_Inr_iff:
  "thn m k w = (Inr b, w') \<longleftrightarrow> (\<exists>a w1. m w = (Inr a, w1) \<and> k w1 = (Inr b, w'))"
  by (simp add: thn_def bnd_Inr_iff)

lemma fs_write_Inr_iff:
  "fs_write g w = (Inr u, w') \<longleftrightarrow> (\<exists>f'. g (fs w) = Inr f' \<and> w' = w\<lparr>fs := f'\<rparr>)"
  by (auto simp: fs_write_def throw_def split: sum.splits)

lemma thn_printHeader:
  "thn printHeader k w =
     k (w\<lparr>console := console w @ [Log ''SpecAI - Spec-Driven AI Development Framework'']\<rparr>)"
  by (simp add: thn_def bnd_def printHeader_def console_log_def emit_def)

subsection \<open>Initialisation\<close>

lemma writeFileSafe_Inr:
  "writeFileSafe p c force w = (Inr u, w') \<Longrightarrow> fs w' = (fs w)(p \<mapsto> File c)"
  by (auto simp: writeFileSafe_def fs_write_Inr_iff throw_def writeFileSync_def split: if_splits)

lemma git_step_Inr:
  "(if b then git_init T w else ret () w) = (Inr u, w') \<Longrightarrow>
     fs w' = fs w \<or> fs w' = (fs w)(path_join T [''.git''] \<mapsto> Dir)"
  by (auto simp: git_init_def ret_def console_warn_def emit_def split: if_splits)

lemma console_log_fs: "console_log s w = (r, w') \<Longrightarrow> fs w' = fs w"
  by (auto simp: console_log_def emit_def)

lemma handleInit_unfold:
  assumes "find_pathArg args = Some p" "p \<noteq> []"
  shows "handleInit args w =
    thn (if \<not> existsSync (fs w) (path_resolve (cwd w) p)
         then thn (fs_write (\<lambda>f. mkdirSync f (path_resolve (cwd w) p)))
                  (console_log (''Created project folder: '' @
                                path_basename (path_resolve (cwd w) p)))
         else ret ())
        (init_gate (path_resolve (cwd w) p) (existsSync (fs w) (path_resolve (cwd w) p))
           (''--force'' \<in> set args) (''--no-git'' \<in> set args))
        (w\<lparr>console := console w @ [Log ''SpecAI - Spec-Driven AI Development Framework'']\<rparr>)"
  unfolding handleInit_def
  using assms
  by (simp add: thn_printHeader Let_def startsWith_def)

lemma init_steps_success:
  assumes "init_steps T ex force noGit w = (Inr u, w')"
  shows "fs w' (statePath T) = Some (File (Json default_state)) \<and>
         fs w' (constitutionPath T) = Some (File (Text scaffold)) \<and>
         (\<exists>n d. fs w' (configPath T) = Some (File (Json (default_config n d))))"
proof -
  from assms obtain n d wa wb wc wd
    where a: "writeFileSafe (configPath T) (Json (default_config n d)) force wa = (Inr (), wb)"
      and b: "writeFileSafe (constitutionPath T) (Text scaffold) force wb = (Inr (), wc)"
      and c: "writeFileSafe (statePath T) (Json default_state) force wc = (Inr (), wd)"
      and d: "fs w' = fs wd \<or> fs w' = (fs wd)(path_join T [''.git''] \<mapsto> Dir)"
    unfolding init_steps_def
    apply (simp only: bnd_Inr_iff thn_Inr_iff)
    apply (elim exE conjE)
    apply (drule git_step_Inr)
    apply (drule console_log_fs)
    apply (simp add: configPath_def constitutionPath_def statePath_def path_join_def
        JSON_stringify_def)
    done
  from a b c have fs: "fs wd = (fs wa)(configPath T \<mapsto> File (Json (default_config n d)),
        constitutionPath T \<mapsto> File (Text scaffold), statePath T \<mapsto> File (Json default_state))"
    by (simp add: writeFileSafe_Inr)
  have "fs w' (configPath T) = Some (File (Json (default_config n d)))"
    using d fs by (auto simp: statePath_def constitutionPath_def configPath_def path_join_def)
  moreover have "fs w' (statePath T) = Some (File (Json default_state))"
    using d fs by (auto simp: statePath_def path_join_def)
  moreover have "fs w' (constitutionPath T) = Some (File (Text scaffold))"
    using d fs by (auto simp: statePath_def constitutionPath_def path_join_def)
  ultimately show ?thesis by blast
qed

lemma init_gate_success:
  "init_gate T ex force noGit w = (Inr u, w') \<Longrightarrow> init_steps T ex force noGit w = (Inr u, w')"
  by (auto simp: init_gate_def thn_Inr_iff process_exit_def split: if_splits)

lemma handleInit_success:
  assumes "handleInit args w = (Inr u, w')"
  shows "\<exists>p. find_pathArg args = Some p \<and> p \<noteq> [] \<and>
           fs w' (statePath (path_resolve (cwd w) p)) = Some (File (Json default_state)) \<and>
           fs w' (constitutionPath (path_resolve (cwd w) p)) = Some (File (Text scaffold)) \<and>
           (\<exists>n d. fs w' (configPath (path_resolve (cwd w) p)) =
                     Some (File (Json (default_config n d))))"
proof -
  from assms obtain p where p: "find_pathArg args = Some p" "p \<noteq> []"
    unfolding handleInit_def
    by (auto simp: thn_printHeader thn_Inr_iff Let_def no_target_def process_exit_def
        split: option.splits if_splits)
  from assms obtain w1 where
    "init_gate (path_resolve (cwd w) p) (existsSync (fs w) (path_resolve (cwd w) p))
       (''--force'' \<in> set args) (''--no-git'' \<in> set args) w1 = (Inr u, w')"
    unfolding handleInit_unfold [OF p] by (auto simp: thn_Inr_iff)
  from init_steps_success [OF init_gate_success [OF this]] p show ?thesis by blast
qed

subsection \<open>What a run leaves alone\<close>

lemma untouched_fs: "fs w' = fs w \<Longrightarrow> untouched q w w'"
  by (simp add: untouched_def)

lemma untouched_trans: "untouched q a b \<Longrightarrow> untouched q b c \<Longrightarrow> untouched q a c"
  by (auto simp: untouched_def is_file_def)

lemma untouched_bnd:
  assumes "\<And>w. untouched q w (snd (m w))" "\<And>a w. untouched q w (snd (k a w))"
  shows "untouched q w (snd (bnd m k w))"
proof (cases "m w")
  case (Pair r w1)
  show ?thesis
  proof (cases r)
    case (Inl e)
    with Pair assms(1) [of w] show ?thesis by (simp add: bnd_def)
  next
    case (Inr a)
    with Pair assms(1) [of w] assms(2) [of w1 a] show ?thesis
      by (auto simp: bnd_def intro: untouched_trans)
  qed
qed

lemma untouched_thn:
  assumes "\<And>w. untouched q w (snd (m w))" "\<And>w. untouched q w (snd (k w))"
  shows "untouched q w (snd (thn m k w))"
  unfolding thn_def using assms by (intro untouched_bnd)

lemma ask_fs: "fs (snd (ask q w)) = fs w"
  by (simp add: ask_def question_def bnd_def ret_def Let_def split: list.splits)

lemma emit_fs: "fs (snd (emit ls w)) = fs w"
  by (simp add: emit_def)

lemma mkdir_keeps_files: "mkdirSync f p = Inr f' \<Longrightarrow> is_file f q \<Longrightarrow> f' q = f q"
  by (auto simp: mkdirSync_def split: if_splits)

lemma untouched_mkdir: "untouched q w (snd (fs_write (\<lambda>f. mkdirSync f p) w))"
  by (auto simp: untouched_def fs_write_def throw_def dest: mkdir_keeps_files split: sum.splits)

lemma untouched_ensureDir: "untouched q w (snd (ensureDir d w))"
  using untouched_mkdir [of q w d] by (simp add: ensureDir_def ret_def untouched_def)

lemma untouched_writeFileSafe:
  "q \<noteq> p \<or> \<not> force \<Longrightarrow> untouched q w (snd (writeFileSafe p c force w))"
  by (auto simp: untouched_def writeFileSafe_def throw_def fs_write_def writeFileSync_def
      is_file_def existsSync_def split: sum.splits option.splits)

lemma untouched_git:
  "untouched q w (snd ((if \<not> noGit \<and> \<not> existsSync (fs w) (path_join T [''.git''])
                       then git_init T w else ret () w)))"
  by (auto simp: untouched_def git_init_def ret_def console_warn_def emit_def is_file_def
      existsSync_def split: option.splits)

lemma untouched_init_steps:
  assumes "force \<longrightarrow> q \<noteq> configPath T \<and> q \<noteq> constitutionPath T \<and> q \<noteq> statePath T"
  shows "untouched q w (snd (init_steps T ex force noGit w))"
  unfolding init_steps_def
  apply (intro untouched_bnd untouched_thn untouched_ensureDir untouched_git
      untouched_writeFileSafe untouched_fs ask_fs emit_fs)
  using assms
  apply (auto simp: configPath_def constitutionPath_def statePath_def path_join_def ret_def
      console_log_def emit_def ask_fs)
  done


lemma untouched_init_gate:
  assumes "force \<longrightarrow> q \<noteq> configPath T \<and> q \<noteq> constitutionPath T \<and> q \<noteq> statePath T"
  shows "untouched q w (snd (init_gate T ex force noGit w))"
  using untouched_init_steps [OF assms]
  by (simp add: init_gate_def untouched_def thn_def bnd_def console_error_def emit_def
      process_exit_def)

lemma no_target_fs: "fs (snd (no_target w)) = fs w"
  by (simp add: no_target_def thn_def bnd_def console_error_def emit_def process_exit_def)

lemma untouched_handleInit:
  assumes "''--force'' \<in> set args \<longrightarrow>
           (\<forall>p. find_pathArg args = Some p \<longrightarrow>
              q \<noteq> configPath (path_resolve (cwd w) p) \<and>
              q \<noteq> constitutionPath (path_resolve (cwd w) p) \<and>
              q \<noteq> statePath (path_resolve (cwd w) p))"
  shows "untouched q w (snd (handleInit args w))"
proof (cases "find_pathArg args")
  case None
  then show ?thesis
    by (simp add: handleInit_def thn_printHeader Let_def no_target_fs untouched_def)
next
  case (Some p)
  show ?thesis
  proof (cases "p = []")
    case True
    with Some show ?thesis
      by (simp add: handleInit_def thn_printHeader Let_def no_target_fs untouched_def)
  next
    case False
    let ?w0 = "w\<lparr>console := console w @ [Log ''SpecAI - Spec-Driven AI Development Framework'']\<rparr>"
    have mk: "untouched q wa
        (snd ((if \<not> existsSync (fs w) (path_resolve (cwd w) p)
               then thn (fs_write (\<lambda>f. mkdirSync f (path_resolve (cwd w) p)))
                        (console_log (''Created project folder: '' @
                                      path_basename (path_resolve (cwd w) p)))
               else ret ()) wa))" for wa
    proof (cases "existsSync (fs w) (path_resolve (cwd w) p)")
      case True
      then show ?thesis by (simp add: ret_def untouched_def)
    next
      case False
      have "untouched q wa
        (snd (thn (fs_write (\<lambda>f. mkdirSync f (path_resolve (cwd w) p)))
                  (console_log (''Created project folder: '' @
                                path_basename (path_resolve (cwd w) p))) wa))"
        by (intro untouched_thn untouched_mkdir untouched_fs)
           (simp add: console_log_def emit_def)
      with False show ?thesis by simp
    qed
    have gate: "untouched q wa
        (snd (init_gate (path_resolve (cwd w) p) (existsSync (fs w) (path_resolve (cwd w) p))
               (''--force'' \<in> set args) (''--no-git'' \<in> set args) wa))" for wa
      by (rule untouched_init_gate) (use assms Some in simp)
    have "untouched q ?w0 (snd (handleInit args w))"
      unfolding handleInit_unfold [OF Some False]
      by (rule untouched_thn) (rule mk, rule gate)
    then show ?thesis by (simp add: untouched_def)
  qed
qed

subsection \<open>Approving and unlocking\<close>

lemma set_flag_cases:
  assumes "set_approved_constitution st v = Inr st'"
  obtains kvs a where "st = JObj kvs" "map_of kvs ''approved'' = Some (JObj a)"
      "st' = JObj (AList.update ''approved'' (JObj (AList.update ''constitution'' (JBool v) a)) kvs)"
    | kvs xs where "st = JObj kvs" "map_of kvs ''approved'' = Some (JArr xs)"
      "st' = JObj (AList.update ''approved'' (JArr xs) kvs)"
proof (cases st)
  case (JObj kvs)
  show ?thesis
  proof (cases "map_of kvs ''approved''")
    case None
    with JObj assms show ?thesis by (simp add: set_approved_constitution_def)
  next
    case (Some a)
    with JObj assms that show ?thesis
      by (cases a) (auto simp: set_approved_constitution_def)
  qed
qed (use assms in \<open>simp_all add: set_approved_constitution_def\<close>)

lemma set_flag_idem:
  assumes "set_approved_constitution st v = Inr st'"
  shows "set_approved_constitution st' v = Inr st'"
  using assms
  by (rule set_flag_cases) (simp_all add: set_approved_constitution_def update_conv')

lemma set_flag_reads:
  assumes "set_approved_constitution st v = Inr st'" "approved_constitution st = Inr (Some x)"
  shows "approved_constitution st' = Inr (Some (JBool v))"
  using assms(1)
proof (rule set_flag_cases)
  fix kvs a
  assume "st = JObj kvs" "map_of kvs ''approved'' = Some (JObj a)"
    "st' = JObj (AList.update ''approved'' (JObj (AList.update ''constitution'' (JBool v) a)) kvs)"
  then show ?thesis by (simp add: approved_constitution_def update_conv')
next
  fix kvs xs
  assume "st = JObj kvs" "map_of kvs ''approved'' = Some (JArr xs)"
  with assms(2) show ?thesis by (simp add: approved_constitution_def)
qed

lemma set_flag_locked:
  assumes "approved_constitution st = Inr (Some (JBool v))"
  shows "set_approved_constitution st v = Inr st"
proof (cases st)
  case (JObj kvs)
  show ?thesis
  proof (cases "map_of kvs ''approved''")
    case None
    with JObj assms show ?thesis by (simp add: approved_constitution_def)
  next
    case (Some a)
    with JObj assms show ?thesis
      by (cases a) (auto simp: set_approved_constitution_def approved_constitution_def update_triv)
  qed
qed (use assms in \<open>simp_all add: approved_constitution_def\<close>)


lemma stored_state_Some:
  "stored_state f P = Some st \<longleftrightarrow> f (statePath P) = Some (File (Json st))"
  by (auto simp: stored_state_def split: option.splits node.splits content.splits)

lemma statePath_butlast: "butlast (statePath P) = path_join P [''specai'']"
  by (simp add: statePath_def path_join_def butlast_append)

lemma bnd_Inr: "m w = (Inr a, w') \<Longrightarrow> bnd m k w = k a w'"
  by (simp add: bnd_def)

lemma bnd_Inl: "m w = (Inl e, w') \<Longrightarrow> bnd m k w = (Inl e, w')"
  by (simp add: bnd_def)

lemma thn_Inr: "m w = (Inr a, w') \<Longrightarrow> thn m k w = k w'"
  by (simp add: thn_def bnd_def)

lemma thn_Inl: "m w = (Inl e, w') \<Longrightarrow> thn m k w = (Inl e, w')"
  by (simp add: thn_def bnd_def)

lemma approve_set_flag:
  "handleApproveConstitution = set_flag_cmd True ''Constitution approved and locked.''"
  by (rule ext) (simp add: handleApproveConstitution_def set_flag_cmd_def)

lemma unlock_set_flag:
  "handleUnlockConstitution = set_flag_cmd False ''Constitution unlocked.''"
  by (rule ext) (simp add: handleUnlockConstitution_def set_flag_cmd_def)

lemma loadState_run:
  "loadState P w =
     (case fs w (statePath P) of
        Some (File (Json st)) \<Rightarrow> (Inr st, w)
      | Some (File (Text t)) \<Rightarrow> (Inl (Uncaught SyntaxError), w)
      | _ \<Rightarrow> (Inl (Uncaught ErrnoException), w))"
  by (simp add: loadState_def fs_read_def lift_def throw_def ret_def readFileSync_def JSON_parse_def
      split: option.splits node.splits content.splits)

lemma saveState_fs:
  "fs (snd (saveState P st w)) = fs w \<or>
   fs (snd (saveState P st w)) = (fs w)(statePath P \<mapsto> File (Json st))"
  by (simp add: saveState_def fs_write_def throw_def writeFileSync_def JSON_stringify_def)

lemma no_project_fs: "fs (snd (no_project w)) = fs w"
  by (simp add: no_project_def thn_def bnd_def console_error_def emit_def process_exit_def)

lemma set_flag_run:
  assumes "stored_state (fs w) (resolveProjectDir (cwd w) args) = Some st"
    and "set_approved_constitution st v = Inr st'"
    and "fs w (path_join (resolveProjectDir (cwd w) args) [''specai'']) = Some Dir"
  shows "set_flag_cmd v msg args w =
           (Inr (), w\<lparr>fs := (fs w)(statePath (resolveProjectDir (cwd w) args) \<mapsto> File (Json st')),
                      console := console w @
                        [Log ''SpecAI - Spec-Driven AI Development Framework'', Log msg]\<rparr>)"
proof -
  let ?P = "resolveProjectDir (cwd w) args"
  let ?w0 = "w\<lparr>console := console w @ [Log ''SpecAI - Spec-Driven AI Development Framework'']\<rparr>"
  have ne: "statePath ?P \<noteq> []"
    by (simp add: statePath_def path_join_def)
  from assms(1) have fl: "fs w (statePath ?P) = Some (File (Json st))"
    by (simp add: stored_state_Some)
  then have ex: "existsSync (fs w) (statePath ?P)"
    by (simp add: existsSync_def)
  from fl have load: "loadState ?P ?w0 = (Inr st, ?w0)"
    by (simp add: loadState_run)
  from assms(2) have lft: "lift (set_approved_constitution st v) ?w0 = (Inr st', ?w0)"
    by (simp add: lift_def ret_def)
  from fl assms(3) ne have save: "saveState ?P st' ?w0 =
      (Inr (), ?w0\<lparr>fs := (fs w)(statePath ?P \<mapsto> File (Json st'))\<rparr>)"
    by (simp add: saveState_def fs_write_def writeFileSync_def JSON_stringify_def
        statePath_butlast)
  show ?thesis
    unfolding set_flag_cmd_def thn_printHeader
    by (simp add: Let_def ex bnd_Inr [where m = "loadState ?P", OF load] bnd_Inr [where m = "lift (set_approved_constitution st v)", OF lft] thn_Inr [where m = "saveState ?P st'", OF save]
        console_log_def emit_def)
qed

lemma set_flag_effect:
  "fs (snd (set_flag_cmd v msg args w)) = fs w \<or>
   (\<exists>st st'. stored_state (fs w) (resolveProjectDir (cwd w) args) = Some st \<and>
      set_approved_constitution st v = Inr st' \<and>
      fs (snd (set_flag_cmd v msg args w)) =
        (fs w)(statePath (resolveProjectDir (cwd w) args) \<mapsto> File (Json st')))"
proof (cases "stored_state (fs w) (resolveProjectDir (cwd w) args)")
  case None
  let ?P = "resolveProjectDir (cwd w) args"
  let ?w0 = "w\<lparr>console := console w @ [Log ''SpecAI - Spec-Driven AI Development Framework'']\<rparr>"
  from None obtain e where load: "loadState ?P ?w0 = (Inl e, ?w0)"
    by (auto simp: loadState_run stored_state_def split: option.splits node.splits content.splits)
  have "fs (snd (set_flag_cmd v msg args w)) = fs w"
    unfolding set_flag_cmd_def thn_printHeader
    by (simp add: Let_def no_project_fs bnd_Inl [where m = "loadState ?P", OF load])
  then show ?thesis ..
next
  case (Some st)
  let ?P = "resolveProjectDir (cwd w) args"
  let ?w0 = "w\<lparr>console := console w @ [Log ''SpecAI - Spec-Driven AI Development Framework'']\<rparr>"
  from Some have fl: "fs w (statePath ?P) = Some (File (Json st))"
    by (simp add: stored_state_Some)
  then have ex: "existsSync (fs w) (statePath ?P)"
    by (simp add: existsSync_def)
  from fl have load: "loadState ?P ?w0 = (Inr st, ?w0)"
    by (simp add: loadState_run)
  show ?thesis
  proof (cases "set_approved_constitution st v")
    case (Inl e)
    then have lft: "lift (set_approved_constitution st v) ?w0 = (Inl (Uncaught e), ?w0)"
      by (simp add: lift_def throw_def)
    have "fs (snd (set_flag_cmd v msg args w)) = fs w"
      unfolding set_flag_cmd_def thn_printHeader
      by (simp add: Let_def ex bnd_Inr [where m = "loadState ?P", OF load] bnd_Inl [where m = "lift (set_approved_constitution st v)", OF lft])
    then show ?thesis ..
  next
    case (Inr st')
    then have lft: "lift (set_approved_constitution st v) ?w0 = (Inr st', ?w0)"
      by (simp add: lift_def ret_def)
    have "set_flag_cmd v msg args w = thn (saveState ?P st') (console_log msg) ?w0"
      unfolding set_flag_cmd_def thn_printHeader
      by (simp add: Let_def ex bnd_Inr [where m = "loadState ?P", OF load] bnd_Inr [where m = "lift (set_approved_constitution st v)", OF lft])
    then have eq: "fs (snd (set_flag_cmd v msg args w)) = fs (snd (saveState ?P st' ?w0))"
      by (simp add: thn_def bnd_def console_log_def emit_def split: prod.splits sum.splits)
    from saveState_fs [of ?P st' ?w0] show ?thesis
    proof
      assume "fs (snd (saveState ?P st' ?w0)) = fs ?w0"
      with eq have "fs (snd (set_flag_cmd v msg args w)) = fs w" by simp
      then show ?thesis ..
    next
      assume "fs (snd (saveState ?P st' ?w0)) = (fs ?w0)(statePath ?P \<mapsto> File (Json st'))"
      with eq have "fs (snd (set_flag_cmd v msg args w)) = (fs w)(statePath ?P \<mapsto> File (Json st'))"
        by simp
      with Some Inr show ?thesis by blast
    qed
  qed
qed

lemma state_record_okD:
  assumes "state_record_ok f P"
  obtains kvs a where "stored_state f P = Some (JObj kvs)" "map_of kvs ''approved'' = Some (JObj a)"
    "f (path_join P [''specai'']) = Some Dir"
proof -
  from assms have dir: "f (path_join P [''specai'']) = Some Dir"
    by (simp add: state_record_ok_def)
  from assms obtain st where st: "stored_state f P = Some st"
    by (cases "stored_state f P") (simp_all add: state_record_ok_def)
  with assms obtain kvs where kvs: "st = JObj kvs"
    by (cases st) (simp_all add: state_record_ok_def)
  with assms st obtain x where x: "map_of kvs ''approved'' = Some x"
    by (cases "map_of kvs ''approved''") (simp_all add: state_record_ok_def)
  with assms st kvs obtain a where "x = JObj a"
    by (cases x) (simp_all add: state_record_ok_def)
  with that dir st kvs x show ?thesis by simp
qed

lemma set_flag_ok:
  "map_of kvs ''approved'' = Some (JObj a) \<Longrightarrow>
   set_approved_constitution (JObj kvs) v =
     Inr (JObj (AList.update ''approved'' (JObj (AList.update ''constitution'' (JBool v) a)) kvs))"
  by (simp add: set_approved_constitution_def)

subsection \<open>The state record after \<open>init\<close>\<close>

lemma default_state_flags:
  "approved_flag default_state phase =
     (if phase \<in> {''constitution'', ''spec'', ''plan'', ''tasks''} then Some (JBool False)
      else None)"
  by (simp add: approved_flag_def default_state_def)

text \<open>
  C7, as the code has it. After every successful \<open>init\<close> the stored state record is the
  default one: its \<open>phase\<close> is \<open>constitution\<close>, and its \<open>approved\<close> map holds the four
  phases constitution, spec, plan and tasks, each with the flag \<open>false\<close>. The map has no
  entry for any other phase, so none for implement and review.
\<close>

theorem init_stores_default_state:
  assumes "handleInit args w = (Inr u, w')"
  shows "\<exists>p. find_pathArg args = Some p \<and>
           stored_state (fs w') (path_resolve (cwd w) p) = Some default_state \<and>
           js_get (Some default_state) ''phase'' = Inr (Some (JStr ''constitution'')) \<and>
           (\<forall>phase. stored_flag (fs w') (path_resolve (cwd w) p) phase =
              (if phase \<in> {''constitution'', ''spec'', ''plan'', ''tasks''}
               then Some (JBool False) else None))"
proof -
  from handleInit_success [OF assms] obtain p where
    p: "find_pathArg args = Some p"
    and st: "fs w' (statePath (path_resolve (cwd w) p)) = Some (File (Json default_state))"
    by blast
  from st have "stored_state (fs w') (path_resolve (cwd w) p) = Some default_state"
    by (simp add: stored_state_def)
  moreover have "js_get (Some default_state) ''phase'' = Inr (Some (JStr ''constitution''))"
    by (simp add: default_state_def)
  ultimately show ?thesis
    using p by (simp add: stored_flag_def default_state_flags)
qed

lemma example_init_run:
  "fst (handleInit [''new'', ''--no-git'']
          (project_world default_state scaffold [''a second project''] (\<lambda>n. Unreachable)))
     = Inr ()"
  by (simp add: handleInit_def init_gate_def init_steps_def prog_defs cmd_defs fs_defs
      example_defs Let_def ancestors_simps string_defs)

theorem init_stores_default_state_witness:
  "stored_state
     (fs (snd (handleInit [''new'', ''--no-git'']
                 (project_world default_state scaffold [''a second project'']
                    (\<lambda>n. Unreachable)))))
     [''work'', ''new''] = Some default_state"
proof -
  let ?w = "project_world default_state scaffold [''a second project''] (\<lambda>n. Unreachable)"
  have run: "handleInit [''new'', ''--no-git''] ?w =
               (Inr (), snd (handleInit [''new'', ''--no-git''] ?w))"
    using example_init_run by (simp add: prod_eq_iff)
  have arg: "find_pathArg [''new'', ''--no-git''] = Some ''new''"
    by (simp add: find_pathArg_def startsWith_def)
  have dir: "path_resolve (cwd ?w) ''new'' = [''work'', ''new'']"
    by (simp add: fs_defs example_defs)
  from init_stores_default_state [OF run] arg dir show ?thesis by auto
qed

theorem init_lifecycle_counterexample:
  "fst (handleInit [''new'', ''--no-git'']
          (project_world default_state scaffold [''a second project''] (\<lambda>n. Unreachable)))
     = Inr () \<and>
   ''implement'' \<in> set lifecycle \<and>
   stored_flag
     (fs (snd (handleInit [''new'', ''--no-git'']
                 (project_world default_state scaffold [''a second project'']
                    (\<lambda>n. Unreachable)))))
     [''work'', ''new''] ''implement'' \<noteq> Some (JBool False)"
  by (simp add: handleInit_def init_gate_def init_steps_def prog_defs cmd_defs fs_defs
      example_defs Let_def ancestors_simps string_defs lifecycle_def stored_flag_def
      stored_state_def approved_flag_def)

subsection \<open>Status\<close>

text \<open>
  C8, as the code has it. \<open>status\<close> prints the header and one line, and changes nothing
  else. The line says that the project is initialized exactly when both paths \<open>specai\<close> and
  \<open>.specai\<close> exist in the working directory, whatever they are: two directories are
  enough, and so are two plain files of those names. When either path is missing, the line
  says that the project is not initialized.
\<close>

theorem status_reports_initialized:
  "\<exists>hdr line.
     printHeader w = (Inr (), w\<lparr>console := console w @ [hdr]\<rparr>) \<and>
     handleStatus w = (Inr (), w\<lparr>console := console w @ [hdr, Log line]\<rparr>) \<and>
     (line = ''SpecAI is initialized in this directory.'' \<longleftrightarrow>
        fs w (path_join (cwd w) [''specai'']) \<noteq> None \<and>
        fs w (path_join (cwd w) [''.specai'']) \<noteq> None) \<and>
     (line = ''SpecAI not initialized in this directory.'' \<longleftrightarrow>
        fs w (path_join (cwd w) [''specai'']) = None \<or>
        fs w (path_join (cwd w) [''.specai'']) = None) \<and>
     (fs w (path_join (cwd w) [''specai'']) = Some Dir \<and>
      fs w (path_join (cwd w) [''.specai'']) = Some Dir \<longrightarrow>
        line = ''SpecAI is initialized in this directory.'')"
proof -
  let ?hdr = "Log ''SpecAI - Spec-Driven AI Development Framework''"
  have hdr: "printHeader w = (Inr (), w\<lparr>console := console w @ [?hdr]\<rparr>)"
    by (simp add: printHeader_def console_log_def emit_def)
  show ?thesis
  proof (cases "fs w (path_join (cwd w) [''specai'']) \<noteq> None \<and>
                fs w (path_join (cwd w) [''.specai'']) \<noteq> None")
    case True
    then have "handleStatus w =
         (Inr (), w\<lparr>console := console w @
                     [?hdr, Log ''SpecAI is initialized in this directory.'']\<rparr>)"
      by (simp add: handleStatus_def thn_printHeader console_log_def emit_def existsSync_def)
    with True hdr show ?thesis
      by (intro exI [of _ ?hdr] exI [of _ "''SpecAI is initialized in this directory.''"]) auto
  next
    case False
    then have "handleStatus w =
         (Inr (), w\<lparr>console := console w @
                     [?hdr, Log ''SpecAI not initialized in this directory.'']\<rparr>)"
      by (auto simp add: handleStatus_def thn_printHeader console_log_def emit_def existsSync_def)
    with False hdr show ?thesis
      by (intro exI [of _ ?hdr] exI [of _ "''SpecAI not initialized in this directory.''"]) auto
  qed
qed

theorem status_reports_initialized_witness:
  "last (console (snd (handleStatus
           (project_world default_state scaffold [] (\<lambda>n. Unreachable))))) =
     Log ''SpecAI is initialized in this directory.'' \<and>
   fs (snd (handleStatus (project_world default_state scaffold [] (\<lambda>n. Unreachable)))) =
     fs (project_world default_state scaffold [] (\<lambda>n. Unreachable))"
proof -
  let ?w = "project_world default_state scaffold [] (\<lambda>n. Unreachable)"
  have d1: "fs ?w (path_join (cwd ?w) [''specai'']) = Some Dir"
    by (simp add: fs_defs example_defs)
  have d2: "fs ?w (path_join (cwd ?w) [''.specai'']) = Some Dir"
    by (simp add: fs_defs example_defs)
  from status_reports_initialized [of ?w] obtain hdr where "\<exists>line.
     printHeader ?w = (Inr (), ?w\<lparr>console := console ?w @ [hdr]\<rparr>) \<and>
     handleStatus ?w = (Inr (), ?w\<lparr>console := console ?w @ [hdr, Log line]\<rparr>) \<and>
     (line = ''SpecAI is initialized in this directory.'' \<longleftrightarrow>
        fs ?w (path_join (cwd ?w) [''specai'']) \<noteq> None \<and>
        fs ?w (path_join (cwd ?w) [''.specai'']) \<noteq> None) \<and>
     (line = ''SpecAI not initialized in this directory.'' \<longleftrightarrow>
        fs ?w (path_join (cwd ?w) [''specai'']) = None \<or>
        fs ?w (path_join (cwd ?w) [''.specai'']) = None) \<and>
     (fs ?w (path_join (cwd ?w) [''specai'']) = Some Dir \<and>
      fs ?w (path_join (cwd ?w) [''.specai'']) = Some Dir \<longrightarrow>
        line = ''SpecAI is initialized in this directory.'')" ..
  then obtain line where all:
    "printHeader ?w = (Inr (), ?w\<lparr>console := console ?w @ [hdr]\<rparr>) \<and>
     handleStatus ?w = (Inr (), ?w\<lparr>console := console ?w @ [hdr, Log line]\<rparr>) \<and>
     (line = ''SpecAI is initialized in this directory.'' \<longleftrightarrow>
        fs ?w (path_join (cwd ?w) [''specai'']) \<noteq> None \<and>
        fs ?w (path_join (cwd ?w) [''.specai'']) \<noteq> None) \<and>
     (line = ''SpecAI not initialized in this directory.'' \<longleftrightarrow>
        fs ?w (path_join (cwd ?w) [''specai'']) = None \<or>
        fs ?w (path_join (cwd ?w) [''.specai'']) = None) \<and>
     (fs ?w (path_join (cwd ?w) [''specai'']) = Some Dir \<and>
      fs ?w (path_join (cwd ?w) [''.specai'']) = Some Dir \<longrightarrow>
        line = ''SpecAI is initialized in this directory.'')" ..
  note run = all [THEN conjunct2, THEN conjunct1]
  note dirs = all [THEN conjunct2, THEN conjunct2, THEN conjunct2, THEN conjunct2]
  from d1 d2 have "fs ?w (path_join (cwd ?w) [''specai'']) = Some Dir \<and>
      fs ?w (path_join (cwd ?w) [''.specai'']) = Some Dir" by (rule conjI)
  with dirs have line: "line = ''SpecAI is initialized in this directory.''" by (rule mp)
  have "console (snd (handleStatus ?w)) = console ?w @ [hdr, Log line]"
    unfolding run by simp
  then have a: "last (console (snd (handleStatus ?w))) =
      Log ''SpecAI is initialized in this directory.''"
    unfolding line by simp
  have b: "fs (snd (handleStatus ?w)) = fs ?w"
    unfolding run by simp
  from a b show ?thesis by (rule conjI)
qed

theorem status_plain_files_counterexample:
  "last (console (snd (handleStatus
           \<lparr>fs = [[] \<mapsto> Dir, [''work''] \<mapsto> Dir,
                  [''work'', ''specai''] \<mapsto> File (Text ''notes''),
                  [''work'', ''.specai''] \<mapsto> File (Text ''settings'')],
            cwd = [''work''], stdin = [], console = [], service = (\<lambda>n. Unreachable),
            requests = [], git_ok = True\<rparr>))) =
     Log ''SpecAI is initialized in this directory.'' \<and>
   [[] \<mapsto> Dir, [''work''] \<mapsto> Dir,
    [''work'', ''specai''] \<mapsto> File (Text ''notes''),
    [''work'', ''.specai''] \<mapsto> File (Text ''settings'')] [''work'', ''specai''] \<noteq> Some Dir \<and>
   [[] \<mapsto> Dir, [''work''] \<mapsto> Dir,
    [''work'', ''specai''] \<mapsto> File (Text ''notes''),
    [''work'', ''.specai''] \<mapsto> File (Text ''settings'')] [''work'', ''.specai''] \<noteq> Some Dir"
  by (simp add: handleStatus_def prog_defs cmd_defs fs_defs)

subsection \<open>The lock\<close>

lemma stored_flag_upd:
  assumes "approved_constitution st = Inr x"
  shows "stored_flag (f(statePath P \<mapsto> File (Json st))) P ''constitution'' = x"
  using assms
  by (auto simp: stored_flag_def stored_state_def approved_flag_def approved_constitution_def
      split: sum.splits)

lemma stored_flagD:
  assumes "stored_flag f P ''constitution'' = Some x"
  obtains st where "f (statePath P) = Some (File (Json st))"
    "approved_constitution st = Inr (Some x)"
proof -
  from assms obtain st where st: "stored_state f P = Some st"
    by (cases "stored_state f P") (simp_all add: stored_flag_def)
  with assms have fl: "approved_flag st ''constitution'' = Some x"
    by (simp add: stored_flag_def)
  then obtain a where a: "js_get (Some st) ''approved'' = Inr a"
    by (cases "js_get (Some st) ''approved''") (simp_all add: approved_flag_def)
  with fl have "js_get a ''constitution'' = Inr (Some x)"
    by (cases "js_get a ''constitution''") (simp_all add: approved_flag_def)
  with a have "approved_constitution st = Inr (Some x)"
    by (simp add: approved_constitution_def)
  with st that show ?thesis by (simp add: stored_state_Some)
qed

lemma locked_run:
  assumes "stored_flag (fs w) (resolveProjectDir (cwd w) args) ''constitution'' = Some x"
    and "truthy (Some x)"
  shows "handleConstitution args w =
           (Inl (Exit 1),
            w\<lparr>console := console w @
                [Log ''SpecAI - Spec-Driven AI Development Framework'',
                 Err ''Constitution is locked.'',
                 Err ''Use `specai unlock constitution <path>` to modify it.'']\<rparr>)"
proof -
  let ?P = "resolveProjectDir (cwd w) args"
  let ?w0 = "w\<lparr>console := console w @ [Log ''SpecAI - Spec-Driven AI Development Framework'']\<rparr>"
  from assms(1) obtain st where fl: "fs w (statePath ?P) = Some (File (Json st))"
    and ap: "approved_constitution st = Inr (Some x)"
    by (rule stored_flagD)
  from fl have ex: "existsSync (fs w) (statePath ?P)"
    by (simp add: existsSync_def)
  from fl have load: "loadState ?P ?w0 = (Inr st, ?w0)"
    by (simp add: loadState_run)
  from ap have lft: "lift (approved_constitution st) ?w0 = (Inr (Some x), ?w0)"
    by (simp add: lift_def ret_def)
  have "handleConstitution args w =
          thn (console_error ''Constitution is locked.'')
         (thn (console_error ''Use `specai unlock constitution <path>` to modify it.'')
              (process_exit 1)) ?w0"
    unfolding handleConstitution_def thn_printHeader
    by (simp add: Let_def ex bnd_Inr [where m = "loadState ?P", OF load]
        bnd_Inr [where m = "lift (approved_constitution st)", OF lft] assms(2))
  then show ?thesis
    by (simp add: thn_def bnd_def console_error_def emit_def process_exit_def)
qed

lemma locked_run2:
  assumes "stored_flag (fs w) (resolveProjectDir (cwd w) args) ''constitution'' = Some x"
    and "truthy (Some x)"
  shows "handleConstitution2 ex args w =
           (Inl (Exit 1),
            w\<lparr>console := console w @
                [Log ''SpecAI - Spec-Driven AI Development Framework'',
                 Err ''Constitution is locked.'',
                 Err ''Use `specai unlock constitution` to modify it.'']\<rparr>)"
proof -
  let ?P = "resolveProjectDir (cwd w) args"
  let ?w0 = "w\<lparr>console := console w @ [Log ''SpecAI - Spec-Driven AI Development Framework'']\<rparr>"
  from assms(1) obtain st where fl: "fs w (statePath ?P) = Some (File (Json st))"
    and ap: "approved_constitution st = Inr (Some x)"
    by (rule stored_flagD)
  from fl have ex: "existsSync (fs w) (statePath ?P)"
    by (simp add: existsSync_def)
  from fl have load: "loadState ?P ?w0 = (Inr st, ?w0)"
    by (simp add: loadState_run)
  from ap have lft: "lift (approved_constitution st) ?w0 = (Inr (Some x), ?w0)"
    by (simp add: lift_def ret_def)
  have "handleConstitution2 ex args w =
          thn (console_error ''Constitution is locked.'')
         (thn (console_error ''Use `specai unlock constitution` to modify it.'')
              (process_exit 1)) ?w0"
    unfolding handleConstitution2_def thn_printHeader
    by (simp add: Let_def ex bnd_Inr [where m = "loadState ?P", OF load]
        bnd_Inr [where m = "lift (approved_constitution st)", OF lft] assms(2))
  then show ?thesis
    by (simp add: thn_def bnd_def console_error_def emit_def process_exit_def)
qed

lemma set_flag_twice:
  assumes "state_record_ok (fs w) (resolveProjectDir (cwd w) args)"
  shows "fst (set_flag_cmd v msg args w) = Inr () \<and>
         fst (set_flag_cmd v msg args (snd (set_flag_cmd v msg args w))) = Inr () \<and>
         fs (snd (set_flag_cmd v msg args (snd (set_flag_cmd v msg args w)))) =
           fs (snd (set_flag_cmd v msg args w)) \<and>
         stored_flag (fs (snd (set_flag_cmd v msg args w))) (resolveProjectDir (cwd w) args)
           ''constitution'' = Some (JBool v) \<and>
         state_record_ok (fs (snd (set_flag_cmd v msg args w))) (resolveProjectDir (cwd w) args)"
proof -
  let ?P = "resolveProjectDir (cwd w) args"
  from assms obtain kvs a where
    st: "stored_state (fs w) ?P = Some (JObj kvs)"
    and ap: "map_of kvs ''approved'' = Some (JObj a)"
    and dir: "fs w (path_join ?P [''specai'']) = Some Dir"
    by (rule state_record_okD)
  let ?a' = "AList.update ''constitution'' (JBool v) a"
  let ?kvs' = "AList.update ''approved'' (JObj ?a') kvs"
  let ?st' = "JObj ?kvs'"
  have set1: "set_approved_constitution (JObj kvs) v = Inr ?st'"
    using ap by (rule set_flag_ok)
  let ?w1 = "w\<lparr>fs := (fs w)(statePath ?P \<mapsto> File (Json ?st')),
                console := console w @
                  [Log ''SpecAI - Spec-Driven AI Development Framework'', Log msg]\<rparr>"
  have run1: "set_flag_cmd v msg args w = (Inr (), ?w1)"
    using st set1 dir by (rule set_flag_run)
  have P1: "resolveProjectDir (cwd ?w1) args = ?P" by simp
  have st1: "stored_state (fs ?w1) (resolveProjectDir (cwd ?w1) args) = Some ?st'"
    by (simp add: stored_state_Some)
  have set2: "set_approved_constitution ?st' v = Inr ?st'"
    using set1 by (rule set_flag_idem)
  have dir1: "fs ?w1 (path_join (resolveProjectDir (cwd ?w1) args) [''specai'']) = Some Dir"
    using dir by (simp add: statePath_def path_join_def)
  have run2: "set_flag_cmd v msg args ?w1 =
      (Inr (), ?w1\<lparr>fs := (fs ?w1)(statePath (resolveProjectDir (cwd ?w1) args) \<mapsto> File (Json ?st')),
                console := console ?w1 @
                  [Log ''SpecAI - Spec-Driven AI Development Framework'', Log msg]\<rparr>)"
    using st1 set2 dir1 by (rule set_flag_run)
  have rd: "approved_constitution ?st' = Inr (Some (JBool v))"
    by (simp add: approved_constitution_def update_conv')
  have flag: "stored_flag (fs ?w1) ?P ''constitution'' = Some (JBool v)"
    using stored_flag_upd [OF rd] by simp
  have ok1: "state_record_ok (fs ?w1) ?P"
    using dir1 by (simp add: state_record_ok_def stored_state_def update_conv')
  show ?thesis
    unfolding run1 using run2 flag ok1 by simp
qed

text \<open>
  C6, as the code has it. Where the project's state record exists as the tool writes it (an
  object whose \<open>approved\<close> member is an object, in the directory \<open>specai\<close>),
  \<open>approve constitution\<close> and \<open>unlock constitution\<close> succeed, approve leaves the flag \<open>true\<close>
  and unlock leaves it \<open>false\<close>, and running either a second time succeeds again and leaves
  the file system as the first run left it. A state record of another shape does not do:
  on the record \<open>{}\<close> both commands end with a \<open>TypeError\<close>.
\<close>

theorem approve_unlock_idempotent:
  assumes "state_record_ok (fs w) (resolveProjectDir (cwd w) args)"
  shows "fst (handleApproveConstitution args w) = Inr () \<and>
         stored_flag (fs (snd (handleApproveConstitution args w)))
           (resolveProjectDir (cwd w) args) ''constitution'' = Some (JBool True) \<and>
         fst (handleApproveConstitution args (snd (handleApproveConstitution args w))) = Inr () \<and>
         fs (snd (handleApproveConstitution args (snd (handleApproveConstitution args w)))) =
           fs (snd (handleApproveConstitution args w)) \<and>
         fst (handleUnlockConstitution args w) = Inr () \<and>
         stored_flag (fs (snd (handleUnlockConstitution args w)))
           (resolveProjectDir (cwd w) args) ''constitution'' = Some (JBool False) \<and>
         fst (handleUnlockConstitution args (snd (handleUnlockConstitution args w))) = Inr () \<and>
         fs (snd (handleUnlockConstitution args (snd (handleUnlockConstitution args w)))) =
           fs (snd (handleUnlockConstitution args w))"
  using set_flag_twice [OF assms, of True "''Constitution approved and locked.''"]
    set_flag_twice [OF assms, of False "''Constitution unlocked.''"]
  by (simp add: approve_set_flag unlock_set_flag)

lemma example_ok:
  "state_record_ok (fs (project_world default_state scaffold [] (\<lambda>n. Unreachable)))
     (resolveProjectDir (cwd (project_world default_state scaffold [] (\<lambda>n. Unreachable))) [])"
  by (simp add: state_record_ok_def stored_state_def fs_defs example_defs)

theorem approve_unlock_idempotent_witness:
  "state_record_ok (fs (project_world default_state scaffold [] (\<lambda>n. Unreachable))) [''work''] \<and>
   stored_flag
     (fs (snd (handleApproveConstitution []
                 (project_world default_state scaffold [] (\<lambda>n. Unreachable)))))
     [''work''] ''constitution'' = Some (JBool True) \<and>
   fs (snd (handleApproveConstitution []
              (snd (handleApproveConstitution []
                      (project_world default_state scaffold [] (\<lambda>n. Unreachable)))))) =
   fs (snd (handleApproveConstitution []
              (project_world default_state scaffold [] (\<lambda>n. Unreachable))))"
proof -
  let ?w = "project_world default_state scaffold [] (\<lambda>n. Unreachable)"
  have P: "resolveProjectDir (cwd ?w) [] = [''work'']"
    by (simp add: fs_defs example_defs)
  from approve_unlock_idempotent [OF example_ok] example_ok show ?thesis
    unfolding P by simp
qed

theorem approve_malformed_record_counterexample:
  "existsSync (fs (project_world (JObj []) scaffold [] (\<lambda>n. Unreachable)))
     (statePath (resolveProjectDir (cwd (project_world (JObj []) scaffold [] (\<lambda>n. Unreachable))) [])) \<and>
   stored_state (fs (project_world (JObj []) scaffold [] (\<lambda>n. Unreachable))) [''work''] =
     Some (JObj []) \<and>
   fst (handleApproveConstitution [] (project_world (JObj []) scaffold [] (\<lambda>n. Unreachable))) =
     Inl (Uncaught TypeError) \<and>
   fst (handleUnlockConstitution [] (project_world (JObj []) scaffold [] (\<lambda>n. Unreachable))) =
     Inl (Uncaught TypeError) \<and>
   exit_code (Uncaught TypeError) = 1"
  by (simp add: handleApproveConstitution_def handleUnlockConstitution_def
      set_approved_constitution_def stored_state_def prog_defs cmd_defs fs_defs example_defs
      Let_def)

subsection \<open>Editing the constitution\<close>

lemma callQwen_snd: "snd (callQwen p w) = w\<lparr>requests := requests w @ [p]\<rparr>"
  by (simp add: callQwen_def Let_def throw_def lift_def ret_def split: reply.splits sum.splits)

lemma ask_run:
  "ask q w =
     (case stdin w of
        [] \<Rightarrow> (Inl InputClosed, w\<lparr>console := console w @ [Ask q]\<rparr>)
      | l # ls \<Rightarrow> (Inr (trim l), w\<lparr>console := console w @ [Ask q], stdin := ls\<rparr>))"
  by (simp add: ask_def question_def bnd_def ret_def Let_def split: list.splits)

lemma choose_menu_run:
  "choose_menu pr opts w =
     (case stdin w of
        [] \<Rightarrow> (Inl InputClosed,
               w\<lparr>console := console w @ Log pr #
                    map (\<lambda>i. Log (decimal (i + 1) @ '') '' @ opts ! i)) [0..<length opts] @
                    [Ask ''> '']\<rparr>)
      | l # ls \<Rightarrow> (Inr (case parseInt (trim l) of None \<Rightarrow> - 1 | Some idx \<Rightarrow> idx - 1),
               w\<lparr>console := console w @ Log pr #
                    map (\<lambda>i. Log (decimal (i + 1) @ '') '' @ opts ! i)) [0..<length opts] @
                    [Ask ''> ''], stdin := ls\<rparr>))"
  by (simp add: choose_menu_def ask_run thn_def bnd_def ret_def console_log_def emit_def
      split: list.splits)

lemma write_doc_fs:
  "fs (snd (thn (fs_write (\<lambda>f. writeFileSync f D c)) (console_log msg) w)) = fs w \<or>
   (thn (fs_write (\<lambda>f. writeFileSync f D c)) (console_log msg) w =
      (Inr (), w\<lparr>fs := (fs w)(D \<mapsto> File c), console := console w @ [Log msg]\<rparr>))"
  by (simp add: thn_def bnd_def fs_write_def writeFileSync_def throw_def console_log_def emit_def)

lemma notes_effect:
  "fs (snd (notes_action D t w)) = fs w \<or>
   (\<exists>x a rest. stdin w = x # a # rest \<and> toLowerCase (trim a) = ''y'' \<and>
      fst (notes_action D t w) = Inr () \<and>
      fs (snd (notes_action D t w)) = (fs w)(D \<mapsto> File (Text (appended t (trim x)))))"
proof (cases "stdin w")
  case Nil
  then show ?thesis by (simp add: notes_action_def ask_run bnd_def)
next
  case (Cons x xs)
  note outer = this
  show ?thesis
  proof (cases xs)
    case Nil
    with outer show ?thesis by (simp add: notes_action_def ask_run bnd_def)
  next
    case (Cons a rest)
    let ?w2 = "w\<lparr>console := console w @ [Ask ''\<newline>Enter notes/constraints to append:\<newline>'',
                   Ask ''Append these notes? (y/n): ''], stdin := rest\<rparr>"
    show ?thesis
    proof (cases "toLowerCase (trim a) = ''y''")
      case False
      with outer Cons show ?thesis
        by (simp add: notes_action_def ask_run bnd_def console_log_def emit_def)
    next
      case True
      with outer Cons have run: "notes_action D t w =
          thn (fs_write (\<lambda>f. writeFileSync f D (Text (appended t (trim x)))))
              (console_log ''Notes appended.'') ?w2"
        by (simp add: notes_action_def ask_run bnd_def)
      from write_doc_fs [of D "Text (appended t (trim x))" "''Notes appended.''" ?w2]
      show ?thesis
      proof
        assume "fs (snd (thn (fs_write (\<lambda>f. writeFileSync f D (Text (appended t (trim x)))))
                   (console_log ''Notes appended.'') ?w2)) = fs ?w2"
        with run show ?thesis by simp
      next
        assume "thn (fs_write (\<lambda>f. writeFileSync f D (Text (appended t (trim x)))))
                   (console_log ''Notes appended.'') ?w2 =
                (Inr (), ?w2\<lparr>fs := (fs ?w2)(D \<mapsto> File (Text (appended t (trim x)))),
                          console := console ?w2 @ [Log ''Notes appended.'']\<rparr>)"
        with run outer Cons True show ?thesis by simp
      qed
    qed
  qed
qed

lemma callQwen_pair: "callQwen p w = (fst (callQwen p w), w\<lparr>requests := requests w @ [p]\<rparr>)"
  by (simp add: prod_eq_iff callQwen_snd)

lemma overview_effect:
  "fs (snd (overview_action D t w)) = fs w \<or>
   (\<exists>x a rest s. stdin w = x # a # rest \<and> toLowerCase (trim a) = ''y'' \<and>
      fst (overview_action D t w) = Inr () \<and>
      fs (snd (overview_action D t w)) = (fs w)(D \<mapsto> File (Text (appended t s))))"
proof (cases "stdin w")
  case Nil
  then show ?thesis by (simp add: overview_action_def ask_run bnd_def)
next
  case (Cons x xs)
  note outer = this
  let ?w1 = "w\<lparr>console := console w @ [Ask ''\<newline>Describe the system at a high level:\<newline>''],
                 stdin := xs\<rparr>"
  let ?p = "proposalPrompt (trim x)"
  let ?w2 = "?w1\<lparr>requests := requests ?w1 @ [?p]\<rparr>"
  show ?thesis
  proof (cases "fst (callQwen ?p ?w1)")
    case (Inl e)
    with callQwen_pair [of ?p ?w1] have "callQwen ?p ?w1 = (Inl e, ?w2)" by simp
    with outer show ?thesis
      by (simp add: overview_action_def ask_run bnd_def)
  next
    case (Inr sec)
    with callQwen_pair [of ?p ?w1] have call: "callQwen ?p ?w1 = (Inr sec, ?w2)" by simp
    show ?thesis
    proof (cases xs)
      case Nil
      with outer call show ?thesis
        by (simp add: overview_action_def ask_run bnd_def thn_def emit_def)
    next
      case (Cons a rest)
      let ?w3 = "?w2\<lparr>console := console ?w2 @
                     [Log ''\<newline>--- Proposed Section ---\<newline>'', Log sec,
                      Log ''\<newline>------------------------\<newline>'',
                      Ask ''Apply this section? (y/n): ''], stdin := rest\<rparr>"
      show ?thesis
      proof (cases "toLowerCase (trim a) = ''y''")
        case False
        with outer call Cons show ?thesis
          by (simp add: overview_action_def ask_run bnd_def thn_def emit_def console_log_def)
      next
        case True
        with outer call Cons have run: "overview_action D t w =
            thn (fs_write (\<lambda>f. writeFileSync f D (Text (appended t sec))))
                (console_log ''Applied.'') ?w3"
          by (simp add: overview_action_def ask_run bnd_def thn_def emit_def)
        from write_doc_fs [of D "Text (appended t sec)" "''Applied.''" ?w3]
        show ?thesis
        proof
          assume "fs (snd (thn (fs_write (\<lambda>f. writeFileSync f D (Text (appended t sec))))
                     (console_log ''Applied.'') ?w3)) = fs ?w3"
          with run show ?thesis by simp
        next
          assume "thn (fs_write (\<lambda>f. writeFileSync f D (Text (appended t sec))))
                     (console_log ''Applied.'') ?w3 =
                  (Inr (), ?w3\<lparr>fs := (fs ?w3)(D \<mapsto> File (Text (appended t sec))),
                            console := console ?w3 @ [Log ''Applied.'']\<rparr>)"
          with run have "fst (overview_action D t w) = Inr ()"
            "fs (snd (overview_action D t w)) = (fs w)(D \<mapsto> File (Text (appended t sec)))"
            by simp_all
          moreover from outer Cons have "stdin w = x # a # rest" by simp
          ultimately show ?thesis using True by blast
        qed
      qed
    qed
  qed
qed

lemma questions_fs: "fs (snd (questions_action pr t w)) = fs w"
proof (cases "fst (callQwen (questionsPrompt pr t) w)")
  case (Inl e)
  with callQwen_pair [of "questionsPrompt pr t" w]
  have "callQwen (questionsPrompt pr t) w = (Inl e, w\<lparr>requests := requests w @ [questionsPrompt pr t]\<rparr>)"
    by simp
  then show ?thesis by (simp add: questions_action_def bnd_def)
next
  case (Inr q)
  with callQwen_pair [of "questionsPrompt pr t" w]
  have "callQwen (questionsPrompt pr t) w = (Inr q, w\<lparr>requests := requests w @ [questionsPrompt pr t]\<rparr>)"
    by simp
  then show ?thesis by (simp add: questions_action_def bnd_def emit_def)
qed

lemma thn_ret: "thn (ret a) k = k"
  by (rule ext) (simp add: thn_def bnd_def ret_def)

lemma thn_ret_unit: "thn m (ret ()) = (m :: unit prog)"
  by (rule ext) (simp add: thn_def bnd_def ret_def split: prod.splits sum.splits)

lemma menu_tail_cases:
  "menu_tail c D pr t =
     (if c = 0 then overview_action D t
      else if c = 1 then questions_action pr t
      else if c = 2 then notes_action D t
      else if c = 3 then console_log ''Exiting without changes.''
      else ret ())"
  by (simp add: menu_tail_def thn_ret thn_ret_unit)

lemma menu_tail_effect:
  "fs (snd (menu_tail c D pr t w)) = fs w \<or>
   (\<exists>x a rest s. stdin w = x # a # rest \<and> toLowerCase (trim a) = ''y'' \<and>
      fst (menu_tail c D pr t w) = Inr () \<and>
      fs (snd (menu_tail c D pr t w)) = (fs w)(D \<mapsto> File (Text (appended t s))))"
  using overview_effect [of D t w] notes_effect [of D t w] questions_fs [of pr t w]
  by (auto simp: menu_tail_cases console_log_def emit_def ret_def)

lemma edit_menu_unfold:
  "edit_menu D pr t =
     bnd (callQwen (summaryPrompt pr t)) (\<lambda>summary.
     thn (emit [Log ''\<newline>=== Current Constitution Summary ===\<newline>'', Log summary,
                Log ''\<newline>===================================\<newline>''])
    (bnd (choose_menu ''What do you want to do next?'' menu) (\<lambda>choice.
       menu_tail choice D pr t)))"
  by (simp add: edit_menu_def menu_tail_def)

lemma edit_menu_effect:
  "fs (snd (edit_menu D pr t w)) = fs w \<or>
   (\<exists>l x a rest s. stdin w = l # x # a # rest \<and> toLowerCase (trim a) = ''y'' \<and>
      fst (edit_menu D pr t w) = Inr () \<and>
      fs (snd (edit_menu D pr t w)) = (fs w)(D \<mapsto> File (Text (appended t s))))"
proof (cases "fst (callQwen (summaryPrompt pr t) w)")
  case (Inl e)
  with callQwen_pair [of "summaryPrompt pr t" w]
  have "callQwen (summaryPrompt pr t) w =
          (Inl e, w\<lparr>requests := requests w @ [summaryPrompt pr t]\<rparr>)" by simp
  then show ?thesis by (simp add: edit_menu_unfold bnd_def)
next
  case (Inr summary)
  let ?w1 = "w\<lparr>requests := requests w @ [summaryPrompt pr t]\<rparr>"
  from Inr callQwen_pair [of "summaryPrompt pr t" w]
  have call: "callQwen (summaryPrompt pr t) w = (Inr summary, ?w1)" by simp
  show ?thesis
  proof (cases "stdin w")
    case Nil
    with call show ?thesis
      by (simp add: edit_menu_unfold bnd_def thn_def emit_def choose_menu_run)
  next
    case (Cons l ls)
    let ?c = "case parseInt (trim l) of None \<Rightarrow> - 1 | Some idx \<Rightarrow> idx - 1"
    let ?w3 = "?w1\<lparr>console := console ?w1 @
                  [Log ''\<newline>=== Current Constitution Summary ===\<newline>'', Log summary,
                   Log ''\<newline>===================================\<newline>''] @
                  Log ''What do you want to do next?'' #
                  map (\<lambda>i. Log (decimal (i + 1) @ '') '' @ menu ! i)) [0..<length menu] @
                  [Ask ''> ''], stdin := ls\<rparr>"
    from call Cons have run: "edit_menu D pr t w = menu_tail ?c D pr t ?w3"
      by (simp add: edit_menu_unfold bnd_def thn_def emit_def choose_menu_run)
    from menu_tail_effect [of ?c D pr t ?w3] show ?thesis
    proof
      assume "fs (snd (menu_tail ?c D pr t ?w3)) = fs ?w3"
      with run show ?thesis by simp
    next
      assume "\<exists>x a rest s. stdin ?w3 = x # a # rest \<and> toLowerCase (trim a) = ''y'' \<and>
        fst (menu_tail ?c D pr t ?w3) = Inr () \<and>
        fs (snd (menu_tail ?c D pr t ?w3)) = (fs ?w3)(D \<mapsto> File (Text (appended t s)))"
      then obtain x a rest s where "stdin ?w3 = x # a # rest" "toLowerCase (trim a) = ''y''"
        "fst (menu_tail ?c D pr t ?w3) = Inr ()"
        "fs (snd (menu_tail ?c D pr t ?w3)) = (fs ?w3)(D \<mapsto> File (Text (appended t s)))"
        by blast
      with run Cons have "stdin w = l # x # a # rest" "toLowerCase (trim a) = ''y''"
        "fst (edit_menu D pr t w) = Inr ()"
        "fs (snd (edit_menu D pr t w)) = (fs w)(D \<mapsto> File (Text (appended t s)))"
        by simp_all
      then show ?thesis by blast
    qed
  qed
qed

lemma loadConfig_run:
  "loadConfig P w =
     (case fs w (configPath P) of
        Some (File (Json cfg)) \<Rightarrow> (Inr cfg, w)
      | Some (File (Text t)) \<Rightarrow> (Inl (Uncaught SyntaxError), w)
      | _ \<Rightarrow> (Inl (Uncaught ErrnoException), w))"
  by (simp add: loadConfig_def fs_read_def lift_def throw_def ret_def readFileSync_def JSON_parse_def
      split: option.splits node.splits content.splits)

lemma read_doc_run:
  "fs_read (\<lambda>f. readFileSync f D) w =
     (case fs w D of Some (File c) \<Rightarrow> (Inr c, w) | _ \<Rightarrow> (Inl (Uncaught ErrnoException), w))"
  by (simp add: fs_read_def lift_def throw_def ret_def readFileSync_def
      split: option.splits node.splits)

lemma lift_run:
  "lift r w = (case r of Inl e \<Rightarrow> (Inl (Uncaught e), w) | Inr a \<Rightarrow> (Inr a, w))"
  by (simp add: lift_def throw_def ret_def split: sum.splits)

lemma handleConstitution_cases:
  "(fs (snd (handleConstitution args w)) = fs w \<and>
    requests (snd (handleConstitution args w)) = requests w \<and>
    (\<exists>e. fst (handleConstitution args w) = Inl e)) \<or>
   (\<exists>pr c. fs w (constitutionPath (resolveProjectDir (cwd w) args)) = Some (File c) \<and>
      handleConstitution args w =
        edit_menu (constitutionPath (resolveProjectDir (cwd w) args)) pr (utf8 c)
          (w\<lparr>console := console w @ [Log ''SpecAI - Spec-Driven AI Development Framework'']\<rparr>))"
  unfolding handleConstitution_def thn_printHeader
  by (auto simp: Let_def loadState_run loadConfig_run read_doc_run lift_run bnd_def thn_def
      console_error_def emit_def process_exit_def
      split: option.splits node.splits content.splits sum.splits)

lemma handleConstitution_effect:
  "fs (snd (handleConstitution args w)) = fs w \<or>
   (\<exists>c l x a rest s.
      fs w (constitutionPath (resolveProjectDir (cwd w) args)) = Some (File c) \<and>
      stdin w = l # x # a # rest \<and> toLowerCase (trim a) = ''y'' \<and>
      fst (handleConstitution args w) = Inr () \<and>
      fs (snd (handleConstitution args w)) =
        (fs w)(constitutionPath (resolveProjectDir (cwd w) args) \<mapsto>
                 File (Text (appended (utf8 c) s))))"
proof -
  let ?D = "constitutionPath (resolveProjectDir (cwd w) args)"
  let ?w0 = "w\<lparr>console := console w @ [Log ''SpecAI - Spec-Driven AI Development Framework'']\<rparr>"
  from handleConstitution_cases [of args w] show ?thesis
  proof
    assume "fs (snd (handleConstitution args w)) = fs w \<and>
      requests (snd (handleConstitution args w)) = requests w \<and>
      (\<exists>e. fst (handleConstitution args w) = Inl e)"
    then show ?thesis by simp
  next
    assume "\<exists>pr c. fs w ?D = Some (File c) \<and>
      handleConstitution args w = edit_menu ?D pr (utf8 c) ?w0"
    then obtain pr c where c: "fs w ?D = Some (File c)"
      and run: "handleConstitution args w = edit_menu ?D pr (utf8 c) ?w0"
      by blast
    from edit_menu_effect [of ?D pr "utf8 c" ?w0] show ?thesis
    proof
      assume "fs (snd (edit_menu ?D pr (utf8 c) ?w0)) = fs ?w0"
      with run show ?thesis by simp
    next
      assume "\<exists>l x a rest s. stdin ?w0 = l # x # a # rest \<and> toLowerCase (trim a) = ''y'' \<and>
        fst (edit_menu ?D pr (utf8 c) ?w0) = Inr () \<and>
        fs (snd (edit_menu ?D pr (utf8 c) ?w0)) = (fs ?w0)(?D \<mapsto> File (Text (appended (utf8 c) s)))"
      then obtain l x a rest s where "stdin ?w0 = l # x # a # rest" "toLowerCase (trim a) = ''y''"
        "fst (edit_menu ?D pr (utf8 c) ?w0) = Inr ()"
        "fs (snd (edit_menu ?D pr (utf8 c) ?w0)) = (fs ?w0)(?D \<mapsto> File (Text (appended (utf8 c) s)))"
        by blast
      with run have "stdin w = l # x # a # rest" "toLowerCase (trim a) = ''y''"
        "fst (handleConstitution args w) = Inr ()"
        "fs (snd (handleConstitution args w)) = (fs w)(?D \<mapsto> File (Text (appended (utf8 c) s)))"
        by simp_all
      with c show ?thesis by blast
    qed
  qed
qed

subsection \<open>What an edit changes\<close>

lemma of_char_121: "(of_char c :: nat) = 121 \<longleftrightarrow> c = CHR ''y''"
  using of_char_eq_iff [of c "CHR ''y''", where ?'a = nat] by simp

lemma of_char_89: "(of_char c :: nat) = 89 \<longleftrightarrow> c = CHR ''Y''"
  using of_char_eq_iff [of c "CHR ''Y''", where ?'a = nat] by simp

lemma lower_char_y: "lower_char c = CHR ''y'' \<longleftrightarrow> c = CHR ''y'' \<or> c = CHR ''Y''"
  unfolding lower_char_def Let_def
  by (auto simp: char_of_eq_iff take_bit_eq_mod of_char_121 of_char_89 [symmetric])

lemma toLowerCase_y: "toLowerCase s = ''y'' \<longleftrightarrow> s = ''y'' \<or> s = ''Y''"
  unfolding toLowerCase_def by (cases s) (auto simp: lower_char_y)

lemma length_appended: "length (appended t s) = length (trim t) + length s + 3"
  by (simp add: appended_def)

lemma appended_prefix: "take (length (trim t)) (appended t s) = trim t"
  by (simp add: appended_def)

lemma statePath_neq_doc: "statePath P' \<noteq> constitutionPath P"
  by (simp add: statePath_def constitutionPath_def path_join_def)

lemma stored_state_upd_doc:
  "stored_state (f(constitutionPath P \<mapsto> n)) P' = stored_state f P'"
  by (simp add: stored_state_def statePath_neq_doc)

lemma trim_y: "s = ''y'' \<or> s = ''Y'' \<Longrightarrow> trim s = s"
  by (auto simp: trim_def is_space_def)

lemma draft_confirm_effect:
  "fs (snd (draft_confirm D t s w)) = fs w \<or>
   (\<exists>a rest. stdin w = a # rest \<and> toLowerCase a = ''y'' \<and>
      fst (draft_confirm D t s w) = Inr () \<and>
      fs (snd (draft_confirm D t s w)) = (fs w)(D \<mapsto> File (Text (appended t s))))"
proof (cases "stdin w")
  case Nil
  then show ?thesis by (simp add: draft_confirm_def question_def bnd_def)
next
  case (Cons a rest)
  let ?w1 = "w\<lparr>console := console w @ [Ask ''Apply this change? (y/n): ''], stdin := rest\<rparr>"
  show ?thesis
  proof (cases "toLowerCase a = ''y''")
    case False
    with Cons show ?thesis
      by (simp add: draft_confirm_def question_def bnd_def console_log_def emit_def)
  next
    case True
    with Cons have run: "draft_confirm D t s w =
        thn (fs_write (\<lambda>f. writeFileSync f D (Text (appended t s))))
            (console_log ''Change applied.'') ?w1"
      by (simp add: draft_confirm_def question_def bnd_def)
    from write_doc_fs [of D "Text (appended t s)" "''Change applied.''" ?w1]
    show ?thesis
    proof
      assume "fs (snd (thn (fs_write (\<lambda>f. writeFileSync f D (Text (appended t s))))
                 (console_log ''Change applied.'') ?w1)) = fs ?w1"
      with run show ?thesis by simp
    next
      assume "thn (fs_write (\<lambda>f. writeFileSync f D (Text (appended t s))))
                 (console_log ''Change applied.'') ?w1 =
              (Inr (), ?w1\<lparr>fs := (fs ?w1)(D \<mapsto> File (Text (appended t s))),
                        console := console ?w1 @ [Log ''Change applied.'']\<rparr>)"
      with run Cons True show ?thesis by simp
    qed
  qed
qed

lemma callQwen2_fs:
  assumes "\<And>v. fs (snd (ex (curl_command p) v)) = fs v"
  shows "fs (snd (callQwen2 ex p w)) = fs w"
proof (cases "ex (curl_command p) w")
  case (Pair r w1)
  with assms [of w] have "fs w1 = fs w" by simp
  with Pair show ?thesis
    by (cases r) (simp_all add: callQwen2_def bnd_def lift_run split: sum.splits)
qed

lemma handleConstitution2_cases:
  "fs (snd (handleConstitution2 ex args w)) = fs w \<or>
   (\<exists>c. fs w (constitutionPath (resolveProjectDir (cwd w) args)) = Some (File c) \<and>
      handleConstitution2 ex args w =
        bnd (callQwen2 ex (improvePrompt (utf8 c))) (\<lambda>proposal.
          thn (emit [Log ''\<newline>--- Proposed Change ---\<newline>'', Log proposal,
                     Log ''\<newline>-----------------------\<newline>''])
              (draft_confirm (constitutionPath (resolveProjectDir (cwd w) args)) (utf8 c) proposal))
          (w\<lparr>console := console w @ [Log ''SpecAI - Spec-Driven AI Development Framework'']\<rparr>))"
proof -
  let ?P = "resolveProjectDir (cwd w) args"
  let ?w0 = "w\<lparr>console := console w @ [Log ''SpecAI - Spec-Driven AI Development Framework'']\<rparr>"
  show ?thesis
  proof (cases "existsSync (fs w) (statePath ?P)")
    case False
    then have "fs (snd (handleConstitution2 ex args w)) = fs w"
      unfolding handleConstitution2_def thn_printHeader
      by (simp add: Let_def no_project_fs)
    then show ?thesis ..
  next
    case True
    show ?thesis
    proof (cases "loadState ?P ?w0")
      case (Pair r w1)
      then have w1: "w1 = ?w0"
        by (auto simp: loadState_run split: option.splits node.splits content.splits)
      show ?thesis
      proof (cases r)
        case (Inl e)
        with Pair w1 have load: "loadState ?P ?w0 = (Inl e, ?w0)" by simp
        have "fs (snd (handleConstitution2 ex args w)) = fs w"
          unfolding handleConstitution2_def thn_printHeader
          by (simp add: Let_def True bnd_Inl [where m = "loadState ?P", OF load])
        then show ?thesis ..
      next
        case (Inr st)
        with Pair w1 have load: "loadState ?P ?w0 = (Inr st, ?w0)" by simp
        show ?thesis
        proof (cases "approved_constitution st")
          case (Inl e)
          then have lft: "lift (approved_constitution st) ?w0 = (Inl (Uncaught e), ?w0)"
            by (simp add: lift_run)
          have "fs (snd (handleConstitution2 ex args w)) = fs w"
            unfolding handleConstitution2_def thn_printHeader
            by (simp add: Let_def True bnd_Inr [where m = "loadState ?P", OF load]
                bnd_Inl [where m = "lift (approved_constitution st)", OF lft])
          then show ?thesis ..
        next
          case (Inr v)
          then have lft: "lift (approved_constitution st) ?w0 = (Inr v, ?w0)"
            by (simp add: lift_run)
          show ?thesis
          proof (cases "truthy v")
            case True
            have "handleConstitution2 ex args w =
                    thn (console_error ''Constitution is locked.'')
                   (thn (console_error ''Use `specai unlock constitution` to modify it.'')
                        (process_exit 1)) ?w0"
              unfolding handleConstitution2_def thn_printHeader
              by (simp add: Let_def \<open>existsSync (fs w) (statePath ?P)\<close> True
                  bnd_Inr [where m = "loadState ?P", OF load]
                  bnd_Inr [where m = "lift (approved_constitution st)", OF lft])
            then have "fs (snd (handleConstitution2 ex args w)) = fs w"
              by (simp add: thn_def bnd_def console_error_def emit_def process_exit_def)
            then show ?thesis ..
          next
            case False
            note unlocked = this
            show ?thesis
            proof (cases "fs_read (\<lambda>f. readFileSync f (constitutionPath ?P)) ?w0")
              case (Pair r2 w2)
              then have w2: "w2 = ?w0"
                by (auto simp: read_doc_run split: option.splits node.splits)
              show ?thesis
              proof (cases r2)
                case (Inl e)
                with Pair w2 have rd:
                  "fs_read (\<lambda>f. readFileSync f (constitutionPath ?P)) ?w0 = (Inl e, ?w0)"
                  by simp
                have "fs (snd (handleConstitution2 ex args w)) = fs w"
                  unfolding handleConstitution2_def thn_printHeader
                  by (simp add: Let_def \<open>existsSync (fs w) (statePath ?P)\<close> unlocked
                      bnd_Inr [where m = "loadState ?P", OF load]
                      bnd_Inr [where m = "lift (approved_constitution st)", OF lft]
                      bnd_Inl [where m = "fs_read (\<lambda>f. readFileSync f (constitutionPath ?P))",
                        OF rd])
                then show ?thesis ..
              next
                case (Inr c)
                with Pair w2 have rd:
                  "fs_read (\<lambda>f. readFileSync f (constitutionPath ?P)) ?w0 = (Inr c, ?w0)"
                  by simp
                then have doc: "fs w (constitutionPath ?P) = Some (File c)"
                  by (auto simp: read_doc_run split: option.splits node.splits)
                have eq: "handleConstitution2 ex args w =
                    bnd (callQwen2 ex (improvePrompt (utf8 c))) (\<lambda>proposal.
                      thn (emit [Log ''\<newline>--- Proposed Change ---\<newline>'', Log proposal,
                                 Log ''\<newline>-----------------------\<newline>''])
                          (draft_confirm (constitutionPath ?P) (utf8 c) proposal)) ?w0"
                  unfolding handleConstitution2_def thn_printHeader
                  by (simp add: Let_def \<open>existsSync (fs w) (statePath ?P)\<close> unlocked
                      bnd_Inr [where m = "loadState ?P", OF load]
                      bnd_Inr [where m = "lift (approved_constitution st)", OF lft]
                      bnd_Inr [where m = "fs_read (\<lambda>f. readFileSync f (constitutionPath ?P))",
                        OF rd])
                from doc eq have "fs w (constitutionPath ?P) = Some (File c) \<and>
                    handleConstitution2 ex args w =
                    bnd (callQwen2 ex (improvePrompt (utf8 c))) (\<lambda>proposal.
                      thn (emit [Log ''\<newline>--- Proposed Change ---\<newline>'', Log proposal,
                                 Log ''\<newline>-----------------------\<newline>''])
                          (draft_confirm (constitutionPath ?P) (utf8 c) proposal)) ?w0"
                  by (rule conjI)
                then have "\<exists>c. fs w (constitutionPath ?P) = Some (File c) \<and>
                    handleConstitution2 ex args w =
                    bnd (callQwen2 ex (improvePrompt (utf8 c))) (\<lambda>proposal.
                      thn (emit [Log ''\<newline>--- Proposed Change ---\<newline>'', Log proposal,
                                 Log ''\<newline>-----------------------\<newline>''])
                          (draft_confirm (constitutionPath ?P) (utf8 c) proposal)) ?w0"
                  by (rule exI [where x = c])
                then show ?thesis by (rule disjI2)
              qed
            qed
          qed
        qed
      qed
    qed
  qed
qed

lemma handleConstitution2_frame:
  assumes "\<And>c v. fs w (constitutionPath (resolveProjectDir (cwd w) args)) = Some (File c) \<Longrightarrow>
             fs (snd (ex (curl_command (improvePrompt (utf8 c))) v)) = fs v"
  shows "fs (snd (handleConstitution2 ex args w)) = fs w \<or>
         (\<exists>n. fs (snd (handleConstitution2 ex args w)) =
                (fs w)(constitutionPath (resolveProjectDir (cwd w) args) \<mapsto> n))"
proof -
  let ?D = "constitutionPath (resolveProjectDir (cwd w) args)"
  let ?w0 = "w\<lparr>console := console w @ [Log ''SpecAI - Spec-Driven AI Development Framework'']\<rparr>"
  from handleConstitution2_cases [of ex args w] show ?thesis
  proof
    assume "fs (snd (handleConstitution2 ex args w)) = fs w"
    then show ?thesis ..
  next
    assume "\<exists>c. fs w ?D = Some (File c) \<and>
      handleConstitution2 ex args w =
        bnd (callQwen2 ex (improvePrompt (utf8 c))) (\<lambda>proposal.
          thn (emit [Log ''\<newline>--- Proposed Change ---\<newline>'', Log proposal,
                     Log ''\<newline>-----------------------\<newline>''])
              (draft_confirm ?D (utf8 c) proposal)) ?w0"
    then obtain c where doc: "fs w ?D = Some (File c)"
      and run: "handleConstitution2 ex args w =
        bnd (callQwen2 ex (improvePrompt (utf8 c))) (\<lambda>proposal.
          thn (emit [Log ''\<newline>--- Proposed Change ---\<newline>'', Log proposal,
                     Log ''\<newline>-----------------------\<newline>''])
              (draft_confirm ?D (utf8 c) proposal)) ?w0"
      by blast
    have keep: "fs (snd (callQwen2 ex (improvePrompt (utf8 c)) ?w0)) = fs ?w0"
      by (rule callQwen2_fs) (rule assms [OF doc])
    show ?thesis
    proof (cases "callQwen2 ex (improvePrompt (utf8 c)) ?w0")
      case (Pair r w1)
      with keep have w1: "fs w1 = fs w" by simp
      show ?thesis
      proof (cases r)
        case (Inl e)
        with Pair run w1 have "fs (snd (handleConstitution2 ex args w)) = fs w"
          by (simp add: bnd_def)
        then show ?thesis ..
      next
        case (Inr s)
        let ?w2 = "w1\<lparr>console := console w1 @
                     [Log ''\<newline>--- Proposed Change ---\<newline>'', Log s,
                      Log ''\<newline>-----------------------\<newline>'']\<rparr>"
        from Inr Pair run have eq: "handleConstitution2 ex args w = draft_confirm ?D (utf8 c) s ?w2"
          by (simp add: bnd_def thn_def emit_def)
        from draft_confirm_effect [of ?D "utf8 c" s ?w2] show ?thesis
        proof
          assume "fs (snd (draft_confirm ?D (utf8 c) s ?w2)) = fs ?w2"
          with eq w1 have "fs (snd (handleConstitution2 ex args w)) = fs w" by simp
          then show ?thesis ..
        next
          assume "\<exists>a rest. stdin ?w2 = a # rest \<and> toLowerCase a = ''y'' \<and>
            fst (draft_confirm ?D (utf8 c) s ?w2) = Inr () \<and>
            fs (snd (draft_confirm ?D (utf8 c) s ?w2)) =
              (fs ?w2)(?D \<mapsto> File (Text (appended (utf8 c) s)))"
          with eq w1 have "fs (snd (handleConstitution2 ex args w)) =
              (fs w)(?D \<mapsto> File (Text (appended (utf8 c) s)))"
            by auto
          then have "\<exists>n. fs (snd (handleConstitution2 ex args w)) = (fs w)(?D \<mapsto> n)"
            by (rule exI [where x = "File (Text (appended (utf8 c) s))"])
          then show ?thesis ..
        qed
      qed
    qed
  qed
qed

text \<open>
  C5. No run of \<open>handleConstitution\<close> changes a state record: whatever sub-action is chosen
  and however the run ends, every path other than the constitution document of the project
  keeps its content, and the document itself changes only in a run whose confirmation
  answer is \<open>y\<close>. The same holds of the earlier draft as far as its own steps go: its
  confirmation prompt writes nothing but the document, and only on the answer \<open>y\<close>, and a
  whole run of it leaves every other path alone provided that \<open>execSync\<close>, on the command
  line built from the document, leaves the file system alone. The text of the document
  stands in that command line after its first single quote as shell input, so the
  proviso is not met by every document.
\<close>

theorem edit_leaves_state_record:
  "(\<forall>P'. stored_state (fs (snd (handleConstitution args w))) P' = stored_state (fs w) P') \<and>
   (\<forall>q. q \<noteq> constitutionPath (resolveProjectDir (cwd w) args) \<longrightarrow>
        fs (snd (handleConstitution args w)) q = fs w q) \<and>
   (fs (snd (handleConstitution args w)) \<noteq> fs w \<longrightarrow>
      (\<exists>l x a rest. stdin w = l # x # a # rest \<and> toLowerCase (trim a) = ''y'')) \<and>
   (\<forall>P'. stored_state (fs (snd (draft_confirm (constitutionPath P) t s w))) P' =
           stored_state (fs w) P') \<and>
   (\<forall>q. q \<noteq> constitutionPath P \<longrightarrow>
        fs (snd (draft_confirm (constitutionPath P) t s w)) q = fs w q) \<and>
   (fs (snd (draft_confirm (constitutionPath P) t s w)) \<noteq> fs w \<longrightarrow>
      (\<exists>a rest. stdin w = a # rest \<and> toLowerCase a = ''y'')) \<and>
   ((\<forall>c v. fs w (constitutionPath (resolveProjectDir (cwd w) args)) = Some (File c) \<longrightarrow>
        fs (snd (execSync (curl_command (improvePrompt (utf8 c))) v)) = fs v) \<longrightarrow>
    (\<forall>P'. stored_state (fs (snd (handleConstitution2 execSync args w))) P' =
            stored_state (fs w) P') \<and>
    (\<forall>q. q \<noteq> constitutionPath (resolveProjectDir (cwd w) args) \<longrightarrow>
         fs (snd (handleConstitution2 execSync args w)) q = fs w q))"
proof -
  have v1: "(\<forall>P'. stored_state (fs (snd (handleConstitution args w))) P' = stored_state (fs w) P') \<and>
   (\<forall>q. q \<noteq> constitutionPath (resolveProjectDir (cwd w) args) \<longrightarrow>
        fs (snd (handleConstitution args w)) q = fs w q) \<and>
   (fs (snd (handleConstitution args w)) \<noteq> fs w \<longrightarrow>
      (\<exists>l x a rest. stdin w = l # x # a # rest \<and> toLowerCase (trim a) = ''y''))"
    using handleConstitution_effect [of args w]
  proof
    assume "fs (snd (handleConstitution args w)) = fs w"
    then show ?thesis by simp
  next
    assume "\<exists>c l x a rest s.
      fs w (constitutionPath (resolveProjectDir (cwd w) args)) = Some (File c) \<and>
      stdin w = l # x # a # rest \<and> toLowerCase (trim a) = ''y'' \<and>
      fst (handleConstitution args w) = Inr () \<and>
      fs (snd (handleConstitution args w)) =
        (fs w)(constitutionPath (resolveProjectDir (cwd w) args) \<mapsto>
                 File (Text (appended (utf8 c) s)))"
    then obtain c l x a rest s where "stdin w = l # x # a # rest" "toLowerCase (trim a) = ''y''"
      and "fs (snd (handleConstitution args w)) =
        (fs w)(constitutionPath (resolveProjectDir (cwd w) args) \<mapsto>
                 File (Text (appended (utf8 c) s)))"
      by blast
    then show ?thesis by (simp add: stored_state_upd_doc)
  qed
  have step: "(\<forall>P'. stored_state (fs (snd (draft_confirm (constitutionPath P) t s w))) P' =
           stored_state (fs w) P') \<and>
   (\<forall>q. q \<noteq> constitutionPath P \<longrightarrow>
        fs (snd (draft_confirm (constitutionPath P) t s w)) q = fs w q) \<and>
   (fs (snd (draft_confirm (constitutionPath P) t s w)) \<noteq> fs w \<longrightarrow>
      (\<exists>a rest. stdin w = a # rest \<and> toLowerCase a = ''y''))"
    using draft_confirm_effect [of "constitutionPath P" t s w]
  proof
    assume "fs (snd (draft_confirm (constitutionPath P) t s w)) = fs w"
    then show ?thesis by simp
  next
    assume "\<exists>a rest. stdin w = a # rest \<and> toLowerCase a = ''y'' \<and>
      fst (draft_confirm (constitutionPath P) t s w) = Inr () \<and>
      fs (snd (draft_confirm (constitutionPath P) t s w)) =
        (fs w)(constitutionPath P \<mapsto> File (Text (appended t s)))"
    then obtain a rest where "stdin w = a # rest" "toLowerCase a = ''y''"
      and "fs (snd (draft_confirm (constitutionPath P) t s w)) =
        (fs w)(constitutionPath P \<mapsto> File (Text (appended t s)))"
      by blast
    then show ?thesis by (simp add: stored_state_upd_doc)
  qed
  have v2: "(\<forall>c v. fs w (constitutionPath (resolveProjectDir (cwd w) args)) = Some (File c) \<longrightarrow>
        fs (snd (execSync (curl_command (improvePrompt (utf8 c))) v)) = fs v) \<longrightarrow>
    (\<forall>P'. stored_state (fs (snd (handleConstitution2 execSync args w))) P' =
            stored_state (fs w) P') \<and>
    (\<forall>q. q \<noteq> constitutionPath (resolveProjectDir (cwd w) args) \<longrightarrow>
         fs (snd (handleConstitution2 execSync args w)) q = fs w q)"
  proof
    assume "\<forall>c v. fs w (constitutionPath (resolveProjectDir (cwd w) args)) = Some (File c) \<longrightarrow>
        fs (snd (execSync (curl_command (improvePrompt (utf8 c))) v)) = fs v"
    then have "fs (snd (handleConstitution2 execSync args w)) = fs w \<or>
         (\<exists>n. fs (snd (handleConstitution2 execSync args w)) =
                (fs w)(constitutionPath (resolveProjectDir (cwd w) args) \<mapsto> n))"
      by (intro handleConstitution2_frame) simp
    then show "(\<forall>P'. stored_state (fs (snd (handleConstitution2 execSync args w))) P' =
            stored_state (fs w) P') \<and>
      (\<forall>q. q \<noteq> constitutionPath (resolveProjectDir (cwd w) args) \<longrightarrow>
         fs (snd (handleConstitution2 execSync args w)) q = fs w q)"
    proof
      assume "fs (snd (handleConstitution2 execSync args w)) = fs w"
      then show ?thesis by simp
    next
      assume "\<exists>n. fs (snd (handleConstitution2 execSync args w)) =
                (fs w)(constitutionPath (resolveProjectDir (cwd w) args) \<mapsto> n)"
      then obtain n where "fs (snd (handleConstitution2 execSync args w)) =
                (fs w)(constitutionPath (resolveProjectDir (cwd w) args) \<mapsto> n)" ..
      then show ?thesis by (simp add: stored_state_upd_doc)
    qed
  qed
  from v1 step v2 show ?thesis by simp
qed

lemmas run_defs = handleConstitution_def handleConstitution2_def edit_menu_def overview_action_def
  notes_action_def questions_action_def approved_constitution_def project_fields_def
  response_text_def menu_def js_String_def draft_confirm_def

lemma example_notes_run:
  "fs (snd (handleConstitution []
         (project_world default_state ''# Constitution\<newline>''
            [''3'', ''Keep it short.'', ''y''] (\<lambda>n. completion ''A summary.''))))
     [''work'', ''specai'', ''constitution.md''] =
   Some (File (Text ''# Constitution\<newline>\<newline>Keep it short.\<newline>''))"
  by (simp add: run_defs prog_defs cmd_defs fs_defs example_defs string_defs Let_def
      appended_def toLowerCase_def lower_char_def)

lemma example_draft_run:
  "fs (snd (handleConstitution2 (\<lambda>cmd. ret (Json (JObj [(''response'', JStr ''Be brief.'')]))) []
         (project_world default_state ''# Constitution\<newline>'' [''y''] (\<lambda>n. Unreachable)))) =
   (project_fs default_state ''# Constitution\<newline>'')
     ([''work'', ''specai'', ''constitution.md''] \<mapsto>
        File (Text ''# Constitution\<newline>\<newline>Be brief.\<newline>''))"
  by (simp add: run_defs prog_defs cmd_defs fs_defs example_defs string_defs Let_def
      appended_def toLowerCase_y)

theorem edit_leaves_state_record_witness:
  "fs (snd (handleConstitution []
         (project_world default_state ''# Constitution\<newline>''
            [''3'', ''Keep it short.'', ''y''] (\<lambda>n. completion ''A summary.'')))) \<noteq>
   fs (project_world default_state ''# Constitution\<newline>''
         [''3'', ''Keep it short.'', ''y''] (\<lambda>n. completion ''A summary.'')) \<and>
   stored_state
     (fs (snd (handleConstitution []
         (project_world default_state ''# Constitution\<newline>''
            [''3'', ''Keep it short.'', ''y''] (\<lambda>n. completion ''A summary.'')))))
     [''work''] = Some default_state \<and>
   (\<exists>l x a rest.
      stdin (project_world default_state ''# Constitution\<newline>''
               [''3'', ''Keep it short.'', ''y''] (\<lambda>n. completion ''A summary.'')) =
        l # x # a # rest \<and>
      toLowerCase (trim a) = ''y'') \<and>
   fs (snd (handleConstitution2 (\<lambda>cmd. ret (Json (JObj [(''response'', JStr ''Be brief.'')]))) []
         (project_world default_state ''# Constitution\<newline>'' [''y''] (\<lambda>n. Unreachable))))
     [''work'', ''specai'', ''constitution.md''] =
     Some (File (Text ''# Constitution\<newline>\<newline>Be brief.\<newline>'')) \<and>
   stored_state
     (fs (snd (handleConstitution2 (\<lambda>cmd. ret (Json (JObj [(''response'', JStr ''Be brief.'')]))) []
         (project_world default_state ''# Constitution\<newline>'' [''y''] (\<lambda>n. Unreachable)))))
     [''work''] = Some default_state"
proof -
  let ?w = "project_world default_state ''# Constitution\<newline>''
              [''3'', ''Keep it short.'', ''y''] (\<lambda>n. completion ''A summary.'')"
  let ?v = "project_world default_state ''# Constitution\<newline>'' [''y''] (\<lambda>n. Unreachable)"
  let ?ex = "\<lambda>cmd :: string. (ret (Json (JObj [(''response'', JStr ''Be brief.'')])) :: content prog)"
  have "fs ?w [''work'', ''specai'', ''constitution.md''] =
          Some (File (Text ''# Constitution\<newline>''))"
    by (simp add: example_defs)
  then have "fs (snd (handleConstitution [] ?w)) [''work'', ''specai'', ''constitution.md''] \<noteq>
             fs ?w [''work'', ''specai'', ''constitution.md'']"
    unfolding example_notes_run by simp
  then have ne: "fs (snd (handleConstitution [] ?w)) \<noteq> fs ?w"
    by (rule contrapos_nn) simp
  have st: "stored_state (fs ?w) [''work''] = Some default_state"
    by (simp add: stored_state_def fs_defs example_defs)
  have st2: "stored_state (fs ?v) [''work''] = Some default_state"
    by (simp add: stored_state_def fs_defs example_defs)
  have quiet: "\<forall>c v. fs ?v (constitutionPath (resolveProjectDir (cwd ?v) [])) = Some (File c) \<longrightarrow>
        fs (snd (?ex (curl_command (improvePrompt (utf8 c))) v)) = fs v"
    by (simp add: ret_def)
  have doc: "fs (snd (handleConstitution2 ?ex [] ?v)) [''work'', ''specai'', ''constitution.md''] =
     Some (File (Text ''# Constitution\<newline>\<newline>Be brief.\<newline>''))"
    unfolding example_draft_run by simp
  from edit_leaves_state_record [of "[]" ?w] ne st
  have first: "stored_state (fs (snd (handleConstitution [] ?w))) [''work''] = Some default_state \<and>
    (\<exists>l x a rest. stdin ?w = l # x # a # rest \<and> toLowerCase (trim a) = ''y'')"
    by simp
  from edit_leaves_state_record [of "[]" ?v _ _ _ ?ex] quiet st2
  have "stored_state (fs (snd (handleConstitution2 ?ex [] ?v))) [''work''] = Some default_state"
    by simp
  with first ne doc show ?thesis by simp
qed

subsection \<open>The confirmation answer\<close>

lemma edit_changes_on_y:
  "fs (snd (handleConstitution args w)) \<noteq> fs w \<longrightarrow>
      (\<exists>l x a rest. stdin w = l # x # a # rest \<and> toLowerCase (trim a) = ''y'')"
  using handleConstitution_effect [of args w]
  by blast

lemma draft_changes_on_y:
  "fs (snd (draft_confirm D t s w)) \<noteq> fs w \<longrightarrow>
      (\<exists>a rest. stdin w = a # rest \<and> toLowerCase a = ''y'')"
  using draft_confirm_effect [of D t s w]
  by blast

text \<open>
  C10. At every confirmation prompt the document is written only when the answer, trimmed
  and lower-cased, is exactly \<open>y\<close>, that is, when the trimmed answer is \<open>y\<close> or \<open>Y\<close>; the
  prompt of the earlier draft, which does not trim, accepts only the bare \<open>y\<close> or \<open>Y\<close>. With
  any other answer, \<open>yes\<close> among them, nothing is written.
\<close>

theorem applied_only_on_y:
  "(fs (snd (handleConstitution args w)) \<noteq> fs w \<longrightarrow>
      (\<exists>l x a rest. stdin w = l # x # a # rest \<and> toLowerCase (trim a) = ''y'' \<and>
         (trim a = ''y'' \<or> trim a = ''Y''))) \<and>
   (fs (snd (draft_confirm D t s w)) \<noteq> fs w \<longrightarrow>
      (\<exists>a rest. stdin w = a # rest \<and> toLowerCase (trim a) = ''y'' \<and>
         (a = ''y'' \<or> a = ''Y''))) \<and>
   (\<forall>l x a rest. stdin w = l # x # a # rest \<and> toLowerCase (trim a) \<noteq> ''y'' \<longrightarrow>
      fs (snd (handleConstitution args w)) = fs w) \<and>
   (\<forall>a rest. stdin w = a # rest \<and> toLowerCase (trim a) \<noteq> ''y'' \<longrightarrow>
      fs (snd (draft_confirm D t s w)) = fs w) \<and>
   toLowerCase (trim ''yes'') \<noteq> ''y''"
proof -
  have v1: "fs (snd (handleConstitution args w)) \<noteq> fs w \<longrightarrow>
      (\<exists>l x a rest. stdin w = l # x # a # rest \<and> toLowerCase (trim a) = ''y'' \<and>
         (trim a = ''y'' \<or> trim a = ''Y''))"
    using edit_changes_on_y [of args w] by (auto simp: toLowerCase_y)
  have v2: "fs (snd (draft_confirm D t s w)) \<noteq> fs w \<longrightarrow>
      (\<exists>a rest. stdin w = a # rest \<and> toLowerCase (trim a) = ''y'' \<and>
         (a = ''y'' \<or> a = ''Y''))"
  proof
    assume "fs (snd (draft_confirm D t s w)) \<noteq> fs w"
    with draft_changes_on_y [of D t s w] obtain a rest
      where a: "stdin w = a # rest" "toLowerCase a = ''y''" by blast
    then have "a = ''y'' \<or> a = ''Y''" by (simp add: toLowerCase_y)
    moreover from this have "trim a = a" by (rule trim_y)
    ultimately show "\<exists>a rest. stdin w = a # rest \<and> toLowerCase (trim a) = ''y'' \<and>
         (a = ''y'' \<or> a = ''Y'')"
      using a by auto
  qed
  have yes: "toLowerCase (trim ''yes'') \<noteq> ''y''"
    by (simp add: toLowerCase_y trim_def is_space_def)
  from v1 have d1: "\<forall>l x a rest. stdin w = l # x # a # rest \<and> toLowerCase (trim a) \<noteq> ''y'' \<longrightarrow>
      fs (snd (handleConstitution args w)) = fs w"
    by auto
  from v2 have d2: "\<forall>a rest. stdin w = a # rest \<and> toLowerCase (trim a) \<noteq> ''y'' \<longrightarrow>
      fs (snd (draft_confirm D t s w)) = fs w"
    by auto
  from v1 v2 d1 d2 yes show ?thesis by blast
qed

lemma example_overview_run:
  "fs (snd (handleConstitution []
         (project_world default_state ''# Constitution\<newline>''
            [''1'', ''A tool that keeps rules.'', '' Y '']
            (\<lambda>n. completion ''## New Rule\<newline>Be concise.''))))
     [''work'', ''specai'', ''constitution.md''] =
   Some (File (Text ''# Constitution\<newline>\<newline>## New Rule\<newline>Be concise.\<newline>''))"
  by (simp add: run_defs prog_defs cmd_defs fs_defs example_defs string_defs Let_def
      appended_def toLowerCase_y)

theorem applied_only_on_y_witness:
  "fs (snd (handleConstitution []
         (project_world default_state ''# Constitution\<newline>''
            [''1'', ''A tool that keeps rules.'', '' Y '']
            (\<lambda>n. completion ''## New Rule\<newline>Be concise.'')))) \<noteq>
   fs (project_world default_state ''# Constitution\<newline>''
         [''1'', ''A tool that keeps rules.'', '' Y '']
         (\<lambda>n. completion ''## New Rule\<newline>Be concise.'')) \<and>
   (\<exists>l x a rest.
      stdin (project_world default_state ''# Constitution\<newline>''
               [''1'', ''A tool that keeps rules.'', '' Y '']
               (\<lambda>n. completion ''## New Rule\<newline>Be concise.'')) = l # x # a # rest \<and>
      toLowerCase (trim a) = ''y'') \<and>
   fs (snd (handleConstitution []
         (project_world default_state ''# Constitution\<newline>''
            [''1'', ''A tool that keeps rules.'', ''yes'']
            (\<lambda>n. completion ''## New Rule\<newline>Be concise.'')))) =
   fs (project_world default_state ''# Constitution\<newline>''
         [''1'', ''A tool that keeps rules.'', ''yes'']
         (\<lambda>n. completion ''## New Rule\<newline>Be concise.''))"
proof -
  let ?w = "project_world default_state ''# Constitution\<newline>''
              [''1'', ''A tool that keeps rules.'', '' Y '']
              (\<lambda>n. completion ''## New Rule\<newline>Be concise.'')"
  let ?v = "project_world default_state ''# Constitution\<newline>''
              [''1'', ''A tool that keeps rules.'', ''yes'']
              (\<lambda>n. completion ''## New Rule\<newline>Be concise.'')"
  have "fs ?w [''work'', ''specai'', ''constitution.md''] =
          Some (File (Text ''# Constitution\<newline>''))"
    by (simp add: example_defs)
  then have "fs (snd (handleConstitution [] ?w)) [''work'', ''specai'', ''constitution.md''] \<noteq>
             fs ?w [''work'', ''specai'', ''constitution.md'']"
    unfolding example_overview_run by simp
  then have ne: "fs (snd (handleConstitution [] ?w)) \<noteq> fs ?w"
    by (rule contrapos_nn) simp
  have lines: "stdin ?v = ''1'' # ''A tool that keeps rules.'' # ''yes'' # []"
    by (simp add: example_defs)
  have no: "toLowerCase (trim ''yes'') \<noteq> ''y''"
    by (simp add: toLowerCase_y trim_def is_space_def)
  from applied_only_on_y [of "[]" ?w] ne
  have "\<exists>l x a rest. stdin ?w = l # x # a # rest \<and> toLowerCase (trim a) = ''y''"
    by blast
  moreover from applied_only_on_y [of "[]" ?v] lines no
  have "fs (snd (handleConstitution [] ?v)) = fs ?v"
    by blast
  ultimately show ?thesis using ne by simp
qed

subsection \<open>The text a confirmed edit writes\<close>

lemma editableD:
  assumes "editable f P"
  obtains st v where "f (statePath P) = Some (File (Json st))"
    "approved_constitution st = Inr v" "\<not> truthy v" "f (path_join P [''specai'']) = Some Dir"
proof -
  from assms have dir: "f (path_join P [''specai'']) = Some Dir"
    by (simp add: editable_def)
  from assms obtain st where st: "stored_state f P = Some st"
    by (cases "stored_state f P") (simp_all add: editable_def)
  with assms obtain v where v: "approved_constitution st = Inr v"
    by (cases "approved_constitution st") (simp_all add: editable_def)
  with assms st have "\<not> truthy v" by (simp add: editable_def)
  with that dir st v show ?thesis by (simp add: stored_state_Some)
qed

lemma config_okD:
  assumes "config_ok f P"
  obtains cfg pr where "f (configPath P) = Some (File (Json cfg))" "project_fields cfg = Inr pr"
proof -
  from assms obtain n where n: "f (configPath P) = Some n"
    by (cases "f (configPath P)") (simp_all add: config_ok_def)
  with assms obtain c where c: "n = File c"
    by (cases n) (simp_all add: config_ok_def)
  with assms n obtain cfg where cfg: "c = Json cfg"
    by (cases c) (simp_all add: config_ok_def)
  with assms n c obtain pr where "project_fields cfg = Inr pr"
    by (cases "project_fields cfg") (simp_all add: config_ok_def)
  with that n c cfg show ?thesis by simp
qed

lemma callQwen_answers:
  assumes "answers (service w (length (requests w))) s"
  shows "callQwen p w = (Inr s, w\<lparr>requests := requests w @ [p]\<rparr>)"
proof (cases "service w (length (requests w))")
  case Unreachable
  with assms show ?thesis by (simp add: answers_def)
next
  case (Response ok body)
  with assms show ?thesis
    by (simp add: answers_def callQwen_def lift_def ret_def)
qed

lemma docPath_butlast: "butlast (constitutionPath P) = path_join P [''specai'']"
  by (simp add: constitutionPath_def path_join_def butlast_append)

lemma write_doc_ok:
  assumes "fs w (path_join P [''specai'']) = Some Dir" "fs w (constitutionPath P) = Some (File c)"
  shows "thn (fs_write (\<lambda>f. writeFileSync f (constitutionPath P) c')) (console_log msg) w =
           (Inr (), w\<lparr>fs := (fs w)(constitutionPath P \<mapsto> File c'),
                      console := console w @ [Log msg]\<rparr>)"
proof -
  have "constitutionPath P \<noteq> []" by (simp add: constitutionPath_def path_join_def)
  with assms show ?thesis
    by (simp add: thn_def bnd_def fs_write_def writeFileSync_def docPath_butlast
        console_log_def emit_def)
qed

lemma enters_menu:
  assumes "editable (fs w) (resolveProjectDir (cwd w) args)"
    and "config_ok (fs w) (resolveProjectDir (cwd w) args)"
    and "fs w (constitutionPath (resolveProjectDir (cwd w) args)) = Some (File c)"
  shows "\<exists>pr. handleConstitution args w =
           edit_menu (constitutionPath (resolveProjectDir (cwd w) args)) pr (utf8 c)
             (w\<lparr>console := console w @ [Log ''SpecAI - Spec-Driven AI Development Framework'']\<rparr>)"
proof -
  let ?P = "resolveProjectDir (cwd w) args"
  from assms(1) obtain st v where st: "fs w (statePath ?P) = Some (File (Json st))"
    and v: "approved_constitution st = Inr v" "\<not> truthy v"
    by (rule editableD)
  from assms(2) obtain cfg pr where cfg: "fs w (configPath ?P) = Some (File (Json cfg))"
    and pr: "project_fields cfg = Inr pr"
    by (rule config_okD)
  let ?w0 = "w\<lparr>console := console w @ [Log ''SpecAI - Spec-Driven AI Development Framework'']\<rparr>"
  from st have ex: "existsSync (fs w) (statePath ?P)"
    by (simp add: existsSync_def)
  from st have load: "loadState ?P ?w0 = (Inr st, ?w0)"
    by (simp add: loadState_run)
  from v have lft: "lift (approved_constitution st) ?w0 = (Inr v, ?w0)"
    by (simp add: lift_run)
  from cfg have conf: "loadConfig ?P ?w0 = (Inr cfg, ?w0)"
    by (simp add: loadConfig_run)
  from assms(3) have rd: "fs_read (\<lambda>f. readFileSync f (constitutionPath ?P)) ?w0 = (Inr c, ?w0)"
    by (simp add: read_doc_run)
  from pr have prj: "lift (project_fields cfg) ?w0 = (Inr pr, ?w0)"
    by (simp add: lift_run)
  have eq: "handleConstitution args w =
           edit_menu (constitutionPath ?P) pr (utf8 c) ?w0"
    unfolding handleConstitution_def thn_printHeader
    by (simp add: Let_def ex v(2)
        bnd_Inr [where m = "loadState ?P", OF load]
        bnd_Inr [where m = "lift (approved_constitution st)", OF lft]
        bnd_Inr [where m = "loadConfig ?P", OF conf]
        bnd_Inr [where m = "fs_read (\<lambda>f. readFileSync f (constitutionPath ?P))", OF rd]
        bnd_Inr [where m = "lift (project_fields cfg)", OF prj])
  show ?thesis
    by (rule exI [where x = pr]) (rule eq)
qed

lemma edit_menu_choice:
  assumes "answers (service w (length (requests w))) summary" "stdin w = l # ls"
  shows "\<exists>w'. edit_menu D pr t w =
           menu_tail (case parseInt (trim l) of None \<Rightarrow> - 1 | Some idx \<Rightarrow> idx - 1) D pr t w' \<and>
           fs w' = fs w \<and> stdin w' = ls \<and> service w' = service w \<and>
           requests w' = requests w @ [summaryPrompt pr t]"
proof -
  let ?w1 = "w\<lparr>requests := requests w @ [summaryPrompt pr t]\<rparr>"
  let ?w3 = "?w1\<lparr>console := console ?w1 @
                  [Log ''\<newline>=== Current Constitution Summary ===\<newline>'', Log summary,
                   Log ''\<newline>===================================\<newline>''] @
                  Log ''What do you want to do next?'' #
                  map (\<lambda>i. Log (decimal (i + 1) @ '') '' @ menu ! i)) [0..<length menu] @
                  [Ask ''> ''], stdin := ls\<rparr>"
  from assms(1) have call: "callQwen (summaryPrompt pr t) w = (Inr summary, ?w1)"
    by (rule callQwen_answers)
  with assms(2) have "edit_menu D pr t w =
      menu_tail (case parseInt (trim l) of None \<Rightarrow> - 1 | Some idx \<Rightarrow> idx - 1) D pr t ?w3"
    by (simp add: edit_menu_unfold bnd_def thn_def emit_def choose_menu_run)
  then have "edit_menu D pr t w =
      menu_tail (case parseInt (trim l) of None \<Rightarrow> - 1 | Some idx \<Rightarrow> idx - 1) D pr t ?w3 \<and>
      fs ?w3 = fs w \<and> stdin ?w3 = ls \<and> service ?w3 = service w \<and>
      requests ?w3 = requests w @ [summaryPrompt pr t]"
    by simp
  then show ?thesis
    by (rule exI [where x = ?w3])
qed

lemma overview_confirmed:
  assumes "stdin w = x # a # rest" "toLowerCase (trim a) = ''y''"
    and "answers (service w (length (requests w))) s"
    and "fs w (path_join P [''specai'']) = Some Dir" "fs w (constitutionPath P) = Some (File c)"
  shows "fst (overview_action (constitutionPath P) t w) = Inr () \<and>
         fs (snd (overview_action (constitutionPath P) t w)) =
           (fs w)(constitutionPath P \<mapsto> File (Text (appended t s)))"
proof -
  let ?w1 = "w\<lparr>console := console w @ [Ask ''\<newline>Describe the system at a high level:\<newline>''],
                 stdin := a # rest\<rparr>"
  let ?w2 = "?w1\<lparr>requests := requests ?w1 @ [proposalPrompt (trim x)]\<rparr>"
  let ?w3 = "?w2\<lparr>console := console ?w2 @
                     [Log ''\<newline>--- Proposed Section ---\<newline>'', Log s,
                      Log ''\<newline>------------------------\<newline>'',
                      Ask ''Apply this section? (y/n): ''], stdin := rest\<rparr>"
  from assms(3) have "answers (service ?w1 (length (requests ?w1))) s" by simp
  then have call: "callQwen (proposalPrompt (trim x)) ?w1 = (Inr s, ?w2)"
    by (rule callQwen_answers)
  from assms(1,2) call have run: "overview_action (constitutionPath P) t w =
      thn (fs_write (\<lambda>f. writeFileSync f (constitutionPath P) (Text (appended t s))))
          (console_log ''Applied.'') ?w3"
    by (simp add: overview_action_def ask_run bnd_def thn_def emit_def)
  from assms(4,5) have "fs ?w3 (path_join P [''specai'']) = Some Dir"
    "fs ?w3 (constitutionPath P) = Some (File c)" by simp_all
  from write_doc_ok [OF this] run show ?thesis by simp
qed

lemma notes_confirmed:
  assumes "stdin w = x # a # rest" "toLowerCase (trim a) = ''y''"
    and "fs w (path_join P [''specai'']) = Some Dir" "fs w (constitutionPath P) = Some (File c)"
  shows "fst (notes_action (constitutionPath P) t w) = Inr () \<and>
         fs (snd (notes_action (constitutionPath P) t w)) =
           (fs w)(constitutionPath P \<mapsto> File (Text (appended t (trim x))))"
proof -
  let ?w2 = "w\<lparr>console := console w @ [Ask ''\<newline>Enter notes/constraints to append:\<newline>'',
                   Ask ''Append these notes? (y/n): ''], stdin := rest\<rparr>"
  from assms(1,2) have run: "notes_action (constitutionPath P) t w =
      thn (fs_write (\<lambda>f. writeFileSync f (constitutionPath P) (Text (appended t (trim x)))))
          (console_log ''Notes appended.'') ?w2"
    by (simp add: notes_action_def ask_run bnd_def)
  from assms(3,4) have "fs ?w2 (path_join P [''specai'']) = Some Dir"
    "fs ?w2 (constitutionPath P) = Some (File c)" by simp_all
  from write_doc_ok [OF this] run show ?thesis by simp
qed

lemma handle_overview_confirmed:
  assumes "editable (fs w) (resolveProjectDir (cwd w) args)"
    and "config_ok (fs w) (resolveProjectDir (cwd w) args)"
    and "fs w (constitutionPath (resolveProjectDir (cwd w) args)) = Some (File c)"
    and "stdin w = l # x # a # rest" "parseInt (trim l) = Some 1"
    and "toLowerCase (trim a) = ''y''"
    and "answers (service w (length (requests w))) summary"
    and "answers (service w (Suc (length (requests w)))) s"
  shows "fst (handleConstitution args w) = Inr () \<and>
         fs (snd (handleConstitution args w)) =
           (fs w)(constitutionPath (resolveProjectDir (cwd w) args) \<mapsto>
                    File (Text (appended (utf8 c) s)))"
proof -
  let ?P = "resolveProjectDir (cwd w) args"
  let ?w0 = "w\<lparr>console := console w @ [Log ''SpecAI - Spec-Driven AI Development Framework'']\<rparr>"
  from enters_menu [OF assms(1,2,3)] obtain pr where
    h: "handleConstitution args w = edit_menu (constitutionPath ?P) pr (utf8 c) ?w0"
    by blast
  have "answers (service ?w0 (length (requests ?w0))) summary" "stdin ?w0 = l # x # a # rest"
    using assms(4,7) by simp_all
  from edit_menu_choice [OF this, of "constitutionPath ?P" pr "utf8 c"] assms(5)
  obtain w' where m: "edit_menu (constitutionPath ?P) pr (utf8 c) ?w0 =
        menu_tail 0 (constitutionPath ?P) pr (utf8 c) w'"
    and w': "fs w' = fs w" "stdin w' = x # a # rest" "service w' = service w"
      "requests w' = requests w @ [summaryPrompt pr (utf8 c)]"
    by auto
  from assms(1) have dir: "fs w (path_join ?P [''specai'']) = Some Dir"
    by (rule editableD)
  have "fst (overview_action (constitutionPath ?P) (utf8 c) w') = Inr () \<and>
        fs (snd (overview_action (constitutionPath ?P) (utf8 c) w')) =
          (fs w')(constitutionPath ?P \<mapsto> File (Text (appended (utf8 c) s)))"
    using w' assms(3,6,8) dir by (intro overview_confirmed) simp_all
  with h m w'(1) show ?thesis by (simp add: menu_tail_cases)
qed

lemma handle_notes_confirmed:
  assumes "editable (fs w) (resolveProjectDir (cwd w) args)"
    and "config_ok (fs w) (resolveProjectDir (cwd w) args)"
    and "fs w (constitutionPath (resolveProjectDir (cwd w) args)) = Some (File c)"
    and "stdin w = l # x # a # rest" "parseInt (trim l) = Some 3"
    and "toLowerCase (trim a) = ''y''"
    and "answers (service w (length (requests w))) summary"
  shows "fst (handleConstitution args w) = Inr () \<and>
         fs (snd (handleConstitution args w)) =
           (fs w)(constitutionPath (resolveProjectDir (cwd w) args) \<mapsto>
                    File (Text (appended (utf8 c) (trim x))))"
proof -
  let ?P = "resolveProjectDir (cwd w) args"
  let ?w0 = "w\<lparr>console := console w @ [Log ''SpecAI - Spec-Driven AI Development Framework'']\<rparr>"
  from enters_menu [OF assms(1,2,3)] obtain pr where
    h: "handleConstitution args w = edit_menu (constitutionPath ?P) pr (utf8 c) ?w0"
    by blast
  have "answers (service ?w0 (length (requests ?w0))) summary" "stdin ?w0 = l # x # a # rest"
    using assms(4,7) by simp_all
  from edit_menu_choice [OF this, of "constitutionPath ?P" pr "utf8 c"] assms(5)
  obtain w' where m: "edit_menu (constitutionPath ?P) pr (utf8 c) ?w0 =
        menu_tail 2 (constitutionPath ?P) pr (utf8 c) w'"
    and w': "fs w' = fs w" "stdin w' = x # a # rest"
    by auto
  from assms(1) have dir: "fs w (path_join ?P [''specai'']) = Some Dir"
    by (rule editableD)
  have "fst (notes_action (constitutionPath ?P) (utf8 c) w') = Inr () \<and>
        fs (snd (notes_action (constitutionPath ?P) (utf8 c) w')) =
          (fs w')(constitutionPath ?P \<mapsto> File (Text (appended (utf8 c) (trim x))))"
    using w' assms(3,6) dir by (intro notes_confirmed) simp_all
  with h m w'(1) show ?thesis by (simp add: menu_tail_cases)
qed

lemma draft_confirm_ok:
  assumes "stdin w = a # rest" "toLowerCase a = ''y''"
    and "fs w (path_join P [''specai'']) = Some Dir" "fs w (constitutionPath P) = Some (File c)"
  shows "fst (draft_confirm (constitutionPath P) t s w) = Inr () \<and>
         fs (snd (draft_confirm (constitutionPath P) t s w)) =
           (fs w)(constitutionPath P \<mapsto> File (Text (appended t s)))"
proof -
  let ?w1 = "w\<lparr>console := console w @ [Ask ''Apply this change? (y/n): ''], stdin := rest\<rparr>"
  from assms(1,2) have run: "draft_confirm (constitutionPath P) t s w =
      thn (fs_write (\<lambda>f. writeFileSync f (constitutionPath P) (Text (appended t s))))
          (console_log ''Change applied.'') ?w1"
    by (simp add: draft_confirm_def question_def bnd_def)
  from assms(3,4) have "fs ?w1 (path_join P [''specai'']) = Some Dir"
    "fs ?w1 (constitutionPath P) = Some (File c)" by simp_all
  from write_doc_ok [OF this] run show ?thesis by simp
qed

text \<open>
  C4, as the code has it. On an editable project whose document has the text \<open>t\<close>, a
  confirmed edit writes exactly \<open>trim t\<close>, one blank line, the accepted text and a final
  newline, where \<open>trim\<close> removes white space at both ends of \<open>t\<close>: the accepted text is
  the generated section (sub-action 1 of the menu), the operator's notes (sub-action 3), or,
  at the confirmation prompt of the earlier draft, its proposal.
\<close>

theorem confirmed_edit_writes:
  assumes "editable (fs w) (resolveProjectDir (cwd w) args)"
    and "fs w (constitutionPath (resolveProjectDir (cwd w) args)) = Some (File (Text t))"
  shows "(config_ok (fs w) (resolveProjectDir (cwd w) args) \<and>
          stdin w = l # x # a # rest \<and> parseInt (trim l) = Some 1 \<and>
          toLowerCase (trim a) = ''y'' \<and>
          answers (service w (length (requests w))) summary \<and>
          answers (service w (Suc (length (requests w)))) s \<longrightarrow>
          fst (handleConstitution args w) = Inr () \<and>
          fs (snd (handleConstitution args w)) =
            (fs w)(constitutionPath (resolveProjectDir (cwd w) args) \<mapsto>
                     File (Text (trim t @ ''\<newline>\<newline>'' @ s @ ''\<newline>'')))) \<and>
         (config_ok (fs w) (resolveProjectDir (cwd w) args) \<and>
          stdin w = l # x # a # rest \<and> parseInt (trim l) = Some 3 \<and>
          toLowerCase (trim a) = ''y'' \<and>
          answers (service w (length (requests w))) summary \<longrightarrow>
          fst (handleConstitution args w) = Inr () \<and>
          fs (snd (handleConstitution args w)) =
            (fs w)(constitutionPath (resolveProjectDir (cwd w) args) \<mapsto>
                     File (Text (trim t @ ''\<newline>\<newline>'' @ trim x @ ''\<newline>'')))) \<and>
         (stdin w = a # rest \<and> toLowerCase a = ''y'' \<longrightarrow>
          fst (draft_confirm (constitutionPath (resolveProjectDir (cwd w) args)) t s w) = Inr () \<and>
          fs (snd (draft_confirm (constitutionPath (resolveProjectDir (cwd w) args)) t s w)) =
            (fs w)(constitutionPath (resolveProjectDir (cwd w) args) \<mapsto>
                     File (Text (trim t @ ''\<newline>\<newline>'' @ s @ ''\<newline>''))))"
proof -
  from assms(1) have dir: "fs w (path_join (resolveProjectDir (cwd w) args) [''specai'']) = Some Dir"
    by (rule editableD)
  from handle_overview_confirmed [OF assms(1) _ assms(2), of l x a rest summary s]
    handle_notes_confirmed [OF assms(1) _ assms(2), of l x a rest summary]
    draft_confirm_ok [OF _ _ dir assms(2), of a rest t s]
  show ?thesis
    by (simp add: appended_def utf8_def)
qed

lemma example_project_editable:
  "editable (fs (project_world default_state doc lines svc))
     (resolveProjectDir (cwd (project_world default_state doc lines svc)) [])"
  "config_ok (fs (project_world default_state doc lines svc))
     (resolveProjectDir (cwd (project_world default_state doc lines svc)) [])"
  "fs (project_world default_state doc lines svc)
     (constitutionPath (resolveProjectDir (cwd (project_world default_state doc lines svc)) [])) =
     Some (File (Text doc))"
  "constitutionPath (resolveProjectDir (cwd (project_world default_state doc lines svc)) []) =
     [''work'', ''specai'', ''constitution.md'']"
  by (simp_all add: editable_def config_ok_def stored_state_def approved_constitution_def
      project_fields_def fs_defs example_defs)

theorem confirmed_edit_writes_witness:
  "fs (snd (handleConstitution []
         (project_world default_state ''# Constitution\<newline>''
            [''1'', ''A tool that keeps rules.'', ''y'']
            (\<lambda>n. completion ''## New Rule\<newline>Be concise.''))))
     [''work'', ''specai'', ''constitution.md''] =
   Some (File (Text ''# Constitution\<newline>\<newline>## New Rule\<newline>Be concise.\<newline>''))"
proof -
  let ?w = "project_world default_state ''# Constitution\<newline>''
              [''1'', ''A tool that keeps rules.'', ''y'']
              (\<lambda>n. completion ''## New Rule\<newline>Be concise.'')"
  let ?P = "resolveProjectDir (cwd ?w) []"
  note ex = example_project_editable
    [of "''# Constitution\<newline>''" "[''1'', ''A tool that keeps rules.'', ''y'']"
        "\<lambda>n. completion ''## New Rule\<newline>Be concise.''"]
  have e1: "editable (fs ?w) ?P" by (rule ex(1))
  have e2: "config_ok (fs ?w) ?P" by (rule ex(2))
  have e3: "fs ?w (constitutionPath ?P) = Some (File (Text ''# Constitution\<newline>''))"
    by (rule ex(3))
  have e4: "constitutionPath ?P = [''work'', ''specai'', ''constitution.md'']"
    by (rule ex(4))
  have lines: "stdin ?w = ''1'' # ''A tool that keeps rules.'' # ''y'' # []"
    by (simp add: example_defs)
  have choice: "parseInt (trim ''1'') = Some 1"
    by (simp add: string_defs)
  have yes: "toLowerCase (trim ''y'') = ''y''"
    by (simp add: toLowerCase_y trim_def is_space_def)
  have reply: "answers (service ?w n) ''## New Rule\<newline>Be concise.''" for n
    by (simp add: answers_def response_text_def fs_defs example_defs trim_def is_space_def)
  have tr: "trim ''# Constitution\<newline>'' = ''# Constitution''"
    by (simp add: trim_def is_space_def)
  note inst = confirmed_edit_writes [OF e1 e3, where l = "''1''"
      and x = "''A tool that keeps rules.''" and a = "''y''" and rest = "[]"
      and summary = "''## New Rule\<newline>Be concise.''" and s = "''## New Rule\<newline>Be concise.''"]
  from inst have "config_ok (fs ?w) ?P \<and>
          stdin ?w = ''1'' # ''A tool that keeps rules.'' # ''y'' # [] \<and>
          parseInt (trim ''1'') = Some 1 \<and> toLowerCase (trim ''y'') = ''y'' \<and>
          answers (service ?w (length (requests ?w))) ''## New Rule\<newline>Be concise.'' \<and>
          answers (service ?w (Suc (length (requests ?w)))) ''## New Rule\<newline>Be concise.'' \<longrightarrow>
          fst (handleConstitution [] ?w) = Inr () \<and>
          fs (snd (handleConstitution [] ?w)) =
            (fs ?w)(constitutionPath ?P \<mapsto>
               File (Text (trim ''# Constitution\<newline>'' @ ''\<newline>\<newline>'' @
                           ''## New Rule\<newline>Be concise.'' @ ''\<newline>'')))"
    by (rule conjunct1)
  moreover have "config_ok (fs ?w) ?P \<and>
          stdin ?w = ''1'' # ''A tool that keeps rules.'' # ''y'' # [] \<and>
          parseInt (trim ''1'') = Some 1 \<and> toLowerCase (trim ''y'') = ''y'' \<and>
          answers (service ?w (length (requests ?w))) ''## New Rule\<newline>Be concise.'' \<and>
          answers (service ?w (Suc (length (requests ?w)))) ''## New Rule\<newline>Be concise.''"
    using e2 lines choice yes reply by (intro conjI)
  ultimately have "fst (handleConstitution [] ?w) = Inr () \<and>
          fs (snd (handleConstitution [] ?w)) =
            (fs ?w)(constitutionPath ?P \<mapsto>
               File (Text (trim ''# Constitution\<newline>'' @ ''\<newline>\<newline>'' @
                           ''## New Rule\<newline>Be concise.'' @ ''\<newline>'')))"
    by (rule mp)
  then have "fs (snd (handleConstitution [] ?w)) (constitutionPath ?P) =
      Some (File (Text (trim ''# Constitution\<newline>'' @ ''\<newline>\<newline>'' @
                           ''## New Rule\<newline>Be concise.'' @ ''\<newline>'')))"
    by simp
  then show ?thesis unfolding e4 tr by simp
qed

theorem confirmed_edit_trims_both_ends_counterexample:
  "fs (snd (handleConstitution []
         (project_world default_state ''  # Constitution\<newline>''
            [''1'', ''A tool that keeps rules.'', ''y''] (\<lambda>n. completion ''ok''))))
     [''work'', ''specai'', ''constitution.md''] =
     Some (File (Text ''# Constitution\<newline>\<newline>ok\<newline>'')) \<and>
   spec_append ''  # Constitution\<newline>'' ''ok'' = ''  # Constitution\<newline>\<newline>ok\<newline>'' \<and>
   ''# Constitution\<newline>\<newline>ok\<newline>'' \<noteq> spec_append ''  # Constitution\<newline>'' ''ok''"
  by (simp add: run_defs prog_defs cmd_defs fs_defs example_defs string_defs Let_def
      appended_def toLowerCase_y trimEnd_def spec_append_def)

text \<open>
  C3, as the code has it. On an editable project whose document has the text \<open>t\<close>,
  confirming the accepted text \<open>s\<close> (the generated section, the operator's notes, or the
  proposal at the prompt of the earlier draft) leaves the document \<open>trim t\<close>, a blank line,
  \<open>s\<close> and a newline, where \<open>trim\<close> removes white space at both ends of \<open>t\<close>. The new
  document begins with \<open>trim t\<close> and is \<open>length s + 3\<close> longer than \<open>trim t\<close>; it is longer
  than \<open>t\<close> itself whenever \<open>t\<close> has at most \<open>length s + 2\<close> characters of surrounding
  white space. An answer that does not lower-case to \<open>y\<close> leaves the document, and every
  other file, unchanged.
\<close>

theorem confirmed_edit_appends:
  assumes "editable (fs w) (resolveProjectDir (cwd w) args)"
    and "fs w (constitutionPath (resolveProjectDir (cwd w) args)) = Some (File (Text t))"
  shows "(config_ok (fs w) (resolveProjectDir (cwd w) args) \<and>
          stdin w = l # x # a # rest \<and> parseInt (trim l) = Some 1 \<and>
          toLowerCase (trim a) = ''y'' \<and>
          answers (service w (length (requests w))) summary \<and>
          answers (service w (Suc (length (requests w)))) s \<longrightarrow>
          (\<exists>n. n = trim t @ ''\<newline>\<newline>'' @ s @ ''\<newline>'' \<and>
             fs (snd (handleConstitution args w))
               (constitutionPath (resolveProjectDir (cwd w) args)) = Some (File (Text n)) \<and>
             take (length (trim t)) n = trim t \<and>
             length n = length (trim t) + length s + 3 \<and>
             (length t \<le> length (trim t) + length s + 2 \<longrightarrow> length t < length n))) \<and>
         (config_ok (fs w) (resolveProjectDir (cwd w) args) \<and>
          stdin w = l # x # a # rest \<and> parseInt (trim l) = Some 3 \<and>
          toLowerCase (trim a) = ''y'' \<and>
          answers (service w (length (requests w))) summary \<longrightarrow>
          (\<exists>n. n = trim t @ ''\<newline>\<newline>'' @ trim x @ ''\<newline>'' \<and>
             fs (snd (handleConstitution args w))
               (constitutionPath (resolveProjectDir (cwd w) args)) = Some (File (Text n)) \<and>
             take (length (trim t)) n = trim t \<and>
             length n = length (trim t) + length (trim x) + 3 \<and>
             (length t \<le> length (trim t) + length (trim x) + 2 \<longrightarrow> length t < length n))) \<and>
         (stdin w = a # rest \<and> toLowerCase a = ''y'' \<longrightarrow>
          (\<exists>n. n = trim t @ ''\<newline>\<newline>'' @ s @ ''\<newline>'' \<and>
             fs (snd (draft_confirm (constitutionPath (resolveProjectDir (cwd w) args)) t s w))
               (constitutionPath (resolveProjectDir (cwd w) args)) = Some (File (Text n)) \<and>
             take (length (trim t)) n = trim t \<and>
             length n = length (trim t) + length s + 3 \<and>
             (length t \<le> length (trim t) + length s + 2 \<longrightarrow> length t < length n))) \<and>
         (\<forall>l' x' a' rest'. stdin w = l' # x' # a' # rest' \<and> toLowerCase (trim a') \<noteq> ''y'' \<longrightarrow>
            fs (snd (handleConstitution args w)) = fs w) \<and>
         (\<forall>a' rest'. stdin w = a' # rest' \<and> toLowerCase a' \<noteq> ''y'' \<longrightarrow>
            fs (snd (draft_confirm (constitutionPath (resolveProjectDir (cwd w) args)) t s w)) =
              fs w)"
proof -
  let ?D = "constitutionPath (resolveProjectDir (cwd w) args)"
  from assms(1) have dir: "fs w (path_join (resolveProjectDir (cwd w) args) [''specai'']) = Some Dir"
    by (rule editableD)
  have a: "config_ok (fs w) (resolveProjectDir (cwd w) args) \<and>
          stdin w = l # x # a # rest \<and> parseInt (trim l) = Some 1 \<and>
          toLowerCase (trim a) = ''y'' \<and>
          answers (service w (length (requests w))) summary \<and>
          answers (service w (Suc (length (requests w)))) s \<longrightarrow>
          (\<exists>n. n = trim t @ ''\<newline>\<newline>'' @ s @ ''\<newline>'' \<and>
             fs (snd (handleConstitution args w)) ?D = Some (File (Text n)) \<and>
             take (length (trim t)) n = trim t \<and>
             length n = length (trim t) + length s + 3 \<and>
             (length t \<le> length (trim t) + length s + 2 \<longrightarrow> length t < length n))"
    using handle_overview_confirmed [OF assms(1) _ assms(2), of l x a rest summary s]
    by (simp add: appended_def utf8_def)
  have b: "config_ok (fs w) (resolveProjectDir (cwd w) args) \<and>
          stdin w = l # x # a # rest \<and> parseInt (trim l) = Some 3 \<and>
          toLowerCase (trim a) = ''y'' \<and>
          answers (service w (length (requests w))) summary \<longrightarrow>
          (\<exists>n. n = trim t @ ''\<newline>\<newline>'' @ trim x @ ''\<newline>'' \<and>
             fs (snd (handleConstitution args w)) ?D = Some (File (Text n)) \<and>
             take (length (trim t)) n = trim t \<and>
             length n = length (trim t) + length (trim x) + 3 \<and>
             (length t \<le> length (trim t) + length (trim x) + 2 \<longrightarrow> length t < length n))"
    using handle_notes_confirmed [OF assms(1) _ assms(2), of l x a rest summary]
    by (simp add: appended_def utf8_def)
  have c: "stdin w = a # rest \<and> toLowerCase a = ''y'' \<longrightarrow>
          (\<exists>n. n = trim t @ ''\<newline>\<newline>'' @ s @ ''\<newline>'' \<and>
             fs (snd (draft_confirm ?D t s w)) ?D = Some (File (Text n)) \<and>
             take (length (trim t)) n = trim t \<and>
             length n = length (trim t) + length s + 3 \<and>
             (length t \<le> length (trim t) + length s + 2 \<longrightarrow> length t < length n))"
    using draft_confirm_ok [OF _ _ dir assms(2), of a rest t s]
    by (simp add: appended_def)
  have d: "\<forall>l' x' a' rest'. stdin w = l' # x' # a' # rest' \<and> toLowerCase (trim a') \<noteq> ''y'' \<longrightarrow>
            fs (snd (handleConstitution args w)) = fs w"
    using edit_changes_on_y [of args w] by auto
  have e: "\<forall>a' rest'. stdin w = a' # rest' \<and> toLowerCase a' \<noteq> ''y'' \<longrightarrow>
            fs (snd (draft_confirm ?D t s w)) = fs w"
    using draft_changes_on_y [of ?D t s w] by auto
  from a b c d e show ?thesis by (intro conjI)
qed

theorem confirmed_edit_appends_witness:
  "fs (snd (handleConstitution []
         (project_world default_state ''# Constitution\<newline>''
            [''3'', ''Keep it short.'', ''y''] (\<lambda>n. completion ''A summary.''))))
     [''work'', ''specai'', ''constitution.md''] =
     Some (File (Text ''# Constitution\<newline>\<newline>Keep it short.\<newline>'')) \<and>
   length ''# Constitution\<newline>'' < length ''# Constitution\<newline>\<newline>Keep it short.\<newline>'' \<and>
   fs (snd (handleConstitution []
         (project_world default_state ''# Constitution\<newline>''
            [''3'', ''Keep it short.'', ''no''] (\<lambda>n. completion ''A summary.'')))) =
   fs (project_world default_state ''# Constitution\<newline>''
         [''3'', ''Keep it short.'', ''no''] (\<lambda>n. completion ''A summary.''))"
proof -
  let ?w = "project_world default_state ''# Constitution\<newline>''
              [''3'', ''Keep it short.'', ''y''] (\<lambda>n. completion ''A summary.'')"
  let ?v = "project_world default_state ''# Constitution\<newline>''
              [''3'', ''Keep it short.'', ''no''] (\<lambda>n. completion ''A summary.'')"
  let ?P = "resolveProjectDir (cwd ?w) []"
  let ?Q = "resolveProjectDir (cwd ?v) []"
  note ex = example_project_editable
    [of "''# Constitution\<newline>''" "[''3'', ''Keep it short.'', ''y'']"
        "\<lambda>n. completion ''A summary.''"]
  note ev = example_project_editable
    [of "''# Constitution\<newline>''" "[''3'', ''Keep it short.'', ''no'']"
        "\<lambda>n. completion ''A summary.''"]
  have e1: "editable (fs ?w) ?P" by (rule ex(1))
  have e2: "config_ok (fs ?w) ?P" by (rule ex(2))
  have e3: "fs ?w (constitutionPath ?P) = Some (File (Text ''# Constitution\<newline>''))"
    by (rule ex(3))
  have e4: "constitutionPath ?P = [''work'', ''specai'', ''constitution.md'']"
    by (rule ex(4))
  have v1: "editable (fs ?v) ?Q" by (rule ev(1))
  have v3: "fs ?v (constitutionPath ?Q) = Some (File (Text ''# Constitution\<newline>''))"
    by (rule ev(3))
  have lines: "stdin ?w = ''3'' # ''Keep it short.'' # ''y'' # []"
    by (simp add: example_defs)
  have lines': "stdin ?v = ''3'' # ''Keep it short.'' # ''no'' # []"
    by (simp add: example_defs)
  have choice: "parseInt (trim ''3'') = Some 3"
    by (simp add: string_defs)
  have yes: "toLowerCase (trim ''y'') = ''y''"
    by (simp add: toLowerCase_y trim_def is_space_def)
  have no: "toLowerCase (trim ''no'') \<noteq> ''y''"
    by (simp add: toLowerCase_y trim_def is_space_def)
  have reply: "answers (service ?w n) ''A summary.''" for n
    by (simp add: answers_def response_text_def fs_defs example_defs trim_def is_space_def)
  have tr: "trim ''# Constitution\<newline>'' = ''# Constitution''"
    "trim ''Keep it short.'' = ''Keep it short.''"
    by (simp_all add: trim_def is_space_def)
  note inst = confirmed_edit_appends [OF e1 e3, where l = "''3''"
      and x = "''Keep it short.''" and a = "''y''" and rest = "[]"
      and summary = "''A summary.''" and s = "''A summary.''"]
  from inst have "config_ok (fs ?w) ?P \<and>
          stdin ?w = ''3'' # ''Keep it short.'' # ''y'' # [] \<and>
          parseInt (trim ''3'') = Some 3 \<and> toLowerCase (trim ''y'') = ''y'' \<and>
          answers (service ?w (length (requests ?w))) ''A summary.'' \<longrightarrow>
          (\<exists>n. n = trim ''# Constitution\<newline>'' @ ''\<newline>\<newline>'' @ trim ''Keep it short.'' @ ''\<newline>'' \<and>
             fs (snd (handleConstitution [] ?w)) (constitutionPath ?P) = Some (File (Text n)) \<and>
             take (length (trim ''# Constitution\<newline>'')) n = trim ''# Constitution\<newline>'' \<and>
             length n = length (trim ''# Constitution\<newline>'') + length (trim ''Keep it short.'') + 3 \<and>
             (length ''# Constitution\<newline>'' \<le>
                length (trim ''# Constitution\<newline>'') + length (trim ''Keep it short.'') + 2 \<longrightarrow>
              length ''# Constitution\<newline>'' < length n))"
    by (rule conjunct1 [OF conjunct2])
  moreover have "config_ok (fs ?w) ?P \<and>
          stdin ?w = ''3'' # ''Keep it short.'' # ''y'' # [] \<and>
          parseInt (trim ''3'') = Some 3 \<and> toLowerCase (trim ''y'') = ''y'' \<and>
          answers (service ?w (length (requests ?w))) ''A summary.''"
    using e2 lines choice yes reply by (intro conjI)
  ultimately have "\<exists>n. n = trim ''# Constitution\<newline>'' @ ''\<newline>\<newline>'' @ trim ''Keep it short.'' @ ''\<newline>'' \<and>
             fs (snd (handleConstitution [] ?w)) (constitutionPath ?P) = Some (File (Text n)) \<and>
             take (length (trim ''# Constitution\<newline>'')) n = trim ''# Constitution\<newline>'' \<and>
             length n = length (trim ''# Constitution\<newline>'') + length (trim ''Keep it short.'') + 3 \<and>
             (length ''# Constitution\<newline>'' \<le>
                length (trim ''# Constitution\<newline>'') + length (trim ''Keep it short.'') + 2 \<longrightarrow>
              length ''# Constitution\<newline>'' < length n)"
    by (rule mp)
  then have doc: "fs (snd (handleConstitution [] ?w)) [''work'', ''specai'', ''constitution.md''] =
      Some (File (Text ''# Constitution\<newline>\<newline>Keep it short.\<newline>''))"
    unfolding e4 tr by simp
  note inst' = confirmed_edit_appends [OF v1 v3, where l = "''3''"
      and x = "''Keep it short.''" and a = "''no''" and rest = "[]"
      and summary = "''A summary.''" and s = "''A summary.''"]
  from inst' have "\<forall>l' x' a' rest'. stdin ?v = l' # x' # a' # rest' \<and>
        toLowerCase (trim a') \<noteq> ''y'' \<longrightarrow> fs (snd (handleConstitution [] ?v)) = fs ?v"
    by (rule conjunct1 [OF conjunct2 [OF conjunct2 [OF conjunct2]]])
  with lines' no have same: "fs (snd (handleConstitution [] ?v)) = fs ?v"
    by blast
  from doc same show ?thesis by simp
qed

theorem confirmed_edit_shrinks_counterexample:
  "fs (project_world default_state ''\<newline># Constitution\<newline>\<newline>\<newline>\<newline>\<newline>''
         [''1'', ''A tool that keeps rules.'', ''y''] (\<lambda>n. completion ''ok''))
     [''work'', ''specai'', ''constitution.md''] =
     Some (File (Text ''\<newline># Constitution\<newline>\<newline>\<newline>\<newline>\<newline>'')) \<and>
   fs (snd (handleConstitution []
         (project_world default_state ''\<newline># Constitution\<newline>\<newline>\<newline>\<newline>\<newline>''
            [''1'', ''A tool that keeps rules.'', ''y''] (\<lambda>n. completion ''ok''))))
     [''work'', ''specai'', ''constitution.md''] =
     Some (File (Text ''# Constitution\<newline>\<newline>ok\<newline>'')) \<and>
   length ''# Constitution\<newline>\<newline>ok\<newline>'' <
     length ''\<newline># Constitution\<newline>\<newline>\<newline>\<newline>\<newline>'' \<and>
   take (length (trimEnd ''\<newline># Constitution\<newline>\<newline>\<newline>\<newline>\<newline>''))
     ''# Constitution\<newline>\<newline>ok\<newline>'' \<noteq>
     trimEnd ''\<newline># Constitution\<newline>\<newline>\<newline>\<newline>\<newline>''"
  by (simp add: run_defs prog_defs cmd_defs fs_defs example_defs string_defs Let_def
      appended_def toLowerCase_y trimEnd_def)

subsection \<open>A failed generation\<close>

lemma quiet_ret: "quiet (ret a)"
  by (simp add: quiet_def ret_def)

lemma quiet_emit: "quiet (emit ls)"
  by (simp add: quiet_def emit_def)

lemma quiet_console_log: "quiet (console_log s)"
  by (simp add: quiet_def console_log_def emit_def)

lemma quiet_ask: "quiet (ask q)"
  by (simp add: quiet_def ask_run split: list.splits)

lemma quiet_choose_menu: "quiet (choose_menu pr opts)"
  by (simp add: quiet_def choose_menu_run split: list.splits)

lemma quiet_fs_write: "quiet (fs_write g)"
  by (simp add: quiet_def fs_write_def throw_def split: sum.splits)

lemma quiet_bnd:
  assumes "quiet m" "\<And>a. quiet (k a)"
  shows "quiet (bnd m k)"
  unfolding quiet_def
proof
  fix w
  obtain r w1 where mw: "m w = (r, w1)" by (cases "m w")
  from assms(1) have "requests (snd (m w)) = requests w \<and> service (snd (m w)) = service w"
    by (simp add: quiet_def)
  with mw have w1: "requests w1 = requests w" "service w1 = service w" by simp_all
  show "requests (snd (bnd m k w)) = requests w \<and> service (snd (bnd m k w)) = service w"
  proof (cases r)
    case (Inl e)
    with mw w1 show ?thesis by (simp add: bnd_def)
  next
    case (Inr a)
    from assms(2) [of a] have "requests (snd (k a w1)) = requests w1 \<and>
        service (snd (k a w1)) = service w1"
      by (simp add: quiet_def)
    with Inr mw w1 show ?thesis by (simp add: bnd_def)
  qed
qed

lemma quiet_thn: "quiet m \<Longrightarrow> quiet k \<Longrightarrow> quiet (thn m k)"
  unfolding thn_def by (rule quiet_bnd)

lemma quiet_if: "quiet m \<Longrightarrow> quiet k \<Longrightarrow> quiet (if b then m else k)"
  by simp

lemma keeps_fs_ask: "keeps_fs (ask q)"
  by (simp add: keeps_fs_def ask_fs)

lemma keeps_fs_emit: "keeps_fs (emit ls)"
  by (simp add: keeps_fs_def emit_fs)

lemma keeps_fs_callQwen: "keeps_fs (callQwen p)"
  by (simp add: keeps_fs_def callQwen_snd)

lemma keeps_fs_choose_menu: "keeps_fs (choose_menu pr opts)"
  by (simp add: keeps_fs_def choose_menu_run split: list.splits)

lemma fatal_quiet:
  assumes "quiet m"
  shows "fatal_on_failure m"
  unfolding fatal_on_failure_def
proof
  fix w
  from assms have "requests (snd (m w)) = requests w \<and> service (snd (m w)) = service w"
    by (simp add: quiet_def)
  then show "service (snd (m w)) = service w \<and>
          length (requests w) \<le> length (requests (snd (m w))) \<and>
          (\<forall>i e. length (requests w) \<le> i \<and> i < length (requests (snd (m w))) \<and>
                 generation_failure (service w i) = Some e \<longrightarrow>
                 fst (m w) = Inl (Uncaught e) \<and>
                 length (requests (snd (m w))) = Suc i \<and>
                 fs (snd (m w)) = fs w)"
    by auto
qed

lemma callQwen_failure:
  assumes "generation_failure (service w (length (requests w))) = Some e"
  shows "callQwen p w = (Inl (Uncaught e), w\<lparr>requests := requests w @ [p]\<rparr>)"
proof (cases "service w (length (requests w))")
  case Unreachable
  with assms show ?thesis
    by (simp add: generation_failure_def callQwen_def throw_def)
next
  case (Response ok body)
  with assms show ?thesis
    by (simp add: generation_failure_def callQwen_def throw_def split: if_splits)
qed

lemma fatal_callQwen: "fatal_on_failure (callQwen p)"
  unfolding fatal_on_failure_def
proof (intro allI conjI impI)
  fix w
  show "service (snd (callQwen p w)) = service w"
    by (simp add: callQwen_snd)
  show "length (requests w) \<le> length (requests (snd (callQwen p w)))"
    by (simp add: callQwen_snd)
next
  fix w i e
  assume a: "length (requests w) \<le> i \<and> i < length (requests (snd (callQwen p w))) \<and>
             generation_failure (service w i) = Some e"
  then have i: "i = length (requests w)"
    by (simp add: callQwen_snd)
  with a have "generation_failure (service w (length (requests w))) = Some e" by simp
  then have run: "callQwen p w = (Inl (Uncaught e), w\<lparr>requests := requests w @ [p]\<rparr>)"
    by (rule callQwen_failure)
  from run show "fst (callQwen p w) = Inl (Uncaught e)" by simp
  from run i show "length (requests (snd (callQwen p w))) = Suc i" by simp
  from run show "fs (snd (callQwen p w)) = fs w" by simp
qed

lemma fatalD:
  assumes "fatal_on_failure m"
  shows "service (snd (m w)) = service w"
    and "length (requests w) \<le> length (requests (snd (m w)))"
    and "length (requests w) \<le> i \<Longrightarrow> i < length (requests (snd (m w))) \<Longrightarrow>
         generation_failure (service w i) = Some e \<Longrightarrow>
         fst (m w) = Inl (Uncaught e) \<and> length (requests (snd (m w))) = Suc i \<and>
         fs (snd (m w)) = fs w"
proof -
  from assms have all: "service (snd (m w)) = service w \<and>
          length (requests w) \<le> length (requests (snd (m w))) \<and>
          (\<forall>i e. length (requests w) \<le> i \<and> i < length (requests (snd (m w))) \<and>
                 generation_failure (service w i) = Some e \<longrightarrow>
                 fst (m w) = Inl (Uncaught e) \<and>
                 length (requests (snd (m w))) = Suc i \<and>
                 fs (snd (m w)) = fs w)"
    unfolding fatal_on_failure_def by (rule spec)
  from all show "service (snd (m w)) = service w" by (rule conjunct1)
  from all show "length (requests w) \<le> length (requests (snd (m w)))"
    by (rule conjunct1 [OF conjunct2])
  from all have "\<forall>i e. length (requests w) \<le> i \<and> i < length (requests (snd (m w))) \<and>
                 generation_failure (service w i) = Some e \<longrightarrow>
                 fst (m w) = Inl (Uncaught e) \<and>
                 length (requests (snd (m w))) = Suc i \<and>
                 fs (snd (m w)) = fs w"
    by (rule conjunct2 [OF conjunct2])
  then show "length (requests w) \<le> i \<Longrightarrow> i < length (requests (snd (m w))) \<Longrightarrow>
         generation_failure (service w i) = Some e \<Longrightarrow>
         fst (m w) = Inl (Uncaught e) \<and> length (requests (snd (m w))) = Suc i \<and>
         fs (snd (m w)) = fs w"
    by simp
qed

lemma fatal_bnd:
  assumes m: "fatal_on_failure m" and keep: "keeps_fs m" and k: "\<And>a. fatal_on_failure (k a)"
  shows "fatal_on_failure (bnd m k)"
  unfolding fatal_on_failure_def
proof
  fix w
  obtain r w1 where mw: "m w = (r, w1)" by (cases "m w")
  from fatalD(1) [OF m, of w] mw have s1: "service w1 = service w" by simp
  from fatalD(2) [OF m, of w] mw have l1: "length (requests w) \<le> length (requests w1)" by simp
  from keep mw have f1: "fs w1 = fs w"
    by (auto simp: keeps_fs_def dest: spec [of _ w])
  show "service (snd (bnd m k w)) = service w \<and>
          length (requests w) \<le> length (requests (snd (bnd m k w))) \<and>
          (\<forall>i e. length (requests w) \<le> i \<and> i < length (requests (snd (bnd m k w))) \<and>
                 generation_failure (service w i) = Some e \<longrightarrow>
                 fst (bnd m k w) = Inl (Uncaught e) \<and>
                 length (requests (snd (bnd m k w))) = Suc i \<and>
                 fs (snd (bnd m k w)) = fs w)"
  proof (cases r)
    case (Inl e0)
    with mw have eq: "bnd m k w = (Inl e0, w1)" by (simp add: bnd_def)
    have c: "Inl e0 = Inl (Uncaught e) \<and> length (requests w1) = Suc i \<and> fs w1 = fs w"
      if a: "length (requests w) \<le> i" "i < length (requests w1)"
        "generation_failure (service w i) = Some e" for i e
      using fatalD(3) [OF m, of w i e] a mw Inl by simp
    show ?thesis
      unfolding eq using s1 l1 c by auto
  next
    case (Inr a)
    with mw have eq: "bnd m k w = k a w1" by (simp add: bnd_def)
    have s2: "service (snd (k a w1)) = service w"
      using fatalD(1) [OF k [of a], of w1] s1 by simp
    have l2: "length (requests w) \<le> length (requests (snd (k a w1)))"
      using fatalD(2) [OF k [of a], of w1] l1 by simp
    have c: "fst (k a w1) = Inl (Uncaught e) \<and>
             length (requests (snd (k a w1))) = Suc i \<and> fs (snd (k a w1)) = fs w"
      if a: "length (requests w) \<le> i" "i < length (requests (snd (k a w1)))"
        "generation_failure (service w i) = Some e" for i e
    proof (cases "i < length (requests w1)")
      case True
      with fatalD(3) [OF m, of w i e] a mw have "r = Inl (Uncaught e)" by simp
      with Inr show ?thesis by simp
    next
      case False
      then have "length (requests w1) \<le> i" by simp
      moreover from a(3) s1 have "generation_failure (service w1 i) = Some e" by simp
      ultimately have "fst (k a w1) = Inl (Uncaught e) \<and>
          length (requests (snd (k a w1))) = Suc i \<and> fs (snd (k a w1)) = fs w1"
        using a(2) by (intro fatalD(3) [OF k])
      with f1 show ?thesis by simp
    qed
    show ?thesis
      unfolding eq using s2 l2 c by blast
  qed
qed

lemma fatal_thn:
  "fatal_on_failure m \<Longrightarrow> keeps_fs m \<Longrightarrow> fatal_on_failure k \<Longrightarrow> fatal_on_failure (thn m k)"
  unfolding thn_def by (rule fatal_bnd)

lemma quiet_confirm:
  "quiet (bnd (ask q) (\<lambda>answer.
     if toLowerCase answer = ''y''
     then thn (fs_write g) (console_log a) else console_log b))"
  by (intro quiet_bnd quiet_ask quiet_if quiet_thn quiet_fs_write quiet_console_log)

lemma fatal_overview: "fatal_on_failure (overview_action D t)"
  unfolding overview_action_def
  by (intro fatal_bnd fatal_quiet quiet_ask keeps_fs_ask fatal_callQwen keeps_fs_callQwen
      quiet_thn quiet_emit quiet_confirm)

lemma fatal_questions: "fatal_on_failure (questions_action pr t)"
  unfolding questions_action_def
  by (intro fatal_bnd fatal_callQwen keeps_fs_callQwen fatal_quiet quiet_emit)

lemma fatal_notes: "fatal_on_failure (notes_action D t)"
  unfolding notes_action_def
  by (intro fatal_quiet quiet_bnd quiet_ask quiet_confirm)

lemma fatal_menu_tail: "fatal_on_failure (menu_tail c D pr t)"
  unfolding menu_tail_cases
  by (simp add: fatal_overview fatal_questions fatal_notes fatal_quiet quiet_console_log
      quiet_ret)

lemma fatal_edit_menu: "fatal_on_failure (edit_menu D pr t)"
  unfolding edit_menu_unfold
  by (intro fatal_bnd fatal_thn fatal_callQwen keeps_fs_callQwen fatal_quiet quiet_emit
      keeps_fs_emit quiet_choose_menu keeps_fs_choose_menu fatal_menu_tail)

text \<open>
  C9. When a request of a run of \<open>handleConstitution\<close> gets no reply (the service cannot be
  reached) or a reply that is not \<open>ok\<close>, the run ends with the exception \<open>callQwen\<close> throws
  for that reply, which nobody catches, so the process ends with a non-zero exit code; the
  failed request is the last one the run sends, and the file system, with the constitution
  and the state record, is as it was before the run.
\<close>

theorem failed_generation_is_fatal:
  assumes "length (requests w) \<le> i"
    and "i < length (requests (snd (handleConstitution args w)))"
    and "generation_failure (service w i) = Some e"
  shows "fst (handleConstitution args w) = Inl (Uncaught e) \<and>
         exit_code (Uncaught e) \<noteq> 0 \<and>
         length (requests (snd (handleConstitution args w))) = Suc i \<and>
         fs (snd (handleConstitution args w)) = fs w"
proof -
  let ?D = "constitutionPath (resolveProjectDir (cwd w) args)"
  let ?w0 = "w\<lparr>console := console w @ [Log ''SpecAI - Spec-Driven AI Development Framework'']\<rparr>"
  from handleConstitution_cases [of args w] show ?thesis
  proof
    assume "fs (snd (handleConstitution args w)) = fs w \<and>
      requests (snd (handleConstitution args w)) = requests w \<and>
      (\<exists>e. fst (handleConstitution args w) = Inl e)"
    with assms(1,2) show ?thesis by simp
  next
    assume "\<exists>pr c. fs w ?D = Some (File c) \<and>
      handleConstitution args w = edit_menu ?D pr (utf8 c) ?w0"
    then obtain pr c where run: "handleConstitution args w = edit_menu ?D pr (utf8 c) ?w0"
      by blast
    have "fst (edit_menu ?D pr (utf8 c) ?w0) = Inl (Uncaught e) \<and>
          length (requests (snd (edit_menu ?D pr (utf8 c) ?w0))) = Suc i \<and>
          fs (snd (edit_menu ?D pr (utf8 c) ?w0)) = fs ?w0"
      using assms unfolding run
      by (intro fatalD(3) [OF fatal_edit_menu]) simp_all
    with run show ?thesis by simp
  qed
qed

lemma example_failed_run:
  "length (requests (snd (handleConstitution []
      (project_world default_state scaffold [''2'']
         (\<lambda>n. if n = 0 then completion ''A summary.''
              else Response False (Text ''model not found'')))))) = 2"
  by (simp add: run_defs prog_defs cmd_defs fs_defs example_defs string_defs Let_def)

theorem failed_generation_is_fatal_witness:
  "fst (handleConstitution []
      (project_world default_state scaffold [''2'']
         (\<lambda>n. if n = 0 then completion ''A summary.''
              else Response False (Text ''model not found'')))) =
     Inl (Uncaught (OllamaError ''model not found'')) \<and>
   fs (snd (handleConstitution []
      (project_world default_state scaffold [''2'']
         (\<lambda>n. if n = 0 then completion ''A summary.''
              else Response False (Text ''model not found''))))) =
     fs (project_world default_state scaffold [''2'']
         (\<lambda>n. if n = 0 then completion ''A summary.''
              else Response False (Text ''model not found'')))"
proof -
  let ?w = "project_world default_state scaffold [''2'']
         (\<lambda>n. if n = 0 then completion ''A summary.''
              else Response False (Text ''model not found''))"
  have a: "length (requests ?w) \<le> 1"
    by (simp add: example_defs)
  have b: "1 < length (requests (snd (handleConstitution [] ?w)))"
    unfolding example_failed_run by simp
  have c: "generation_failure (service ?w 1) = Some (OllamaError ''model not found'')"
    by (simp add: generation_failure_def example_defs utf8_def)
  from failed_generation_is_fatal [OF a b c] show ?thesis by simp
qed

subsection \<open>What clears the lock\<close>

lemma statePath_inj: "statePath P' = statePath P \<longleftrightarrow> P' = P"
  by (simp add: statePath_def path_join_def)

lemma statePath_neq_config: "statePath P \<noteq> configPath T"
  by (simp add: statePath_def configPath_def path_join_def)

lemma handleStatus_fs: "fs (snd (handleStatus w)) = fs w"
  by (simp add: handleStatus_def thn_printHeader console_log_def emit_def)

lemma help_fs: "fs (snd (thn printHeader printHelp w)) = fs w"
  by (simp add: thn_printHeader printHelp_def console_log_def emit_def)

lemma unknown_fs:
  "fs (snd (thn printHeader (thn (console_error s) (thn printHelp (process_exit 1))) w)) = fs w"
  unfolding thn_printHeader
  by (simp add: thn_def bnd_def printHelp_def console_log_def console_error_def
      emit_def process_exit_def)

lemma set_flag_other:
  assumes "fs w (statePath P) = Some (File (Json st))"
    and "approved_constitution st = Inr (Some (JBool v'))"
    and "resolveProjectDir (cwd w) args \<noteq> P \<or> v = v'"
  shows "fs (snd (set_flag_cmd v msg args w)) (statePath P) = fs w (statePath P)"
  using set_flag_effect [of v msg args w]
proof
  assume "fs (snd (set_flag_cmd v msg args w)) = fs w"
  then show ?thesis by simp
next
  assume "\<exists>st0 st'. stored_state (fs w) (resolveProjectDir (cwd w) args) = Some st0 \<and>
      set_approved_constitution st0 v = Inr st' \<and>
      fs (snd (set_flag_cmd v msg args w)) =
        (fs w)(statePath (resolveProjectDir (cwd w) args) \<mapsto> File (Json st'))"
  then obtain st0 st' where st0: "stored_state (fs w) (resolveProjectDir (cwd w) args) = Some st0"
    and set: "set_approved_constitution st0 v = Inr st'"
    and upd: "fs (snd (set_flag_cmd v msg args w)) =
        (fs w)(statePath (resolveProjectDir (cwd w) args) \<mapsto> File (Json st'))"
    by blast
  show ?thesis
  proof (cases "resolveProjectDir (cwd w) args = P")
    case False
    then have "statePath (resolveProjectDir (cwd w) args) \<noteq> statePath P"
      by (simp add: statePath_inj)
    with upd show ?thesis by simp
  next
    case True
    with assms(3) have v: "v = v'" by simp
    from True st0 assms(1) have "st0 = st" by (simp add: stored_state_Some)
    moreover from assms(2) v have "set_approved_constitution st v = Inr st"
      by (intro set_flag_locked) simp
    ultimately have "st' = st" using set by simp
    with upd True assms(1) show ?thesis by simp
  qed
qed

lemma init_keeps_state:
  assumes "fs w (statePath P) = Some (File c)"
    and "\<not> (''--force'' \<in> set args \<and>
             (\<exists>p. find_pathArg args = Some p \<and> path_resolve (cwd w) p = P))"
  shows "fs (snd (handleInit args w)) (statePath P) = fs w (statePath P)"
proof -
  have "untouched (statePath P) w (snd (handleInit args w))"
  proof (rule untouched_handleInit, intro impI allI)
    fix p
    assume "''--force'' \<in> set args" "find_pathArg args = Some p"
    with assms(2) have "path_resolve (cwd w) p \<noteq> P" by blast
    then show "statePath P \<noteq> configPath (path_resolve (cwd w) p) \<and>
         statePath P \<noteq> constitutionPath (path_resolve (cwd w) p) \<and>
         statePath P \<noteq> statePath (path_resolve (cwd w) p)"
      by (simp add: statePath_inj statePath_neq_config statePath_neq_doc)
  qed
  with assms(1) show ?thesis
    by (simp add: untouched_def is_file_def)
qed

lemma constitution_keeps_state:
  "fs (snd (handleConstitution args w)) (statePath P) = fs w (statePath P)"
  using handleConstitution_effect [of args w]
  by (auto simp: statePath_neq_doc)

lemma main_keeps_lock:
  assumes "fs w (statePath P) = Some (File (Json st))"
    and "approved_constitution st = Inr (Some (JBool True))"
  shows "fs (snd (main argv w)) (statePath P) = fs w (statePath P) \<or>
         (\<exists>rest. argv = ''unlock'' # ''constitution'' # rest \<and>
                 resolveProjectDir (cwd w) rest = P) \<or>
         (\<exists>rest p. argv = ''init'' # rest \<and> ''--force'' \<in> set rest \<and>
                   find_pathArg rest = Some p \<and> path_resolve (cwd w) p = P)"
proof (cases argv)
  case Nil
  then show ?thesis by (simp add: main_def help_fs)
next
  case (Cons command rest)
  consider (c_help) "command = [] \<or> command = ''help'' \<or> command = ''--help''"
    | (c_init) "command = ''init''"
    | (c_status) "command = ''status''"
    | (c_constitution) "command = ''constitution''"
    | (c_approve) "command = ''approve''"
    | (c_unlock) "command = ''unlock''"
    | (c_other) "command \<noteq> []" "command \<noteq> ''help''" "command \<noteq> ''--help''"
        "command \<noteq> ''init''" "command \<noteq> ''status''" "command \<noteq> ''constitution''"
        "command \<noteq> ''approve''" "command \<noteq> ''unlock''"
    by blast
  then show ?thesis
  proof cases
    case c_help
    with Cons have "main argv w = thn printHeader printHelp w"
      by (auto simp: main_def)
    then show ?thesis by (simp add: help_fs)
  next
    case c_init
    with Cons have run: "main argv w = handleInit rest w"
      by (simp add: main_def)
    show ?thesis
    proof (cases "''--force'' \<in> set rest \<and>
                  (\<exists>p. find_pathArg rest = Some p \<and> path_resolve (cwd w) p = P)")
      case True
      with Cons c_init show ?thesis by blast
    next
      case False
      with assms(1) have "fs (snd (handleInit rest w)) (statePath P) = fs w (statePath P)"
        by (rule init_keeps_state)
      with run show ?thesis by simp
    qed
  next
    case c_status
    with Cons have "main argv w = handleStatus w"
      by (simp add: main_def)
    then show ?thesis by (simp add: handleStatus_fs)
  next
    case c_constitution
    with Cons have "main argv w = handleConstitution rest w"
      by (simp add: main_def)
    then show ?thesis by (simp add: constitution_keeps_state)
  next
    case c_approve
    show ?thesis
    proof (cases "rest \<noteq> [] \<and> hd rest = ''constitution''")
      case True
      with Cons c_approve have "main argv w =
          set_flag_cmd True ''Constitution approved and locked.'' (tl rest) w"
        by (simp add: main_def approve_set_flag)
      moreover have "fs (snd (set_flag_cmd True ''Constitution approved and locked.'' (tl rest) w))
          (statePath P) = fs w (statePath P)"
        using assms by (rule set_flag_other) simp
      ultimately show ?thesis by simp
    next
      case False
      with Cons c_approve have "main argv w = console_error ''Unknown approve target.'' w"
        by (auto simp: main_def)
      then show ?thesis by (simp add: console_error_def emit_def)
    qed
  next
    case c_unlock
    show ?thesis
    proof (cases "rest \<noteq> [] \<and> hd rest = ''constitution''")
      case True
      then have rest: "rest = ''constitution'' # tl rest" by (cases rest) simp_all
      from True Cons c_unlock have run: "main argv w =
          set_flag_cmd False ''Constitution unlocked.'' (tl rest) w"
        by (simp add: main_def unlock_set_flag)
      show ?thesis
      proof (cases "resolveProjectDir (cwd w) (tl rest) = P")
        case True
        from Cons c_unlock rest have "argv = ''unlock'' # ''constitution'' # tl rest" by simp
        with True show ?thesis by blast
      next
        case False
        have "fs (snd (set_flag_cmd False ''Constitution unlocked.'' (tl rest) w))
            (statePath P) = fs w (statePath P)"
          using assms by (rule set_flag_other) (simp add: False)
        with run show ?thesis by simp
      qed
    next
      case False
      with Cons c_unlock have "main argv w = console_error ''Unknown unlock target.'' w"
        by (auto simp: main_def)
      then show ?thesis by (simp add: console_error_def emit_def)
    qed
  next
    case c_other
    with Cons have run: "main argv w =
        thn printHeader (thn (console_error (''Unknown command: '' @ command))
          (thn printHelp (process_exit 1))) w"
      by (simp add: main_def)
    have "fs (snd (main argv w)) = fs w"
      unfolding run by (rule unknown_fs)
    then show ?thesis by simp
  qed
qed

text \<open>
  C1, as the code has it. On a project whose state record has \<open>approved.constitution\<close>
  \<open>true\<close>, the \<open>constitution\<close> command, in the current program and in the earlier draft,
  prints the header and the two lines of the locked message and exits with code 1: the check
  comes before the menu, so no sub-action is reached, no request is sent, no question is
  asked and nothing is written. (The lines are recorded without the cross mark the source
  prints in front of the first.) Whatever command the current program is given, the flag is
  still \<open>true\<close> afterwards, unless the command is \<open>unlock constitution\<close> for this project or
  \<open>init --force\<close> on its directory.
\<close>

theorem locked_constitution_is_refused:
  assumes "stored_flag (fs w) P ''constitution'' = Some (JBool True)"
  shows "\<exists>hdr. printHeader w = (Inr (), w\<lparr>console := console w @ [hdr]\<rparr>) \<and>
     (resolveProjectDir (cwd w) args = P \<longrightarrow>
        handleConstitution args w =
          (Inl (Exit 1),
           w\<lparr>console := console w @
               [hdr, Err ''Constitution is locked.'',
                Err ''Use `specai unlock constitution <path>` to modify it.'']\<rparr>) \<and>
        handleConstitution2 execSync args w =
          (Inl (Exit 1),
           w\<lparr>console := console w @
               [hdr, Err ''Constitution is locked.'',
                Err ''Use `specai unlock constitution` to modify it.'']\<rparr>) \<and>
        exit_code (Exit 1) \<noteq> 0) \<and>
     (stored_flag (fs (snd (main argv w))) P ''constitution'' = Some (JBool True) \<or>
      (\<exists>rest. argv = ''unlock'' # ''constitution'' # rest \<and>
              resolveProjectDir (cwd w) rest = P) \<or>
      (\<exists>rest p. argv = ''init'' # rest \<and> ''--force'' \<in> set rest \<and>
                find_pathArg rest = Some p \<and> path_resolve (cwd w) p = P))"
proof -
  let ?hdr = "Log ''SpecAI - Spec-Driven AI Development Framework''"
  have hdr: "printHeader w = (Inr (), w\<lparr>console := console w @ [?hdr]\<rparr>)"
    by (simp add: printHeader_def console_log_def emit_def)
  have locked: "resolveProjectDir (cwd w) args = P \<longrightarrow>
        handleConstitution args w =
          (Inl (Exit 1),
           w\<lparr>console := console w @
               [?hdr, Err ''Constitution is locked.'',
                Err ''Use `specai unlock constitution <path>` to modify it.'']\<rparr>) \<and>
        handleConstitution2 execSync args w =
          (Inl (Exit 1),
           w\<lparr>console := console w @
               [?hdr, Err ''Constitution is locked.'',
                Err ''Use `specai unlock constitution` to modify it.'']\<rparr>) \<and>
        exit_code (Exit 1) \<noteq> 0"
  proof
    assume P: "resolveProjectDir (cwd w) args = P"
    with assms have fl: "stored_flag (fs w) (resolveProjectDir (cwd w) args) ''constitution'' =
        Some (JBool True)" by simp
    have t: "truthy (Some (JBool True))" by simp
    from locked_run [OF fl t] locked_run2 [OF fl t, of execSync]
    show "handleConstitution args w =
          (Inl (Exit 1),
           w\<lparr>console := console w @
               [?hdr, Err ''Constitution is locked.'',
                Err ''Use `specai unlock constitution <path>` to modify it.'']\<rparr>) \<and>
        handleConstitution2 execSync args w =
          (Inl (Exit 1),
           w\<lparr>console := console w @
               [?hdr, Err ''Constitution is locked.'',
                Err ''Use `specai unlock constitution` to modify it.'']\<rparr>) \<and>
        exit_code (Exit 1) \<noteq> 0"
      by simp
  qed
  from assms obtain st where fl: "fs w (statePath P) = Some (File (Json st))"
    and ap: "approved_constitution st = Inr (Some (JBool True))"
    by (rule stored_flagD)
  have kept: "stored_flag (fs (snd (main argv w))) P ''constitution'' = Some (JBool True) \<or>
      (\<exists>rest. argv = ''unlock'' # ''constitution'' # rest \<and>
              resolveProjectDir (cwd w) rest = P) \<or>
      (\<exists>rest p. argv = ''init'' # rest \<and> ''--force'' \<in> set rest \<and>
                find_pathArg rest = Some p \<and> path_resolve (cwd w) p = P)"
    using main_keeps_lock [OF fl ap, of argv]
  proof (elim disjE)
    assume "fs (snd (main argv w)) (statePath P) = fs w (statePath P)"
    with assms have "stored_flag (fs (snd (main argv w))) P ''constitution'' = Some (JBool True)"
      by (simp add: stored_flag_def stored_state_def)
    then show ?thesis by (rule disjI1)
  next
    assume "\<exists>rest. argv = ''unlock'' # ''constitution'' # rest \<and>
              resolveProjectDir (cwd w) rest = P"
    then show ?thesis by (intro disjI2 disjI1)
  next
    assume "\<exists>rest p. argv = ''init'' # rest \<and> ''--force'' \<in> set rest \<and>
                find_pathArg rest = Some p \<and> path_resolve (cwd w) p = P"
    then show ?thesis by (intro disjI2)
  qed
  from hdr locked kept show ?thesis
    by (intro exI [of _ ?hdr] conjI)
qed

lemma example_locked:
  "stored_flag (fs (project_world locked_state scaffold lines svc)) [''work''] ''constitution'' =
     Some (JBool True)"
  "resolveProjectDir (cwd (project_world locked_state scaffold lines svc)) [] = [''work'']"
  by (simp_all add: stored_flag_def stored_state_def approved_flag_def fs_defs example_defs)

theorem locked_constitution_is_refused_witness:
  "fst (handleConstitution [] (project_world locked_state scaffold [''1''] (\<lambda>n. Unreachable))) =
     Inl (Exit 1) \<and>
   fs (snd (handleConstitution []
              (project_world locked_state scaffold [''1''] (\<lambda>n. Unreachable)))) =
     fs (project_world locked_state scaffold [''1''] (\<lambda>n. Unreachable)) \<and>
   requests (snd (handleConstitution []
              (project_world locked_state scaffold [''1''] (\<lambda>n. Unreachable)))) = [] \<and>
   stored_flag
     (fs (snd (main [''approve'', ''constitution'']
                 (project_world locked_state scaffold [''1''] (\<lambda>n. Unreachable)))))
     [''work''] ''constitution'' = Some (JBool True)"
proof -
  let ?w = "project_world locked_state scaffold [''1''] (\<lambda>n. Unreachable)"
  note inst = locked_constitution_is_refused [OF example_locked(1),
      of "[''1'']" "\<lambda>n. Unreachable" "[]" _ "[''approve'', ''constitution'']"]
  from inst obtain hdr where all:
    "printHeader ?w = (Inr (), ?w\<lparr>console := console ?w @ [hdr]\<rparr>) \<and>
     (resolveProjectDir (cwd ?w) [] = [''work''] \<longrightarrow>
        handleConstitution [] ?w =
          (Inl (Exit 1),
           ?w\<lparr>console := console ?w @
               [hdr, Err ''Constitution is locked.'',
                Err ''Use `specai unlock constitution <path>` to modify it.'']\<rparr>) \<and>
        handleConstitution2 (\<lambda>cmd. ret (Text [])) [] ?w =
          (Inl (Exit 1),
           ?w\<lparr>console := console ?w @
               [hdr, Err ''Constitution is locked.'',
                Err ''Use `specai unlock constitution` to modify it.'']\<rparr>) \<and>
        exit_code (Exit 1) \<noteq> 0) \<and>
     (stored_flag (fs (snd (main [''approve'', ''constitution''] ?w))) [''work''] ''constitution'' =
        Some (JBool True) \<or>
      (\<exists>rest. [''approve'', ''constitution''] = ''unlock'' # ''constitution'' # rest \<and>
              resolveProjectDir (cwd ?w) rest = [''work'']) \<or>
      (\<exists>rest p. [''approve'', ''constitution''] = ''init'' # rest \<and> ''--force'' \<in> set rest \<and>
                find_pathArg rest = Some p \<and> path_resolve (cwd ?w) p = [''work'']))" ..
  from all [THEN conjunct2, THEN conjunct1] example_locked(2) [of "[''1'']" "\<lambda>n. Unreachable"]
  have run: "handleConstitution [] ?w =
          (Inl (Exit 1),
           ?w\<lparr>console := console ?w @
               [hdr, Err ''Constitution is locked.'',
                Err ''Use `specai unlock constitution <path>` to modify it.'']\<rparr>)"
    by simp
  have req: "requests ?w = []" by (simp add: example_defs)
  from all [THEN conjunct2, THEN conjunct2]
  have flag: "stored_flag (fs (snd (main [''approve'', ''constitution''] ?w))) [''work'']
      ''constitution'' = Some (JBool True)"
    by simp
  from run req flag show ?thesis by simp
qed

theorem init_force_clears_lock_counterexample:
  "stored_flag (fs (project_world locked_state scaffold [''demo'', ''a demo''] (\<lambda>n. Unreachable)))
     [''work''] ''constitution'' = Some (JBool True) \<and>
   fst (main [''init'', ''.'', ''--force'', ''--no-git'']
          (project_world locked_state scaffold [''demo'', ''a demo''] (\<lambda>n. Unreachable))) =
     Inr () \<and>
   stored_flag
     (fs (snd (main [''init'', ''.'', ''--force'', ''--no-git'']
                 (project_world locked_state scaffold [''demo'', ''a demo'']
                    (\<lambda>n. Unreachable)))))
     [''work''] ''constitution'' = Some (JBool False)"
  by (simp add: main_def handleInit_def init_gate_def init_steps_def prog_defs cmd_defs fs_defs
      example_defs Let_def ancestors_simps string_defs stored_flag_def stored_state_def
      approved_flag_def)

subsection \<open>Initialising twice\<close>










end
